theory Spec2Isabelle
  imports Complex_Main "HOL-Library.Char_ord" "HOL-Library.List_Lexorder"
begin

section \<open>Data model\<close>

text \<open>
  The leave-management server keeps its state in database tables and reaches them through
  repositories. Each table is a list of rows here, each row a record with the columns the
  approval-workflow engine reads or writes. Free text that only travels to the screen or
  into an e-mail (names, e-mail addresses, the reason of a request, the comment line of an
  approver, the timestamps of bookkeeping) is left out, and so are the calls of the e-mail
  service, whose result the controllers never read.
\<close>

type_synonym uuid = string

datatype LeaveRequestStatus =
  PENDING | APPROVED | REJECTED | CANCELLED | PARTIALLY_APPROVED | PENDING_DELETION

datatype LeaveRequestType = FULL_DAY | FIRST_HALF | SECOND_HALF

datatype UserRole = SUPER_ADMIN | HR | MANAGER | TEAM_LEAD | EMPLOYEE

datatype Gender = MALE | FEMALE | OTHER

text \<open>The string value of a role, as the enumeration of the schema spells it.\<close>

fun UserRole_str :: "UserRole \<Rightarrow> string" where
  "UserRole_str SUPER_ADMIN = ''super_admin''"
| "UserRole_str HR = ''hr''"
| "UserRole_str MANAGER = ''manager''"
| "UserRole_str TEAM_LEAD = ''team_lead''"
| "UserRole_str EMPLOYEE = ''employee''"

text \<open>
  A date offers two observations to the controllers: its place on the time line
  (\<open>getTime\<close>, counted in days, the requests being dated at midnight) and its calendar
  year (\<open>getFullYear\<close>).
\<close>

datatype Date = Date (getTime: int) (getFullYear: int)

text \<open>
  One approval level of a workflow. A level of the current format lists role ids in
  \<open>roleIds\<close>; a level of the legacy format lists role names in \<open>roles\<close>. A missing
  list is the empty list, and a single legacy role is the list of that role.
\<close>

record Level =
  level :: int
  roleIds :: "string list"
  roles :: "string list"
  departmentSpecific :: bool
  required :: bool

record ApprovalWorkflow =
  wf_id :: uuid
  name :: string
  minDays :: rat
  maxDays :: rat
  approvalLevels :: "Level list"
  isActive :: bool

record User =
  u_id :: uuid
  role :: UserRole
  roleId :: "uuid option"
  gender :: "Gender option"
  managerId :: "uuid option"
  department :: "string option"

record LeaveType =
  lt_id :: uuid
  lt_isActive :: bool
  applicableGender :: "Gender option"
  isHalfDayAllowed :: bool

record LeaveBalance =
  lb_id :: uuid
  lb_userId :: uuid
  lb_leaveTypeId :: uuid
  year :: int
  balance :: rat
  used :: rat
  carryForward :: rat

text \<open>An entry of \<open>metadata.approvalHistory\<close>.\<close>

record ApprovalEntry =
  h_level :: int
  h_approverId :: uuid
  h_comments :: "string option"

text \<open>
  The JSON object \<open>metadata\<close> of a leave request. A property that is not set is
  \<open>None\<close>; \<open>isFullyApproved\<close> that is not set counts as false.
\<close>

record WorkflowMetadata =
  requestUserRole :: "UserRole option"
  workflowId :: "uuid option"
  currentApprovalLevel :: "int option"
  requiredApprovalLevels :: "int list option"
  approvalHistory :: "ApprovalEntry list option"
  isFullyApproved :: bool
  deletionRequestedBy :: "uuid option"
  originalStatus :: "LeaveRequestStatus option"
  deletionRejectedBy :: "uuid option"

definition emptyMetadata :: WorkflowMetadata where
  "emptyMetadata =
     \<lparr>requestUserRole = None, workflowId = None, currentApprovalLevel = None,
      requiredApprovalLevels = None, approvalHistory = None, isFullyApproved = False,
      deletionRequestedBy = None, originalStatus = None, deletionRejectedBy = None\<rparr>"

record LeaveRequest =
  lr_id :: uuid
  userId :: uuid
  leaveTypeId :: uuid
  startDate :: Date
  endDate :: Date
  requestType :: LeaveRequestType
  numberOfDays :: rat
  status :: LeaveRequestStatus
  approverId :: "uuid option"
  metadata :: "WorkflowMetadata option"

record Database =
  leaveRequests :: "LeaveRequest list"
  leaveBalances :: "LeaveBalance list"
  users :: "User list"
  leaveTypes :: "LeaveType list"
  workflows :: "ApprovalWorkflow list"

text \<open>
  What a controller reads from outside the tables: the clock, and the services and date
  utilities it calls, each a function of its arguments. \<open>today\<close> is the current day at
  midnight, \<open>getCurrentYear\<close> the year the date utilities report for the moment of the
  call, \<open>isApproverAuthorized\<close> the verdict of the approver service on an actor and a
  requester, \<open>findApproversByRoleIds\<close> the ids of the users the approver service finds
  for a list of role ids and a department.
\<close>

record Env =
  today :: Date
  getCurrentYear :: int
  isApproverAuthorized :: "uuid \<Rightarrow> uuid \<Rightarrow> bool"
  findApproversByRoleIds :: "string list \<Rightarrow> string option \<Rightarrow> uuid list"
  checkForHolidaysInRange :: "Date \<Rightarrow> Date \<Rightarrow> bool"
  calculateBusinessDays :: "Date \<Rightarrow> Date \<Rightarrow> rat"
  calculateHalfDayValue :: rat

text \<open>
  The reply of a controller: the HTTP code, the message, and for a conflict the ids of the
  requests in the way.
\<close>

record Response =
  http_code :: nat
  message :: string
  overlappingRequests :: "uuid list"

definition reply :: "nat \<Rightarrow> string \<Rightarrow> Response" where
  "reply c m = \<lparr>http_code = c, message = m, overlappingRequests = []\<rparr>"

section \<open>Repositories\<close>

text \<open>
  \<open>findOne\<close> returns the first row with a given key, \<open>save\<close> of a row that is in the
  table replaces it and of a new row appends it, \<open>remove_row\<close> deletes the rows with the key
  of the given row.
\<close>

definition findOne :: "('r \<Rightarrow> 'k) \<Rightarrow> 'k \<Rightarrow> 'r list \<Rightarrow> 'r option" where
  "findOne key k rows = find (\<lambda>r. key r = k) rows"

definition save :: "('r \<Rightarrow> 'k) \<Rightarrow> 'r \<Rightarrow> 'r list \<Rightarrow> 'r list" where
  "save key x rows =
     (if list_ex (\<lambda>r. key r = key x) rows
      then map (\<lambda>r. if key r = key x then x else r) rows
      else rows @ [x])"

definition remove_row :: "('r \<Rightarrow> 'k) \<Rightarrow> 'r \<Rightarrow> 'r list \<Rightarrow> 'r list" where
  "remove_row key x rows = filter (\<lambda>r. key r \<noteq> key x) rows"

section \<open>Workflow catalog (approvalWorkflowService)\<close>

datatype WorkflowError =
  NameExists | Overlaps | WorkflowNotFound | NameInUse | WouldOverlap

text \<open>The data of a new workflow. The database draws the id.\<close>

record WorkflowData =
  d_name :: string
  d_minDays :: rat
  d_maxDays :: rat
  d_approvalLevels :: "Level list"
  d_isActive :: bool

text \<open>
  \<open>createApprovalWorkflow\<close>: the name must be new, and no stored workflow, active or
  not, may satisfy \<open>minDays \<le> new maxDays\<close> and \<open>maxDays \<ge> new minDays\<close>.
\<close>

definition createApprovalWorkflow ::
  "uuid \<Rightarrow> WorkflowData \<Rightarrow> ApprovalWorkflow list \<Rightarrow> WorkflowError + ApprovalWorkflow list" where
  "createApprovalWorkflow newId workflowData table =
     (case find (\<lambda>w. name w = d_name workflowData) table of
        Some existingWorkflow \<Rightarrow> Inl NameExists
      | None \<Rightarrow>
          let overlappingWorkflows =
                filter (\<lambda>w. minDays w \<le> d_maxDays workflowData \<and>
                             maxDays w \<ge> d_minDays workflowData) table
          in if length overlappingWorkflows > 0 then Inl Overlaps
             else Inr (save wf_id
                    \<lparr>wf_id = newId, name = d_name workflowData,
                     minDays = d_minDays workflowData, maxDays = d_maxDays workflowData,
                     approvalLevels = d_approvalLevels workflowData,
                     isActive = d_isActive workflowData\<rparr> table))"

text \<open>The partial data of an update: a field that is not given is \<open>None\<close>.\<close>

record WorkflowUpdate =
  p_name :: "string option"
  p_minDays :: "rat option"
  p_maxDays :: "rat option"
  p_approvalLevels :: "Level list option"
  p_isActive :: "bool option"

definition merge :: "ApprovalWorkflow \<Rightarrow> WorkflowUpdate \<Rightarrow> ApprovalWorkflow" where
  "merge w u =
     w\<lparr>name := (case p_name u of Some n \<Rightarrow> n | None \<Rightarrow> name w),
       minDays := (case p_minDays u of Some m \<Rightarrow> m | None \<Rightarrow> minDays w),
       maxDays := (case p_maxDays u of Some m \<Rightarrow> m | None \<Rightarrow> maxDays w),
       approvalLevels := (case p_approvalLevels u of Some l \<Rightarrow> l | None \<Rightarrow> approvalLevels w),
       isActive := (case p_isActive u of Some a \<Rightarrow> a | None \<Rightarrow> isActive w)\<rparr>"

text \<open>
  \<open>updateApprovalWorkflow\<close>: a new name (given, not empty, different from the stored
  one) must be free; when the update changes \<open>minDays\<close> or \<open>maxDays\<close>, the new range is
  checked against every other stored workflow.
\<close>

definition updateApprovalWorkflow ::
  "uuid \<Rightarrow> WorkflowUpdate \<Rightarrow> ApprovalWorkflow list \<Rightarrow> WorkflowError + ApprovalWorkflow list" where
  "updateApprovalWorkflow workflow_id workflowData table =
     (case findOne wf_id workflow_id table of
        None \<Rightarrow> Inl WorkflowNotFound
      | Some approvalWorkflow \<Rightarrow>
          if (case p_name workflowData of
                Some n \<Rightarrow> n \<noteq> [] \<and> n \<noteq> name approvalWorkflow \<and>
                          find (\<lambda>w. name w = n) table \<noteq> None
              | None \<Rightarrow> False)
          then Inl NameInUse
          else
            if ((p_minDays workflowData \<noteq> None \<and>
                   p_minDays workflowData \<noteq> Some (minDays approvalWorkflow)) \<or>
                (p_maxDays workflowData \<noteq> None \<and>
                   p_maxDays workflowData \<noteq> Some (maxDays approvalWorkflow))) \<and>
               (let newMinDays = (case p_minDays workflowData of
                                    Some m \<Rightarrow> m | None \<Rightarrow> minDays approvalWorkflow);
                    newMaxDays = (case p_maxDays workflowData of
                                    Some m \<Rightarrow> m | None \<Rightarrow> maxDays approvalWorkflow);
                    overlappingWorkflows =
                      filter (\<lambda>w. wf_id w \<noteq> workflow_id \<and> minDays w \<le> newMaxDays \<and>
                                   maxDays w \<ge> newMinDays) table
                in length overlappingWorkflows > 0)
            then Inl WouldOverlap
            else Inr (save wf_id (merge approvalWorkflow workflowData) table))"

text \<open>
  The states of the catalog that the two operations reach from the empty table. The
  database never draws the id of a stored row for a new one.
\<close>

inductive reachable :: "ApprovalWorkflow list \<Rightarrow> bool" where
  empty: "reachable []"
| create: "reachable table \<Longrightarrow> newId \<notin> wf_id ` set table \<Longrightarrow>
     createApprovalWorkflow newId workflowData table = Inr table' \<Longrightarrow> reachable table'"
| update: "reachable table \<Longrightarrow>
     updateApprovalWorkflow workflow_id workflowData table = Inr table' \<Longrightarrow> reachable table'"

section \<open>Leave request controller: approval, rejection, cancellation by status update\<close>

text \<open>
  \<open>Array.prototype.sort\<close> without a comparison function orders the elements by their
  string values, compared code unit by code unit. \<open>toString\<close> is the decimal
  numeral of an integer.
\<close>

function digits :: "nat \<Rightarrow> string" where
  "digits n =
     (if n < 10 then [''0123456789'' ! n]
      else digits (n div 10) @ [''0123456789'' ! (n mod 10)])"
  by pat_completeness auto
termination
  by (relation "measure (\<lambda>n. n)") auto

definition toString :: "int \<Rightarrow> string" where
  "toString i = (if i < 0 then CHR ''-'' # digits (nat (- i)) else digits (nat i))"

definition sort_default :: "int list \<Rightarrow> int list" where
  "sort_default xs = sort_key toString xs"

text \<open>
  The active workflows in the order of the query \<open>order: {minDays: "DESC"}\<close>. Rows
  with the same \<open>minDays\<close> come in any order from the database; here they come in the
  reverse of the order of the table.
\<close>

definition activeWorkflows :: "ApprovalWorkflow list \<Rightarrow> ApprovalWorkflow list" where
  "activeWorkflows table = rev (sort_key minDays (filter isActive table))"

text \<open>
  The workflow an approval goes by. For a partially approved request with metadata it
  is the first active workflow whose level numbers, sorted, are the sorted
  \<open>requiredApprovalLevels\<close> of the request; for every other request the first one whose
  range of days holds \<open>numberOfDays\<close>.
\<close>

definition findApplicableWorkflow :: "Database \<Rightarrow> LeaveRequest \<Rightarrow> ApprovalWorkflow option" where
  "findApplicableWorkflow db leaveRequest =
     (let approvalWorkflows = activeWorkflows (workflows db)
      in case (if status leaveRequest = PARTIALLY_APPROVED then metadata leaveRequest
               else None) of
           Some m \<Rightarrow>
             find (\<lambda>workflow.
                     case requiredApprovalLevels m of
                       Some required_levels \<Rightarrow>
                         sort_default (map level (approvalLevels workflow)) =
                         sort_default required_levels
                     | None \<Rightarrow> False) approvalWorkflows
         | None \<Rightarrow>
             find (\<lambda>workflow. numberOfDays leaveRequest \<ge> minDays workflow \<and>
                               numberOfDays leaveRequest \<le> maxDays workflow) approvalWorkflows)"

text \<open>
  Whether the approver has a role of the level: by role id when the level lists role
  ids (an approver without role id matches none), by role name otherwise.
\<close>

definition approverMatchesLevel :: "User \<Rightarrow> Level \<Rightarrow> bool" where
  "approverMatchesLevel approver l =
     (if length (roleIds l) > 0
      then (case roleId approver of
              Some r \<Rightarrow> r \<noteq> [] \<and> r \<in> set (roleIds l)
            | None \<Rightarrow> False)
      else UserRole_str (role approver) \<in> set (roles l))"

text \<open>The loop over the sorted levels that stops at the first level of the approver.\<close>

fun firstMatchingLevel :: "User \<Rightarrow> Level list \<Rightarrow> int option" where
  "firstMatchingLevel approver [] = None"
| "firstMatchingLevel approver (l # ls) =
     (if approverMatchesLevel approver l then Some (level l)
      else firstMatchingLevel approver ls)"

definition findCurrentApproverLevel :: "LeaveRequest \<Rightarrow> User \<Rightarrow> Level list \<Rightarrow> int option" where
  "findCurrentApproverLevel leaveRequest approver sortedLevels =
     (case (if status leaveRequest = PARTIALLY_APPROVED then metadata leaveRequest
            else None) of
        Some m \<Rightarrow>
          (case currentApprovalLevel m of
             None \<Rightarrow> None
           | Some c \<Rightarrow>
               let nextLevel = c + 1
               in (case find (\<lambda>l. level l = nextLevel) sortedLevels of
                     None \<Rightarrow> None
                   | Some nextLevelDefinition \<Rightarrow>
                       if approverMatchesLevel approver nextLevelDefinition
                       then Some nextLevel else None))
      | None \<Rightarrow> firstMatchingLevel approver sortedLevels)"

text \<open>
  The approved requests of the same user, other than the request itself, whose dates
  meet the dates of the request.
\<close>

definition overlappingApproved :: "LeaveRequest list \<Rightarrow> LeaveRequest \<Rightarrow> LeaveRequest list" where
  "overlappingApproved table leaveRequest =
     filter (\<lambda>r. userId r = userId leaveRequest \<and> status r = APPROVED \<and>
                  getTime (startDate r) \<le> getTime (endDate leaveRequest) \<and>
                  getTime (endDate r) \<ge> getTime (startDate leaveRequest) \<and>
                  lr_id r \<noteq> lr_id leaveRequest) table"

definition conflict :: "LeaveRequest list \<Rightarrow> Response" where
  "conflict rs =
     \<lparr>http_code = 409,
      message = ''Cannot approve this leave request as it overlaps with already approved leave requests'',
      overlappingRequests = map lr_id rs\<rparr>"

definition truthy :: "string option \<Rightarrow> bool" where
  "truthy c = (case c of Some t \<Rightarrow> t \<noteq> [] | None \<Rightarrow> False)"

definition historyEntry :: "int \<Rightarrow> uuid \<Rightarrow> string option \<Rightarrow> ApprovalEntry" where
  "historyEntry l approver comments =
     \<lparr>h_level = l, h_approverId = approver,
      h_comments = (if truthy comments then comments else None)\<rparr>"

definition saveLeaveRequest :: "LeaveRequest \<Rightarrow> Database \<Rightarrow> Database" where
  "saveLeaveRequest r db = db\<lparr>leaveRequests := save lr_id r (leaveRequests db)\<rparr>"

definition findLeaveBalance :: "Database \<Rightarrow> uuid \<Rightarrow> uuid \<Rightarrow> int \<Rightarrow> LeaveBalance option" where
  "findLeaveBalance db u t y =
     find (\<lambda>b. lb_userId b = u \<and> lb_leaveTypeId b = t \<and> year b = y) (leaveBalances db)"

definition saveLeaveBalance :: "LeaveBalance \<Rightarrow> Database \<Rightarrow> Database" where
  "saveLeaveBalance b db = db\<lparr>leaveBalances := save lb_id b (leaveBalances db)\<rparr>"

text \<open>
  The request as an approval below the highest level of the workflow leaves it: partially
  approved, its metadata recording the level of the approver, the level numbers of the
  workflow, the role of the requester when it was not recorded, and one more entry of the
  history.
\<close>

definition partiallyApproved ::
  "LeaveRequest \<Rightarrow> User \<Rightarrow> Level list \<Rightarrow> int \<Rightarrow> string option \<Rightarrow> uuid \<Rightarrow> LeaveRequest" where
  "partiallyApproved leaveRequest requestUser sortedLevels currentApproverLevel comments actor =
     (let m = (case metadata leaveRequest of Some m \<Rightarrow> m | None \<Rightarrow> emptyMetadata);
          m1 = m\<lparr>currentApprovalLevel := Some currentApproverLevel,
                  requiredApprovalLevels := Some (map level sortedLevels)\<rparr>;
          m2 = (if requestUserRole m1 = None
                then m1\<lparr>requestUserRole := Some (role requestUser)\<rparr> else m1);
          m3 = m2\<lparr>approvalHistory :=
                    Some ((case approvalHistory m2 of Some h \<Rightarrow> h | None \<Rightarrow> []) @
                          [historyEntry currentApproverLevel actor comments])\<rparr>
      in leaveRequest\<lparr>status := PARTIALLY_APPROVED, approverId := Some actor,
                       metadata := Some m3\<rparr>)"

text \<open>
  The branch of an approval below the highest level of the workflow: the overlap check
  comes first, then the request is saved as partially approved.
\<close>

definition partialApproval ::
  "Database \<Rightarrow> LeaveRequest \<Rightarrow> User \<Rightarrow> Level list \<Rightarrow> int \<Rightarrow> string option \<Rightarrow> uuid \<Rightarrow>
   Response \<times> Database" where
  "partialApproval db leaveRequest requestUser sortedLevels currentApproverLevel comments actor =
     (let overlappingLeaveRequests = overlappingApproved (leaveRequests db) leaveRequest
      in if length overlappingLeaveRequests > 0 then (conflict overlappingLeaveRequests, db)
         else (reply 200 ''Leave request approved, pending higher level approval'',
               saveLeaveRequest
                 (partiallyApproved leaveRequest requestUser sortedLevels currentApproverLevel
                    comments actor) db))"

text \<open>
  The request of an approval at the highest level of the workflow, before the final
  assignment: one more entry of the history, and the mark of the full approval.
\<close>

definition fullyApproved :: "LeaveRequest \<Rightarrow> int \<Rightarrow> string option \<Rightarrow> uuid \<Rightarrow> LeaveRequest" where
  "fullyApproved leaveRequest currentApproverLevel comments actor =
     (let m = (case metadata leaveRequest of Some m \<Rightarrow> m | None \<Rightarrow> emptyMetadata);
          m1 = m\<lparr>approvalHistory :=
                    Some ((case approvalHistory m of Some h \<Rightarrow> h | None \<Rightarrow> []) @
                          [historyEntry currentApproverLevel actor comments]),
                  isFullyApproved := True\<rparr>
      in leaveRequest\<lparr>metadata := Some m1\<rparr>)"

text \<open>
  The request as the final assignment saves it: the new status and the approver, and for
  an approval of a request whose metadata hold a history, an entry of the history for the
  level after the current one and the mark of the full approval.
\<close>

definition assignStatus ::
  "LeaveRequest \<Rightarrow> LeaveRequestStatus \<Rightarrow> string option \<Rightarrow> uuid \<Rightarrow> LeaveRequest" where
  "assignStatus leaveRequest normalizedStatus comments actor =
     (let r1 = leaveRequest\<lparr>status := normalizedStatus, approverId := Some actor\<rparr>
      in if normalizedStatus = APPROVED then
           (case metadata r1 of
              Some m \<Rightarrow>
                (case approvalHistory m of
                   Some h \<Rightarrow>
                     r1\<lparr>metadata := Some (m\<lparr>approvalHistory :=
                           Some (h @ [historyEntry
                             (case currentApprovalLevel m of
                                Some c \<Rightarrow> if c \<noteq> 0 then c + 1 else 1
                              | None \<Rightarrow> 1) actor comments]),
                           isFullyApproved := True\<rparr>)\<rparr>
                 | None \<Rightarrow> r1)
            | None \<Rightarrow> r1)
         else r1)"

text \<open>
  The end of \<open>updateLeaveRequestStatus\<close>, reached by every status other than an
  approval below the highest level: the status is assigned and the request saved; for an
  approval the overlap check follows, and then the balance of the current year.
\<close>

definition finalAssignment ::
  "Env \<Rightarrow> Database \<Rightarrow> LeaveRequest \<Rightarrow> LeaveRequestStatus \<Rightarrow> string option \<Rightarrow> uuid \<Rightarrow>
   Response \<times> Database" where
  "finalAssignment env db leaveRequest normalizedStatus comments actor =
     (let r2 = assignStatus leaveRequest normalizedStatus comments actor;
          db1 = saveLeaveRequest r2 db
      in if normalizedStatus = APPROVED then
           let overlappingLeaveRequests = overlappingApproved (leaveRequests db1) r2
           in if length overlappingLeaveRequests > 0
              then (conflict overlappingLeaveRequests, db1)
              else
                (case findLeaveBalance db1 (userId r2) (leaveTypeId r2) (getCurrentYear env) of
                   Some leaveBalance \<Rightarrow>
                     (reply 200 ''Leave request updated successfully'',
                      saveLeaveBalance
                        (leaveBalance\<lparr>used := used leaveBalance + numberOfDays r2\<rparr>) db1)
                 | None \<Rightarrow> (reply 200 ''Leave request updated successfully'', db1))
         else (reply 200 ''Leave request updated successfully'', db1))"

text \<open>
  The status of the payload: missing, not a value of the enumeration, or a value of it
  (in any case of letters).
\<close>

datatype StatusPayload = NoStatus | InvalidStatus | Status LeaveRequestStatus

definition updateLeaveRequestStatus ::
  "Env \<Rightarrow> Database \<Rightarrow> uuid \<Rightarrow> StatusPayload \<Rightarrow> string option \<Rightarrow> uuid \<Rightarrow>
   Response \<times> Database" where
  "updateLeaveRequestStatus env db request_id payload comments actor =
     (case payload of
        NoStatus \<Rightarrow> (reply 400 ''Status is required'', db)
      | InvalidStatus \<Rightarrow> (reply 400 ''Invalid status'', db)
      | Status normalizedStatus \<Rightarrow>
     (case findOne lr_id request_id (leaveRequests db) of
        None \<Rightarrow> (reply 404 ''Leave request not found'', db)
      | Some leaveRequest \<Rightarrow>
     if status leaveRequest = normalizedStatus
     then (reply 400 ''Leave request is already in this status'', db)
     else if status leaveRequest \<noteq> PENDING \<and> status leaveRequest \<noteq> PARTIALLY_APPROVED \<and>
             normalizedStatus \<noteq> CANCELLED
     then (reply 400
            ''Only pending or partially approved leave requests can be approved or rejected'', db)
     else
     (case findOne u_id actor (users db) of
        None \<Rightarrow> (reply 404 ''Approver not found'', db)
      | Some approver \<Rightarrow>
     (case findOne u_id (userId leaveRequest) (users db) of
        None \<Rightarrow> (reply 404 ''User not found'', db)
      | Some requestUser \<Rightarrow>
     let isSelfCancellation = (userId leaveRequest = actor \<and> normalizedStatus = CANCELLED)
     in if \<not> isApproverAuthorized env actor (userId leaveRequest) \<and> \<not> isSelfCancellation
        then (reply 403 ''You are not authorized to update this leave request'', db)
        else if normalizedStatus = APPROVED then
          (case findApplicableWorkflow db leaveRequest of
             None \<Rightarrow> finalAssignment env db leaveRequest normalizedStatus comments actor
           | Some applicableWorkflow \<Rightarrow>
               let sortedLevels = sort_key level (approvalLevels applicableWorkflow)
               in (case findCurrentApproverLevel leaveRequest approver sortedLevels of
                     None \<Rightarrow>
                       (reply 403
                          ''You do not have the required role to approve this leave request'', db)
                   | Some currentApproverLevel \<Rightarrow>
                       if sortedLevels = []
                       then (reply 500
                          ''An error occurred while updating the leave request status'', db)
                       else
                         let highestRequiredLevel = level (last sortedLevels)
                         in if currentApproverLevel < highestRequiredLevel
                            then partialApproval db leaveRequest requestUser sortedLevels
                                   currentApproverLevel comments actor
                            else
                              finalAssignment env db
                                (fullyApproved leaveRequest currentApproverLevel comments actor)
                                normalizedStatus comments actor))
        else finalAssignment env db leaveRequest normalizedStatus comments actor))))"

section \<open>Leave request controller: cancellation and deletion\<close>

definition cancelLeaveRequest :: "Env \<Rightarrow> Database \<Rightarrow> uuid \<Rightarrow> uuid \<Rightarrow> Response \<times> Database" where
  "cancelLeaveRequest env db request_id caller =
     (case findOne lr_id request_id (leaveRequests db) of
        None \<Rightarrow> (reply 404 ''Leave request not found'', db)
      | Some leaveRequest \<Rightarrow>
          if userId leaveRequest \<noteq> caller
          then (reply 403 ''You can only cancel your own leave requests'', db)
          else if status leaveRequest = CANCELLED
          then (reply 400 ''Leave request is already cancelled'', db)
          else if status leaveRequest = APPROVED \<and>
                  getTime (startDate leaveRequest) < getTime (today env)
          then (reply 400 ''Cannot cancel an approved leave that has already started'', db)
          else
            let db1 = (if status leaveRequest = APPROVED then
                         (case findLeaveBalance db (userId leaveRequest)
                                 (leaveTypeId leaveRequest) (getCurrentYear env) of
                            Some leaveBalance \<Rightarrow>
                              saveLeaveBalance
                                (leaveBalance\<lparr>used := used leaveBalance -
                                                  numberOfDays leaveRequest\<rparr>) db
                          | None \<Rightarrow> db)
                       else db)
            in (reply 200 ''Leave request cancelled successfully'',
                saveLeaveRequest (leaveRequest\<lparr>status := CANCELLED\<rparr>) db1))"

text \<open>
  The reversal of the balance on a deletion: the row of the year of the start date,
  \<open>used\<close> reduced by the days of the request and set to 0 when it falls below.
\<close>

definition revertLeaveBalance :: "Database \<Rightarrow> LeaveRequest \<Rightarrow> Database" where
  "revertLeaveBalance db leaveRequest =
     (case findLeaveBalance db (userId leaveRequest) (leaveTypeId leaveRequest)
             (getFullYear (startDate leaveRequest)) of
        Some leaveBalance \<Rightarrow>
          let b1 = leaveBalance\<lparr>used := used leaveBalance - numberOfDays leaveRequest\<rparr>;
              b2 = (if used b1 < 0 then b1\<lparr>used := 0\<rparr> else b1)
          in saveLeaveBalance b2 db
      | None \<Rightarrow> db)"

definition removeLeaveRequest :: "LeaveRequest \<Rightarrow> Database \<Rightarrow> Database" where
  "removeLeaveRequest r db = db\<lparr>leaveRequests := remove_row lr_id r (leaveRequests db)\<rparr>"

text \<open>
  The body of a decision on a deletion, with the comment line of the approver. A call
  without body has no payload; the two controllers of the decision read the comments from
  the payload before they read the database, which fails on such a call, and the failure
  is answered with the code 500.
\<close>

record DeletionDecision =
  d_comments :: "string option"

definition rejectDeleteLeaveRequest ::
  "Database \<Rightarrow> uuid \<Rightarrow> DeletionDecision option \<Rightarrow> uuid \<Rightarrow> Response \<times> Database" where
  "rejectDeleteLeaveRequest db request_id payload actor =
     (case payload of
        None \<Rightarrow>
          (reply 500 ''An error occurred while rejecting the leave request deletion'', db)
      | Some body \<Rightarrow>
     (case findOne lr_id request_id (leaveRequests db) of
        None \<Rightarrow> (reply 404 ''Leave request not found'', db)
      | Some leaveRequest \<Rightarrow>
     if status leaveRequest \<noteq> PENDING_DELETION
     then (reply 400 ''This leave request is not pending deletion approval'', db)
     else
     (case findOne u_id actor (users db) of
        None \<Rightarrow> (reply 404 ''Approver not found'', db)
      | Some approver \<Rightarrow>
     (case findOne u_id (userId leaveRequest) (users db) of
        None \<Rightarrow> (reply 404 ''User not found'', db)
      | Some requestUser \<Rightarrow>
     let isManager = (managerId requestUser = Some actor);
         isAdminOrHR = (role approver = SUPER_ADMIN \<or> role approver = HR)
     in if \<not> isManager \<and> \<not> isAdminOrHR
        then (reply 403 ''You are not authorized to reject this deletion request'', db)
        else
          let restored = (case metadata leaveRequest of
                            Some m \<Rightarrow> (case originalStatus m of Some s \<Rightarrow> s | None \<Rightarrow> APPROVED)
                          | None \<Rightarrow> APPROVED);
              m = (case metadata leaveRequest of Some m \<Rightarrow> m | None \<Rightarrow> emptyMetadata)
          in (reply 200 ''Leave request deletion rejected successfully'',
              saveLeaveRequest
                (leaveRequest\<lparr>status := restored,
                               metadata := Some (m\<lparr>deletionRejectedBy := Some actor\<rparr>)\<rparr>) db)))))"

definition approveDeleteLeaveRequest ::
  "Database \<Rightarrow> uuid \<Rightarrow> DeletionDecision option \<Rightarrow> uuid \<Rightarrow> Response \<times> Database" where
  "approveDeleteLeaveRequest db request_id payload actor =
     (case payload of
        None \<Rightarrow>
          (reply 500 ''An error occurred while approving the leave request deletion'', db)
      | Some body \<Rightarrow>
     (case findOne lr_id request_id (leaveRequests db) of
        None \<Rightarrow> (reply 404 ''Leave request not found'', db)
      | Some leaveRequest \<Rightarrow>
     if status leaveRequest \<noteq> PENDING_DELETION
     then (reply 400 ''This leave request is not pending deletion approval'', db)
     else
     (case findOne u_id actor (users db) of
        None \<Rightarrow> (reply 404 ''Approver not found'', db)
      | Some approver \<Rightarrow>
     (case findOne u_id (userId leaveRequest) (users db) of
        None \<Rightarrow> (reply 404 ''User not found'', db)
      | Some requestUser \<Rightarrow>
     let isManager = (managerId requestUser = Some actor);
         isAdminOrHR = (role approver = SUPER_ADMIN \<or> role approver = HR)
     in if \<not> isManager \<and> \<not> isAdminOrHR
        then (reply 403 ''You are not authorized to approve this deletion request'', db)
        else
          let original = (case metadata leaveRequest of
                            Some m \<Rightarrow> originalStatus m | None \<Rightarrow> None);
              db1 = (if original = Some APPROVED \<or> original = Some PARTIALLY_APPROVED
                     then revertLeaveBalance db leaveRequest else db)
          in (reply 200
               ''Leave request deletion approved successfully and leave balance has been reverted'',
              removeLeaveRequest leaveRequest db1)))))"

definition deleteLeaveRequest ::
  "Database \<Rightarrow> uuid \<Rightarrow> uuid \<Rightarrow> UserRole \<Rightarrow> Response \<times> Database" where
  "deleteLeaveRequest db request_id caller userRole =
     (case findOne lr_id request_id (leaveRequests db) of
        None \<Rightarrow> (reply 404 ''Leave request not found'', db)
      | Some leaveRequest \<Rightarrow>
     let isOwner = (userId leaveRequest = caller);
         isAdminOrHR = (userRole = SUPER_ADMIN \<or> userRole = HR)
     in if \<not> isOwner \<and> \<not> isAdminOrHR
        then (reply 403 ''You can only delete your own leave requests'', db)
        else if (status leaveRequest = APPROVED \<or> status leaveRequest = PARTIALLY_APPROVED) \<and>
                isOwner \<and> \<not> isAdminOrHR \<and>
                (case find (\<lambda>workflow. numberOfDays leaveRequest \<ge> minDays workflow \<and>
                                         numberOfDays leaveRequest \<le> maxDays workflow)
                        (activeWorkflows (workflows db)) of
                   Some applicableWorkflow \<Rightarrow> length (approvalLevels applicableWorkflow) > 1
                 | None \<Rightarrow> False)
        then
          let m = (case metadata leaveRequest of Some m \<Rightarrow> m | None \<Rightarrow> emptyMetadata)
          in (reply 200 ''Leave deletion request submitted and pending approval'',
              saveLeaveRequest
                (leaveRequest\<lparr>status := PENDING_DELETION,
                   metadata := Some (m\<lparr>deletionRequestedBy := Some caller,
                                       originalStatus := Some (status leaveRequest)\<rparr>)\<rparr>) db)
        else
          let db1 = (if status leaveRequest = APPROVED \<or>
                        status leaveRequest = PARTIALLY_APPROVED
                     then revertLeaveBalance db leaveRequest else db)
          in (reply 200
               ''Leave request deleted successfully and leave balance has been reverted'',
              removeLeaveRequest leaveRequest db1))"

section \<open>Leave request controller: creation\<close>

text \<open>
  The loop that walks the days of the new request from its first to its last and stops
  at the first day inside an existing request.
\<close>

function dayInside :: "int \<Rightarrow> int \<Rightarrow> int \<Rightarrow> int \<Rightarrow> bool" where
  "dayInside currentDate end_day requestStart requestEnd =
     (if currentDate \<le> end_day then
        (if currentDate \<ge> requestStart \<and> currentDate \<le> requestEnd then True
         else dayInside (currentDate + 1) end_day requestStart requestEnd)
      else False)"
  by pat_completeness auto
termination
  by (relation "measure (\<lambda>(c, e, s, t). nat (e + 1 - c))") auto

text \<open>
  Modelled from the spec: \<open>getApprovalWorkflow\<close> of the leave request service, which
  is not among the sources. It selects the active workflow whose range from \<open>minDays\<close>
  to \<open>maxDays\<close> contains the number of days, and fails when there is none.
\<close>

definition getApprovalWorkflow :: "Database \<Rightarrow> rat \<Rightarrow> ApprovalWorkflow option" where
  "getApprovalWorkflow db days =
     find (\<lambda>w. isActive w \<and> minDays w \<le> days \<and> days \<le> maxDays w) (workflows db)"

text \<open>
  The levels a new request requires: the level numbers of the workflow in ascending
  order, without each number whose first level lists the role of the requester among
  its role ids.
\<close>

definition computeRequiredLevels :: "Level list \<Rightarrow> UserRole \<Rightarrow> int list" where
  "computeRequiredLevels levels userRole =
     (let sortedLevels = sort_key level levels;
          requiredLevels = map level sortedLevels
      in filter (\<lambda>n. \<not> (case find (\<lambda>l. level l = n) sortedLevels of
                            Some levelDef \<Rightarrow> UserRole_str userRole \<in> set (roleIds levelDef)
                          | None \<Rightarrow> False)) requiredLevels)"

text \<open>The payload of a new request; a field that is not sent is \<open>None\<close>.\<close>

record CreatePayload =
  c_leaveTypeId :: "uuid option"
  c_startDate :: "Date option"
  c_endDate :: "Date option"
  c_requestType :: "LeaveRequestType option"
  c_reason :: "string option"

text \<open>
  The approvers the controller notifies for the first required level of the saved
  request: it reads the workflow of the metadata again (when the metadata hold a workflow
  id that is not empty) and asks the approver service for the role ids of the level.
\<close>

definition approversToNotify :: "Env \<Rightarrow> Database \<Rightarrow> LeaveRequest \<Rightarrow> User \<Rightarrow> int \<Rightarrow> uuid list" where
  "approversToNotify env db leaveRequest user firstApprovalLevel =
     (case (case metadata leaveRequest of Some m \<Rightarrow> workflowId m | None \<Rightarrow> None) of
        None \<Rightarrow> []
      | Some w_id \<Rightarrow>
          (case (if w_id = [] then None else findOne wf_id w_id (workflows db)) of
             None \<Rightarrow> []
           | Some workflow \<Rightarrow>
               (case find (\<lambda>l. level l = firstApprovalLevel) (approvalLevels workflow) of
                  None \<Rightarrow> []
                | Some levelDefinition \<Rightarrow>
                    if length (roleIds levelDefinition) > 0
                    then findApproversByRoleIds env (roleIds levelDefinition) (department user)
                    else [])))"

text \<open>
  The checks of \<open>createLeaveRequest\<close> that come before the request is built: the
  payload, the dates, the holidays, the leave type, the user, the half day, the overlap
  with a pending or approved request of the user, and the balance. They end with a
  reply, or with the leave type id, the dates, the user and the number of days of the
  request.
\<close>

definition checkLeaveRequest ::
  "Env \<Rightarrow> Database \<Rightarrow> uuid \<Rightarrow> CreatePayload \<Rightarrow> Response + (uuid \<times> Date \<times> Date \<times> User \<times> rat)" where
  "checkLeaveRequest env db caller payload =
     (case (c_leaveTypeId payload, c_startDate payload, c_endDate payload) of
        (Some leave_type_id, Some start, Some end_date) \<Rightarrow>
     if leave_type_id = [] \<or> \<not> truthy (c_reason payload)
     then Inl (reply 400 ''Leave type, start date, end date, and reason are required'')
     else if getTime start > getTime end_date
     then Inl (reply 400 ''Start date cannot be after end date'')
     else if getTime start < getTime (today env)
     then Inl (reply 400 ''Cannot apply for leave with a start date in the past'')
     else if checkForHolidaysInRange env start end_date
     then Inl (reply 400 ''Cannot apply for leave on holidays'')
     else
     (case findOne lt_id leave_type_id (leaveTypes db) of
        None \<Rightarrow> Inl (reply 404 ''Leave type not found'')
      | Some leaveType \<Rightarrow>
     if \<not> lt_isActive leaveType
     then Inl (reply 400 ''This leave type is currently inactive'')
     else
     (case findOne u_id caller (users db) of
        None \<Rightarrow> Inl (reply 404 ''User not found'')
      | Some user \<Rightarrow>
     let halfDay = (c_requestType payload \<noteq> None \<and> c_requestType payload \<noteq> Some FULL_DAY)
     in
     if applicableGender leaveType \<noteq> None \<and> gender user \<noteq> applicableGender leaveType
     then Inl (reply 400 ''This leave type is not applicable for the gender of the employee'')
     else if halfDay \<and> \<not> isHalfDayAllowed leaveType
     then Inl (reply 400 ''Half-day leave is not allowed for this leave type'')
     else if halfDay \<and> getTime start \<noteq> getTime end_date
     then Inl (reply 400 ''Half-day leave can only be applied for a single day'')
     else
     let number_of_days = (if halfDay then calculateHalfDayValue env
                           else calculateBusinessDays env start end_date);
         overlappingLeaveRequests =
           filter (\<lambda>r. userId r = caller \<and> (status r = PENDING \<or> status r = APPROVED) \<and>
                        getTime (startDate r) \<le> getTime end_date \<and>
                        getTime (endDate r) \<ge> getTime start) (leaveRequests db);
         conflictingRequest =
           find (\<lambda>r. dayInside (getTime start) (getTime end_date)
                        (getTime (startDate r)) (getTime (endDate r))) overlappingLeaveRequests
     in
     (case conflictingRequest of
        Some c \<Rightarrow>
          Inl \<lparr>http_code = 409,
               message = ''Multiple leave requests on the same day(s) are not allowed'',
               overlappingRequests = [lr_id c]\<rparr>
      | None \<Rightarrow>
     (case findLeaveBalance db caller leave_type_id (getCurrentYear env) of
        None \<Rightarrow> Inl (reply 404 ''No leave balance found for this leave type'')
      | Some leaveBalance \<Rightarrow>
     let pendingLeaveRequests =
           filter (\<lambda>r. userId r = caller \<and> leaveTypeId r = leave_type_id \<and>
                        status r = PENDING) (leaveRequests db);
         pendingDays = sum_list (map numberOfDays pendingLeaveRequests);
         availableBalance =
           balance leaveBalance + carryForward leaveBalance - used leaveBalance - pendingDays
     in
     if number_of_days > availableBalance
     then Inl (reply 400 ''Insufficient leave balance'')
     else Inr (leave_type_id, start, end_date, user, number_of_days)))))
      | _ \<Rightarrow> Inl (reply 400 ''Leave type, start date, end date, and reason are required''))"

text \<open>
  \<open>createLeaveRequest\<close>. \<open>newId\<close> is the id the database draws for the new row. After
  the checks the controller looks for the workflow, builds the request with its metadata
  and saves it, and then looks for the approvers of the first required level.
\<close>

definition createLeaveRequest ::
  "Env \<Rightarrow> Database \<Rightarrow> uuid \<Rightarrow> uuid \<Rightarrow> CreatePayload \<Rightarrow> Response \<times> Database" where
  "createLeaveRequest env db newId caller payload =
     (case checkLeaveRequest env db caller payload of
        Inl response \<Rightarrow> (response, db)
      | Inr (leave_type_id, start, end_date, user, number_of_days) \<Rightarrow>
     (case getApprovalWorkflow db number_of_days of
        None \<Rightarrow> (reply 400
            ''No approval workflow found for this leave duration. Please contact your administrator.'',
           db)
      | Some approvalWorkflow \<Rightarrow>
     let requiredLevels = computeRequiredLevels (approvalLevels approvalWorkflow) (role user);
         leaveRequest =
           \<lparr>lr_id = newId, userId = caller, leaveTypeId = leave_type_id,
            startDate = start, endDate = end_date,
            requestType = (case c_requestType payload of Some t \<Rightarrow> t | None \<Rightarrow> FULL_DAY),
            numberOfDays = number_of_days, status = PENDING, approverId = None,
            metadata = Some (emptyMetadata\<lparr>requestUserRole := Some (role user),
                               currentApprovalLevel := Some 0,
                               requiredApprovalLevels := Some requiredLevels,
                               approvalHistory := Some [],
                               workflowId := Some (wf_id approvalWorkflow)\<rparr>)\<rparr>;
         db1 = saveLeaveRequest leaveRequest db
     in
     (case requiredLevels of
        [] \<Rightarrow> (reply 201 ''Leave request created successfully'', db1)
      | firstApprovalLevel # others \<Rightarrow>
          if length (approversToNotify env db1 leaveRequest user firstApprovalLevel) = 0
          then (reply 400
                  ''No approvers found for your leave request. Please contact your administrator to set up the approval workflow.'',
                db1)
          else (reply 201 ''Leave request created successfully'', db1))))"

section \<open>The invariant of the workflow catalog\<close>

definition covers :: "ApprovalWorkflow \<Rightarrow> ApprovalWorkflow \<Rightarrow> bool" where
  "covers a b = (minDays a \<le> maxDays b \<and> maxDays a \<ge> minDays b)"

definition catalog_inv :: "ApprovalWorkflow list \<Rightarrow> bool" where
  "catalog_inv table =
     (distinct (map wf_id table) \<and>
      (\<forall>a\<in>set table. \<forall>b\<in>set table. wf_id a \<noteq> wf_id b \<longrightarrow> \<not> covers a b))"

section \<open>Notions for the statements on approvals and balances\<close>

text \<open>
  The table of balances after \<open>used\<close> of a row read from it went through a function;
  with no row read, the table as it was.
\<close>

definition withUsed :: "LeaveBalance list \<Rightarrow> LeaveBalance option \<Rightarrow> (rat \<Rightarrow> rat) \<Rightarrow> LeaveBalance list" where
  "withUsed table row f =
     (case row of
        None \<Rightarrow> table
      | Some b \<Rightarrow> map (\<lambda>x. if lb_id x = lb_id b then b\<lparr>used := f (used b)\<rparr> else x) table)"

text \<open>
  The level an approver is matched with on a request, and the highest level of the
  workflow the approval goes by (\<open>highestRequiredLevel\<close> in the controller).
\<close>

definition matchedLevel :: "Database \<Rightarrow> LeaveRequest \<Rightarrow> User \<Rightarrow> int option" where
  "matchedLevel db r approver =
     (case findApplicableWorkflow db r of
        None \<Rightarrow> None
      | Some w \<Rightarrow> findCurrentApproverLevel r approver (sort_key level (approvalLevels w)))"

definition highestLevel :: "Database \<Rightarrow> LeaveRequest \<Rightarrow> int option" where
  "highestLevel db r =
     (case findApplicableWorkflow db r of
        None \<Rightarrow> None
      | Some w \<Rightarrow>
          (if sort_key level (approvalLevels w) = [] then None
           else Some (level (last (sort_key level (approvalLevels w))))))"

text \<open>
  The highest required approval level of a request: the greatest number of
  \<open>metadata.requiredApprovalLevels\<close>, when the request has metadata with such a list
  and the list is not empty.
\<close>

definition highestRequired :: "LeaveRequest \<Rightarrow> int option" where
  "highestRequired r =
     (case metadata r of
        None \<Rightarrow> None
      | Some m \<Rightarrow>
          (case requiredApprovalLevels m of
             None \<Rightarrow> None
           | Some [] \<Rightarrow> None
           | Some (n # ns) \<Rightarrow> Some (fold max ns n)))"

text \<open>
  Whether \<open>deleteLeaveRequest\<close> defers the deletion of a request to an approval: the
  request is approved or partially approved, the caller owns it and is neither
  administrator nor of HR, and the workflow for its days has more than one level.
\<close>

definition deletionDeferred :: "Database \<Rightarrow> LeaveRequest \<Rightarrow> uuid \<Rightarrow> UserRole \<Rightarrow> bool" where
  "deletionDeferred db r caller userRole =
     ((status r = APPROVED \<or> status r = PARTIALLY_APPROVED) \<and> userId r = caller \<and>
      \<not> (userRole = SUPER_ADMIN \<or> userRole = HR) \<and>
      (case find (\<lambda>workflow. numberOfDays r \<ge> minDays workflow \<and>
                               numberOfDays r \<le> maxDays workflow)
              (activeWorkflows (workflows db)) of
         Some applicableWorkflow \<Rightarrow> length (approvalLevels applicableWorkflow) > 1
       | None \<Rightarrow> False))"

text \<open>The required approval levels in the metadata of the stored request with an id.\<close>

definition requiredLevelsOf :: "Database \<Rightarrow> uuid \<Rightarrow> int list option" where
  "requiredLevelsOf db i =
     (case findOne lr_id i (leaveRequests db) of
        None \<Rightarrow> None
      | Some r \<Rightarrow> (case metadata r of None \<Rightarrow> None | Some m \<Rightarrow> requiredApprovalLevels m))"

section \<open>Example data\<close>

definition exampleLevel :: "int \<Rightarrow> string list \<Rightarrow> Level" where
  "exampleLevel n ids =
     \<lparr>level = n, roleIds = ids, roles = [], departmentSpecific = False, required = True\<rparr>"

definition shortLeave :: ApprovalWorkflow where
  "shortLeave =
     \<lparr>wf_id = ''w1'', name = ''Short leave'', minDays = 1 / 2, maxDays = 2,
      approvalLevels = [exampleLevel 1 [''role-team-lead'']], isActive = True\<rparr>"

definition longLeave :: ApprovalWorkflow where
  "longLeave =
     \<lparr>wf_id = ''w2'', name = ''Long leave'', minDays = 3, maxDays = 10,
      approvalLevels = [exampleLevel 1 [''role-team-lead''], exampleLevel 2 [''role-manager'']],
      isActive = True\<rparr>"

definition noChange :: WorkflowUpdate where
  "noChange = \<lparr>p_name = None, p_minDays = None, p_maxDays = None, p_approvalLevels = None,
     p_isActive = None\<rparr>"

definition alice :: User where
  "alice = \<lparr>u_id = ''alice'', role = EMPLOYEE, roleId = Some ''role-employee'',
     gender = Some FEMALE, managerId = Some ''bob'', department = Some ''Engineering''\<rparr>"

definition bob :: User where
  "bob = \<lparr>u_id = ''bob'', role = MANAGER, roleId = Some ''role-manager'',
     gender = Some MALE, managerId = None, department = Some ''Engineering''\<rparr>"

definition tina :: User where
  "tina = \<lparr>u_id = ''tina'', role = TEAM_LEAD, roleId = Some ''role-team-lead'',
     gender = Some FEMALE, managerId = Some ''bob'', department = Some ''Engineering''\<rparr>"

definition annual :: LeaveType where
  "annual = \<lparr>lt_id = ''annual'', lt_isActive = True, applicableGender = None,
     isHalfDayAllowed = True\<rparr>"

text \<open>The balance of alice for a year, with a number of days used.\<close>

definition aliceBalance :: "int \<Rightarrow> rat \<Rightarrow> LeaveBalance" where
  "aliceBalance y u =
     \<lparr>lb_id = (if y = 2025 then ''b2025'' else ''b2026''), lb_userId = ''alice'',
      lb_leaveTypeId = ''annual'', year = y, balance = 20, used = u, carryForward = 0\<rparr>"

text \<open>
  A request of alice for annual leave from a day to a day of January 2026 (day 20454
  is the first of January 2026).
\<close>

definition aliceRequest ::
  "uuid \<Rightarrow> int \<Rightarrow> int \<Rightarrow> LeaveRequestStatus \<Rightarrow> WorkflowMetadata option \<Rightarrow> LeaveRequest" where
  "aliceRequest i first_day last_day st m =
     \<lparr>lr_id = i, userId = ''alice'', leaveTypeId = ''annual'',
      startDate = Date (20453 + first_day) 2026, endDate = Date (20453 + last_day) 2026,
      requestType = FULL_DAY, numberOfDays = of_int (last_day - first_day + 1), status = st,
      approverId = None, metadata = m\<rparr>"

definition exampleDb :: "LeaveRequest list \<Rightarrow> LeaveBalance list \<Rightarrow> Database" where
  "exampleDb rs bs =
     \<lparr>leaveRequests = rs, leaveBalances = bs, users = [alice, bob, tina],
      leaveTypes = [annual], workflows = [shortLeave, longLeave]\<rparr>"

text \<open>The metadata of a request that waits for the approval of its deletion.\<close>

definition deletionMetadata :: "LeaveRequestStatus \<Rightarrow> WorkflowMetadata" where
  "deletionMetadata st =
     emptyMetadata\<lparr>requestUserRole := Some EMPLOYEE, workflowId := Some ''w2'',
       currentApprovalLevel := Some 1, requiredApprovalLevels := Some [1, 2],
       approvalHistory := Some [], deletionRequestedBy := Some ''alice'',
       originalStatus := Some st\<rparr>"

text \<open>
  The business days from a day to a day, counted the way \<open>calculateBusinessDays\<close> of the
  client counts them when there is no holiday: a loop over the days that counts each day
  but Saturday and Sunday. Day 0 is the first of January 1970, a Thursday.
\<close>

definition isWeekend :: "int \<Rightarrow> bool" where
  "isWeekend d = ((d + 4) mod 7 = 0 \<or> (d + 4) mod 7 = 6)"

function businessDays :: "int \<Rightarrow> int \<Rightarrow> nat" where
  "businessDays currentDate end_day =
     (if currentDate \<le> end_day then
        (if isWeekend currentDate then 0 else 1) + businessDays (currentDate + 1) end_day
      else 0)"
  by pat_completeness auto
termination
  by (relation "measure (\<lambda>(c, e). nat (e + 1 - c))") auto

text \<open>
  An environment for a day and its year: every user may decide on the requests of every
  other user, the approver service finds nobody, there is no holiday, and the days of a
  request are its business days.
\<close>

definition exampleEnv :: "int \<Rightarrow> int \<Rightarrow> Env" where
  "exampleEnv day y =
     \<lparr>today = Date day y, getCurrentYear = y,
      isApproverAuthorized = (\<lambda>actor requester. actor \<noteq> requester),
      findApproversByRoleIds = (\<lambda>ids dep. []),
      checkForHolidaysInRange = (\<lambda>first_day last_day. False),
      calculateBusinessDays =
        (\<lambda>first_day last_day. of_nat (businessDays (getTime first_day) (getTime last_day))),
      calculateHalfDayValue = 1 / 2\<rparr>"

text \<open>The metadata \<open>createLeaveRequest\<close> gives a new request of an employee.\<close>

definition createdMetadata :: "uuid \<Rightarrow> int list \<Rightarrow> WorkflowMetadata" where
  "createdMetadata w_id required_levels =
     emptyMetadata\<lparr>requestUserRole := Some EMPLOYEE, currentApprovalLevel := Some 0,
       requiredApprovalLevels := Some required_levels, approvalHistory := Some [],
       workflowId := Some w_id\<rparr>"

definition examplePayload :: "int \<Rightarrow> int \<Rightarrow> CreatePayload" where
  "examplePayload first_day last_day =
     \<lparr>c_leaveTypeId = Some ''annual'', c_startDate = Some (Date (20453 + first_day) 2026),
      c_endDate = Some (Date (20453 + last_day) 2026), c_requestType = None,
      c_reason = Some ''Family visit''\<rparr>"

text \<open>
  A workflow whose first level lists the role name of the team leads among its role ids,
  a database that holds it, the balance of tina, and an environment in which the approver
  service finds bob for every list of role ids.
\<close>

definition extendedLeave :: ApprovalWorkflow where
  "extendedLeave =
     \<lparr>wf_id = ''w3'', name = ''Extended leave'', minDays = 11, maxDays = 30,
      approvalLevels = [exampleLevel 1 [''team_lead''], exampleLevel 2 [''role-manager''],
                        exampleLevel 3 [''role-hr'']],
      isActive = True\<rparr>"

definition tinaBalance :: "rat \<Rightarrow> LeaveBalance" where
  "tinaBalance u =
     \<lparr>lb_id = ''b-tina'', lb_userId = ''tina'', lb_leaveTypeId = ''annual'', year = 2026,
      balance = 20, used = u, carryForward = 0\<rparr>"

definition extendedDb :: "LeaveRequest list \<Rightarrow> Database" where
  "extendedDb rs =
     \<lparr>leaveRequests = rs, leaveBalances = [tinaBalance 0], users = [alice, bob, tina],
      leaveTypes = [annual], workflows = [shortLeave, longLeave, extendedLeave]\<rparr>"

definition approverEnv :: Env where
  "approverEnv = (exampleEnv 20454 2026)\<lparr>findApproversByRoleIds := (\<lambda>ids dep. [''bob''])\<rparr>"

text \<open>
  The request \<open>createLeaveRequest\<close> stores for tina from Monday the 12th to Friday the
  30th of January 2026, fifteen business days.
\<close>

definition tinaRequest :: "int list \<Rightarrow> LeaveRequest" where
  "tinaRequest required_levels =
     \<lparr>lr_id = ''r7'', userId = ''tina'', leaveTypeId = ''annual'',
      startDate = Date 20465 2026, endDate = Date 20483 2026, requestType = FULL_DAY,
      numberOfDays = 15, status = PENDING, approverId = None,
      metadata = Some ((createdMetadata ''w3'' required_levels)
                         \<lparr>requestUserRole := Some TEAM_LEAD\<rparr>)\<rparr>"

text \<open>
  A workflow whose second level lists the role name of the managers among its role ids, a
  database that holds it in the place of the workflow for three to ten days, and a request
  of bob, a manager, for three days, with the metadata \<open>createLeaveRequest\<close> gives it:
  the second level is left out of the required levels.
\<close>

definition managedLeave :: ApprovalWorkflow where
  "managedLeave =
     \<lparr>wf_id = ''w4'', name = ''Managed leave'', minDays = 3, maxDays = 10,
      approvalLevels = [exampleLevel 1 [''role-team-lead''],
                        exampleLevel 2 [''manager'', ''role-hr'']],
      isActive = True\<rparr>"

definition managedDb :: "LeaveRequest list \<Rightarrow> Database" where
  "managedDb rs =
     \<lparr>leaveRequests = rs, leaveBalances = [], users = [alice, bob, tina],
      leaveTypes = [annual], workflows = [shortLeave, managedLeave]\<rparr>"

definition bobRequest :: LeaveRequest where
  "bobRequest =
     \<lparr>lr_id = ''r5'', userId = ''bob'', leaveTypeId = ''annual'',
      startDate = Date 20465 2026, endDate = Date 20467 2026, requestType = FULL_DAY,
      numberOfDays = 3, status = PENDING, approverId = None,
      metadata = Some ((createdMetadata ''w4'' [1])\<lparr>requestUserRole := Some MANAGER\<rparr>)\<rparr>"

section \<open>Lemmas on the repositories and the catalog\<close>

lemma save_new:
  assumes "key x \<notin> key ` set rows"
  shows "save key x rows = rows @ [x]"
proof -
  have "\<not> list_ex (\<lambda>r. key r = key x) rows"
  proof
    assume "list_ex (\<lambda>r. key r = key x) rows"
    then obtain r where "r \<in> set rows" "key r = key x"
      unfolding list_ex_iff by blast
    then have "key x \<in> key ` set rows" by (simp add: image_iff) (rule bexI [of _ r], simp_all)
    with assms show False by simp
  qed
  then show ?thesis by (simp add: save_def)
qed

lemma findOne_Some: "findOne key k rows = Some r \<Longrightarrow> r \<in> set rows \<and> key r = k"
  unfolding findOne_def by (induction rows) (auto split: if_splits)

lemma save_old:
  assumes "r \<in> set rows" "key x = key r"
  shows "save key x rows = map (\<lambda>r. if key r = key x then x else r) rows"
proof -
  have "list_ex (\<lambda>r. key r = key x) rows"
    unfolding list_ex_iff using assms by (intro bexI [of _ r]) simp_all
  then show ?thesis by (simp add: save_def)
qed

lemma save_old_set:
  assumes "distinct (map key rows)" "r \<in> set rows" "key x = key r"
  shows "set (save key x rows) = insert x (set rows - {r})"
proof -
  have same: "r' = r" if "r' \<in> set rows" "key r' = key r" for r'
  proof -
    from assms(1) have "inj_on key (set rows)" by (simp add: distinct_map)
    with that assms(2) show ?thesis by (simp add: inj_on_def)
  qed
  have "set (save key x rows) = (\<lambda>r. if key r = key x then x else r) ` set rows"
    by (simp add: save_old [OF assms(2,3)])
  also have "\<dots> = insert x (set rows - {r})"
  proof (intro set_eqI iffI)
    fix y assume "y \<in> (\<lambda>r. if key r = key x then x else r) ` set rows"
    then obtain r' where r': "r' \<in> set rows" "y = (if key r' = key x then x else r')"
      by blast
    show "y \<in> insert x (set rows - {r})"
    proof (cases "key r' = key x")
      case True with r' show ?thesis by simp
    next
      case False with r' assms(3) show ?thesis by auto
    qed
  next
    fix y assume y: "y \<in> insert x (set rows - {r})"
    show "y \<in> (\<lambda>r. if key r = key x then x else r) ` set rows"
    proof (cases "y = x")
      case True
      with assms(2,3) show ?thesis by (intro image_eqI [where x = r]) simp_all
    next
      case False
      with y have yr: "y \<in> set rows" "y \<noteq> r" by auto
      with same [of y] assms(3) have "key y \<noteq> key x" by auto
      with yr show ?thesis by (intro image_eqI [where x = y]) simp_all
    qed
  qed
  finally show ?thesis .
qed

lemma save_old_keys:
  assumes "r \<in> set rows" "key x = key r"
  shows "map key (save key x rows) = map key rows"
  by (simp add: save_old [OF assms])

lemma create_inv:
  assumes "catalog_inv table" "newId \<notin> wf_id ` set table"
    "createApprovalWorkflow newId d table = Inr table'"
  shows "catalog_inv table'"
proof -
  define w where "w = \<lparr>wf_id = newId, name = d_name d, minDays = d_minDays d,
    maxDays = d_maxDays d, approvalLevels = d_approvalLevels d, isActive = d_isActive d\<rparr>"
  have wid: "wf_id w = newId" and wmin: "minDays w = d_minDays d"
    and wmax: "maxDays w = d_maxDays d"
    by (simp_all add: w_def)
  from assms(3) have none: "filter (\<lambda>x. minDays x \<le> d_maxDays d \<and>
      maxDays x \<ge> d_minDays d) table = []"
    and t': "table' = save wf_id w table"
    by (auto simp: createApprovalWorkflow_def Let_def w_def split: option.splits if_splits)
  from assms(2) wid have t'': "table' = table @ [w]"
    unfolding t' by (intro save_new) simp
  from none have fresh: "\<not> covers b w \<and> \<not> covers w b" if "b \<in> set table" for b
    using that by (auto simp: filter_empty_conv covers_def wmin wmax)
  from assms(1,2) wid show ?thesis
    unfolding t'' catalog_inv_def using fresh by auto
qed

lemma merge_id: "wf_id (merge w u) = wf_id w"
  by (simp add: merge_def)

lemma update_inv:
  assumes "catalog_inv table" "updateApprovalWorkflow wid u table = Inr table'"
  shows "catalog_inv table'"
proof -
  from assms(2) obtain w where w: "findOne wf_id wid table = Some w"
    and t': "table' = save wf_id (merge w u) table"
    by (auto simp: updateApprovalWorkflow_def split: option.splits if_splits)
  from w have win: "w \<in> set table" and wid: "wf_id w = wid" by (auto dest: findOne_Some)
  from assms(1) have d: "distinct (map wf_id table)" by (simp add: catalog_inv_def)
  have set': "set table' = insert (merge w u) (set table - {w})"
    unfolding t' using d win by (intro save_old_set) (auto simp: merge_id)
  have keys': "map wf_id table' = map wf_id table"
    unfolding t' using win by (intro save_old_keys) (auto simp: merge_id)
  have others: "\<not> covers (merge w u) b \<and> \<not> covers b (merge w u)"
    if b: "b \<in> set table" "wf_id b \<noteq> wid" for b
  proof -
    from assms(1) win wid b have old: "\<not> covers w b" "\<not> covers b w"
      by (auto simp: catalog_inv_def)
    show ?thesis
    proof (cases "(p_minDays u \<noteq> None \<and> p_minDays u \<noteq> Some (minDays w)) \<or>
                (p_maxDays u \<noteq> None \<and> p_maxDays u \<noteq> Some (maxDays w))")
      case True
      with assms(2) w have "filter (\<lambda>x. wf_id x \<noteq> wid \<and>
           minDays x \<le> (case p_maxDays u of Some m \<Rightarrow> m | None \<Rightarrow> maxDays w) \<and>
           maxDays x \<ge> (case p_minDays u of Some m \<Rightarrow> m | None \<Rightarrow> minDays w)) table = []"
        by (auto simp: updateApprovalWorkflow_def Let_def split: if_splits)
      with b show ?thesis
        by (auto simp: filter_empty_conv covers_def merge_def split: option.splits)
    next
      case False
      then have "minDays (merge w u) = minDays w" "maxDays (merge w u) = maxDays w"
        by (auto simp: merge_def split: option.splits)
      with old show ?thesis by (simp add: covers_def)
    qed
  qed
  show ?thesis
    unfolding catalog_inv_def keys'
  proof (intro conjI ballI impI)
    show "distinct (map wf_id table)" by (rule d)
  next
    fix a b assume ab: "a \<in> set table'" "b \<in> set table'" "wf_id a \<noteq> wf_id b"
    show "\<not> covers a b"
    proof (cases "a = merge w u")
      case True
      with ab set' have "b \<in> set table" "wf_id b \<noteq> wid"
        using wid by (auto simp: merge_id)
      with others True show ?thesis by blast
    next
      case na: False
      with ab set' have a: "a \<in> set table" by auto
      show ?thesis
      proof (cases "b = merge w u")
        case True
        with ab a have "wf_id a \<noteq> wid" using wid by (auto simp: merge_id)
        with others a True show ?thesis by blast
      next
        case False
        with ab set' have "b \<in> set table" by auto
        with assms(1) a ab(3) show ?thesis by (auto simp: catalog_inv_def)
      qed
    qed
  qed
qed

lemma reachable_inv: "reachable table \<Longrightarrow> catalog_inv table"
proof (induction rule: reachable.induct)
  case empty
  show ?case by (simp add: catalog_inv_def)
next
  case (create table newId workflowData table')
  then show ?case by (blast intro: create_inv)
next
  case (update table workflowId workflowData table')
  then show ?case by (blast intro: update_inv)
qed


lemma findOne_distinct:
  assumes "catalog_inv table" "w \<in> set table"
  shows "findOne wf_id (wf_id w) table = Some w"
proof -
  from assms(1) have inj: "inj_on wf_id (set table)" by (simp add: catalog_inv_def distinct_map)
  obtain r where r: "findOne wf_id (wf_id w) table = Some r"
    using assms(2) unfolding findOne_def by (cases "find (\<lambda>r. wf_id r = wf_id w) table") (auto simp: find_None_iff)
  then have "r \<in> set table" "wf_id r = wf_id w" by (auto dest: findOne_Some)
  with inj assms(2) have "r = w" by (simp add: inj_on_def)
  with r show ?thesis by simp
qed

lemma meet_bounds:
  fixes a b c d :: rat
  assumes "{a..b} \<inter> {c..d} \<noteq> {}"
  shows "a \<le> d \<and> c \<le> b"
proof -
  from assms obtain x where "x \<in> {a..b} \<inter> {c..d}" by blast
  then show ?thesis by auto
qed

lemma covers_of_meet:
  assumes "{minDays a..maxDays a} \<inter> {minDays b..maxDays b} \<noteq> {}"
  shows "covers a b"
  using meet_bounds [OF assms] by (simp add: covers_def)

lemma find_Some_set: "find P xs = Some x \<Longrightarrow> x \<in> set xs \<and> P x"
  by (induction xs) (auto split: if_splits)

lemma find_map_replace:
  "find (\<lambda>r. key r = key x) (map (\<lambda>r. if key r = key x then x else r) rows) =
     (if list_ex (\<lambda>r. key r = key x) rows then Some x else None)"
  by (induction rows) auto

lemma find_append_new:
  "\<not> list_ex (\<lambda>r. key r = key x) rows \<Longrightarrow> find (\<lambda>r. key r = key x) (rows @ [x]) = Some x"
  by (induction rows) auto

lemma findOne_save: "findOne key (key x) (save key x rows) = Some x"
  by (simp add: findOne_def save_def find_map_replace find_append_new)

lemma findOne_save_other:
  "k \<noteq> key x \<Longrightarrow> findOne key k (save key x rows) = findOne key k rows"
proof -
  assume k: "k \<noteq> key x"
  have 1: "find (\<lambda>r. key r = k) (map (\<lambda>r. if key r = key x then x else r) rows) =
           find (\<lambda>r. key r = k) rows"
    using k by (induction rows) auto
  have 2: "find (\<lambda>r. key r = k) (rows @ [x]) = find (\<lambda>r. key r = k) rows"
    using k by (induction rows) auto
  show ?thesis by (simp add: findOne_def save_def 1 2)
qed


lemma leaveBalances_saveLeaveRequest [simp]:
  "leaveBalances (saveLeaveRequest r db) = leaveBalances db"
  by (simp add: saveLeaveRequest_def)

lemma leaveRequests_saveLeaveRequest [simp]:
  "leaveRequests (saveLeaveRequest r db) = save lr_id r (leaveRequests db)"
  by (simp add: saveLeaveRequest_def)

lemma leaveBalances_saveLeaveBalance [simp]:
  "leaveBalances (saveLeaveBalance b db) = save lb_id b (leaveBalances db)"
  by (simp add: saveLeaveBalance_def)

lemma leaveRequests_saveLeaveBalance [simp]:
  "leaveRequests (saveLeaveBalance b db) = leaveRequests db"
  by (simp add: saveLeaveBalance_def)

lemma leaveBalances_removeLeaveRequest [simp]:
  "leaveBalances (removeLeaveRequest r db) = leaveBalances db"
  by (simp add: removeLeaveRequest_def)

lemma leaveRequests_removeLeaveRequest [simp]:
  "leaveRequests (removeLeaveRequest r db) = remove_row lr_id r (leaveRequests db)"
  by (simp add: removeLeaveRequest_def)

lemma leaveRequests_revertLeaveBalance [simp]:
  "leaveRequests (revertLeaveBalance db r) = leaveRequests db"
  by (simp add: revertLeaveBalance_def Let_def split: option.splits)

text \<open>Saving a changed copy of a row that was read from the table rewrites that row.\<close>

lemma save_found:
  assumes "find P rows = Some b" "key b' = key b"
  shows "save key b' rows = map (\<lambda>x. if key x = key b then b' else x) rows"
proof -
  from assms(1) have "b \<in> set rows" by (simp add: find_Some_set)
  from save_old [OF this assms(2)] assms(2) show ?thesis by simp
qed

lemma leaveBalances_revertLeaveBalance:
  "leaveBalances (revertLeaveBalance db r) =
     (case findLeaveBalance db (userId r) (leaveTypeId r) (getFullYear (startDate r)) of
        None \<Rightarrow> leaveBalances db
      | Some b \<Rightarrow> map (\<lambda>x. if lb_id x = lb_id b
                            then b\<lparr>used := max 0 (used b - numberOfDays r)\<rparr> else x)
                    (leaveBalances db))"
proof (cases "findLeaveBalance db (userId r) (leaveTypeId r) (getFullYear (startDate r))")
  case None
  then show ?thesis by (simp add: revertLeaveBalance_def)
next
  case (Some b)
  then have f: "find (\<lambda>b. lb_userId b = userId r \<and> lb_leaveTypeId b = leaveTypeId r \<and>
      year b = getFullYear (startDate r)) (leaveBalances db) = Some b"
    by (simp add: findLeaveBalance_def)
  have rv: "revertLeaveBalance db r =
      saveLeaveBalance (b\<lparr>used := max 0 (used b - numberOfDays r)\<rparr>) db"
    using Some by (auto simp: revertLeaveBalance_def Let_def max_def)
  have "save lb_id (b\<lparr>used := max 0 (used b - numberOfDays r)\<rparr>) (leaveBalances db) =
        map (\<lambda>x. if lb_id x = lb_id b then b\<lparr>used := max 0 (used b - numberOfDays r)\<rparr> else x)
          (leaveBalances db)"
    by (rule save_found [OF f]) simp
  with Some show ?thesis
    unfolding rv by simp
qed

text \<open>The paths through \<open>updateLeaveRequestStatus\<close>.\<close>

lemma update_dispatch:
  assumes "findOne lr_id i (leaveRequests db) = Some r"
    and "status r \<noteq> s"
    and "status r = PENDING \<or> status r = PARTIALLY_APPROVED \<or> s = CANCELLED"
    and "findOne u_id actor (users db) = Some approver"
    and "findOne u_id (userId r) (users db) = Some requestUser"
    and "isApproverAuthorized env actor (userId r) \<or> (userId r = actor \<and> s = CANCELLED)"
  shows "updateLeaveRequestStatus env db i (Status s) c actor =
     (if s = APPROVED then
        (case findApplicableWorkflow db r of
           None \<Rightarrow> finalAssignment env db r s c actor
         | Some w \<Rightarrow>
             (case findCurrentApproverLevel r approver (sort_key level (approvalLevels w)) of
                None \<Rightarrow>
                  (reply 403
                     ''You do not have the required role to approve this leave request'', db)
              | Some k \<Rightarrow>
                  if sort_key level (approvalLevels w) = []
                  then (reply 500
                     ''An error occurred while updating the leave request status'', db)
                  else if k < level (last (sort_key level (approvalLevels w)))
                  then partialApproval db r requestUser (sort_key level (approvalLevels w)) k c actor
                  else finalAssignment env db (fullyApproved r k c actor) s c actor))
      else finalAssignment env db r s c actor)"
proof -
  have g1: "(status r = s) = False" using assms(2) by simp
  have g2: "(status r \<noteq> PENDING \<and> status r \<noteq> PARTIALLY_APPROVED \<and> s \<noteq> CANCELLED) = False"
    using assms(3) by blast
  have g3: "(\<not> isApproverAuthorized env actor (userId r) \<and> \<not> (userId r = actor \<and> s = CANCELLED))
      = False"
    using assms(6) by blast
  show ?thesis
    unfolding updateLeaveRequestStatus_def Let_def
    by (simp only: assms(1,4,5) g1 g2 g3 StatusPayload.case option.case if_False)
qed

lemma findCurrentApproverLevel_Nil: "findCurrentApproverLevel r approver [] = None"
  by (simp add: findCurrentApproverLevel_def split: option.splits)

lemma assignStatus_frame [simp]:
  "lr_id (assignStatus r s c a) = lr_id r"
  "userId (assignStatus r s c a) = userId r"
  "leaveTypeId (assignStatus r s c a) = leaveTypeId r"
  "startDate (assignStatus r s c a) = startDate r"
  "endDate (assignStatus r s c a) = endDate r"
  "numberOfDays (assignStatus r s c a) = numberOfDays r"
  "status (assignStatus r s c a) = s"
  by (simp_all add: assignStatus_def Let_def split: option.splits)

lemma fullyApproved_frame [simp]:
  "lr_id (fullyApproved r k c a) = lr_id r"
  "userId (fullyApproved r k c a) = userId r"
  "leaveTypeId (fullyApproved r k c a) = leaveTypeId r"
  "startDate (fullyApproved r k c a) = startDate r"
  "endDate (fullyApproved r k c a) = endDate r"
  "numberOfDays (fullyApproved r k c a) = numberOfDays r"
  "status (fullyApproved r k c a) = status r"
  by (simp_all add: fullyApproved_def Let_def)

lemma partiallyApproved_frame [simp]:
  "lr_id (partiallyApproved r u ls k c a) = lr_id r"
  "userId (partiallyApproved r u ls k c a) = userId r"
  "leaveTypeId (partiallyApproved r u ls k c a) = leaveTypeId r"
  "startDate (partiallyApproved r u ls k c a) = startDate r"
  "endDate (partiallyApproved r u ls k c a) = endDate r"
  "numberOfDays (partiallyApproved r u ls k c a) = numberOfDays r"
  "status (partiallyApproved r u ls k c a) = PARTIALLY_APPROVED"
  by (simp_all add: partiallyApproved_def Let_def)

lemma overlappingApproved_cong:
  assumes "lr_id r' = lr_id r" "userId r' = userId r" "startDate r' = startDate r"
    "endDate r' = endDate r"
  shows "overlappingApproved table r' = overlappingApproved table r"
  by (simp add: overlappingApproved_def assms)

lemma overlappingApproved_save:
  "overlappingApproved (save lr_id r table) r = overlappingApproved table r"
proof -
  let ?P = "\<lambda>x. userId x = userId r \<and> status x = APPROVED \<and>
                  getTime (startDate x) \<le> getTime (endDate r) \<and>
                  getTime (endDate x) \<ge> getTime (startDate r) \<and> lr_id x \<noteq> lr_id r"
  have 1: "filter ?P (map (\<lambda>x. if lr_id x = lr_id r then r else x) table) = filter ?P table"
    by (induction table) auto
  have 2: "filter ?P (table @ [r]) = filter ?P table" by simp
  show ?thesis
    unfolding overlappingApproved_def save_def using 1 2 by (simp split: if_splits)
qed

lemma findLeaveBalance_saveLeaveRequest [simp]:
  "findLeaveBalance (saveLeaveRequest r db) u t y = findLeaveBalance db u t y"
  by (simp add: findLeaveBalance_def)

lemma finalAssignment_other:
  "s \<noteq> APPROVED \<Longrightarrow>
   finalAssignment env db r s c a =
     (reply 200 ''Leave request updated successfully'',
      saveLeaveRequest (assignStatus r s c a) db)"
  by (simp add: finalAssignment_def Let_def)

lemma finalAssignment_approved:
  "finalAssignment env db r APPROVED c a =
     (if overlappingApproved (leaveRequests db) r \<noteq> []
      then (conflict (overlappingApproved (leaveRequests db) r),
            saveLeaveRequest (assignStatus r APPROVED c a) db)
      else (case findLeaveBalance db (userId r) (leaveTypeId r) (getCurrentYear env) of
              Some b \<Rightarrow>
                (reply 200 ''Leave request updated successfully'',
                 saveLeaveBalance (b\<lparr>used := used b + numberOfDays r\<rparr>)
                   (saveLeaveRequest (assignStatus r APPROVED c a) db))
            | None \<Rightarrow>
                (reply 200 ''Leave request updated successfully'',
                 saveLeaveRequest (assignStatus r APPROVED c a) db)))"
proof -
  have "overlappingApproved (save lr_id (assignStatus r APPROVED c a) (leaveRequests db))
          (assignStatus r APPROVED c a) =
        overlappingApproved (leaveRequests db) r"
    using overlappingApproved_cong [of "assignStatus r APPROVED c a" r "leaveRequests db"]
    by (simp add: overlappingApproved_save)
  then show ?thesis
    by (simp add: finalAssignment_def Let_def split: option.splits)
qed

lemma partialApproval_result:
  "partialApproval db r u ls k c a =
     (if overlappingApproved (leaveRequests db) r \<noteq> []
      then (conflict (overlappingApproved (leaveRequests db) r), db)
      else (reply 200 ''Leave request approved, pending higher level approval'',
            saveLeaveRequest (partiallyApproved r u ls k c a) db))"
  by (simp add: partialApproval_def Let_def)

lemma cancelLeaveRequest_approved:
  assumes "findOne lr_id i (leaveRequests db) = Some r"
    and "status r = APPROVED"
    and "getTime (today env) \<le> getTime (startDate r)"
    and "findLeaveBalance db (userId r) (leaveTypeId r) (getCurrentYear env) = Some b"
  shows "cancelLeaveRequest env db i (userId r) =
     (reply 200 ''Leave request cancelled successfully'',
      saveLeaveRequest (r\<lparr>status := CANCELLED\<rparr>)
        (saveLeaveBalance (b\<lparr>used := used b - numberOfDays r\<rparr>) db))"
  using assms by (simp add: cancelLeaveRequest_def Let_def)

lemma saveLeaveBalance_found:
  assumes "findLeaveBalance db u t y = Some b" "lb_id b' = lb_id b"
  shows "leaveBalances (saveLeaveBalance b' db) =
         map (\<lambda>x. if lb_id x = lb_id b then b' else x) (leaveBalances db)"
  using save_found [OF assms(1) [unfolded findLeaveBalance_def] assms(2)] by simp

lemma withUsed_save:
  assumes "findLeaveBalance db u t y = Some b"
  shows "leaveBalances (saveLeaveBalance (b\<lparr>used := f (used b)\<rparr>) db) =
         withUsed (leaveBalances db) (findLeaveBalance db u t y) f"
  using saveLeaveBalance_found [OF assms, of "b\<lparr>used := f (used b)\<rparr>"] assms
  by (simp add: withUsed_def)

lemma leaveBalances_revert_withUsed:
  "leaveBalances (revertLeaveBalance db r) =
     withUsed (leaveBalances db)
       (findLeaveBalance db (userId r) (leaveTypeId r) (getFullYear (startDate r)))
       (\<lambda>u. max 0 (u - numberOfDays r))"
  by (simp add: leaveBalances_revertLeaveBalance withUsed_def)

lemma leaveBalances_finalAssignment_approved:
  assumes "overlappingApproved (leaveRequests db) r = []"
  shows "leaveBalances (snd (finalAssignment env db r APPROVED c a)) =
     withUsed (leaveBalances db)
       (findLeaveBalance db (userId r) (leaveTypeId r) (getCurrentYear env))
       (\<lambda>u. u + numberOfDays r)"
proof (cases "findLeaveBalance db (userId r) (leaveTypeId r) (getCurrentYear env)")
  case None
  with assms show ?thesis by (simp add: finalAssignment_approved withUsed_def)
next
  case (Some b)
  have "save lb_id (b\<lparr>used := used b + numberOfDays r\<rparr>) (leaveBalances db) =
      withUsed (leaveBalances db)
        (findLeaveBalance db (userId r) (leaveTypeId r) (getCurrentYear env))
        (\<lambda>u. u + numberOfDays r)"
    using withUsed_save [OF Some, of "\<lambda>u. u + numberOfDays r"] by simp
  with assms Some show ?thesis by (simp add: finalAssignment_approved)
qed

lemma leaveBalances_cancel:
  assumes "findOne lr_id i (leaveRequests db) = Some r"
    and "status r = APPROVED"
    and "getTime (today env) \<le> getTime (startDate r)"
  shows "leaveBalances (snd (cancelLeaveRequest env db i (userId r))) =
     withUsed (leaveBalances db)
       (findLeaveBalance db (userId r) (leaveTypeId r) (getCurrentYear env))
       (\<lambda>u. u - numberOfDays r)"
proof (cases "findLeaveBalance db (userId r) (leaveTypeId r) (getCurrentYear env)")
  case None
  with assms show ?thesis by (simp add: cancelLeaveRequest_def Let_def withUsed_def)
next
  case (Some b)
  have "save lb_id (b\<lparr>used := used b - numberOfDays r\<rparr>) (leaveBalances db) =
      withUsed (leaveBalances db)
        (findLeaveBalance db (userId r) (leaveTypeId r) (getCurrentYear env))
        (\<lambda>u. u - numberOfDays r)"
    using withUsed_save [OF Some, of "\<lambda>u. u - numberOfDays r"] by simp
  with cancelLeaveRequest_approved [OF assms Some] show ?thesis by simp
qed

lemma deleteLeaveRequest_direct:
  assumes "findOne lr_id i (leaveRequests db) = Some r"
    and "userId r = caller \<or> userRole = SUPER_ADMIN \<or> userRole = HR"
    and "\<not> deletionDeferred db r caller userRole"
  shows "deleteLeaveRequest db i caller userRole =
     (reply 200 ''Leave request deleted successfully and leave balance has been reverted'',
      removeLeaveRequest r
        (if status r = APPROVED \<or> status r = PARTIALLY_APPROVED
         then revertLeaveBalance db r else db))"
proof -
  have g1: "(\<not> userId r = caller \<and> \<not> (userRole = SUPER_ADMIN \<or> userRole = HR)) = False"
    using assms(2) by blast
  have g2: "((status r = APPROVED \<or> status r = PARTIALLY_APPROVED) \<and> userId r = caller \<and>
      \<not> (userRole = SUPER_ADMIN \<or> userRole = HR) \<and>
      (case find (\<lambda>workflow. numberOfDays r \<ge> minDays workflow \<and>
                               numberOfDays r \<le> maxDays workflow)
              (activeWorkflows (workflows db)) of
         Some applicableWorkflow \<Rightarrow> length (approvalLevels applicableWorkflow) > 1
       | None \<Rightarrow> False)) = False"
    using assms(3) by (simp only: deletionDeferred_def)
  show ?thesis
    unfolding deleteLeaveRequest_def Let_def
    by (simp only: assms(1) option.case g1 g2 if_False)
qed

text \<open>A decision on a deletion that comes without body is answered with 500 and writes nothing.\<close>

lemma deletion_decision_without_body:
  "approveDeleteLeaveRequest db i None actor =
     (reply 500 ''An error occurred while approving the leave request deletion'', db)"
  "rejectDeleteLeaveRequest db i None actor =
     (reply 500 ''An error occurred while rejecting the leave request deletion'', db)"
  by (simp_all add: approveDeleteLeaveRequest_def rejectDeleteLeaveRequest_def)

lemma approveDeleteLeaveRequest_result:
  assumes "findOne lr_id i (leaveRequests db) = Some r"
    and "status r = PENDING_DELETION"
    and "findOne u_id actor (users db) = Some approver"
    and "findOne u_id (userId r) (users db) = Some requestUser"
    and "managerId requestUser = Some actor \<or> role approver = SUPER_ADMIN \<or> role approver = HR"
  shows "approveDeleteLeaveRequest db i (Some body) actor =
     (reply 200
        ''Leave request deletion approved successfully and leave balance has been reverted'',
      removeLeaveRequest r
        (if (case metadata r of Some m \<Rightarrow> originalStatus m | None \<Rightarrow> None) = Some APPROVED \<or>
            (case metadata r of Some m \<Rightarrow> originalStatus m | None \<Rightarrow> None) =
              Some PARTIALLY_APPROVED
         then revertLeaveBalance db r else db))"
  using assms by (auto simp: approveDeleteLeaveRequest_def Let_def)

lemma findLeaveBalance_year:
  "findLeaveBalance db u t y = Some b \<Longrightarrow> year b = y"
  unfolding findLeaveBalance_def by (drule find_Some_set) simp

lemma approval_dispatch:
  assumes "findOne lr_id i (leaveRequests db) = Some r"
    and "status r = PENDING \<or> status r = PARTIALLY_APPROVED"
    and "findOne u_id actor (users db) = Some approver"
    and "findOne u_id (userId r) (users db) = Some requestUser"
    and "isApproverAuthorized env actor (userId r)"
  shows "updateLeaveRequestStatus env db i (Status APPROVED) c actor =
     (case findApplicableWorkflow db r of
        None \<Rightarrow> finalAssignment env db r APPROVED c actor
      | Some w \<Rightarrow>
          (case findCurrentApproverLevel r approver (sort_key level (approvalLevels w)) of
             None \<Rightarrow>
               (reply 403
                  ''You do not have the required role to approve this leave request'', db)
           | Some k \<Rightarrow>
               if sort_key level (approvalLevels w) = []
               then (reply 500
                  ''An error occurred while updating the leave request status'', db)
               else if k < level (last (sort_key level (approvalLevels w)))
               then partialApproval db r requestUser (sort_key level (approvalLevels w)) k c actor
               else finalAssignment env db (fullyApproved r k c actor) APPROVED c actor))"
proof -
  from assms(2) have ne: "status r \<noteq> APPROVED" by auto
  from assms(2) have st: "status r = PENDING \<or> status r = PARTIALLY_APPROVED \<or>
      APPROVED = CANCELLED" by blast
  from assms(5) have au: "isApproverAuthorized env actor (userId r) \<or>
      (userId r = actor \<and> APPROVED = CANCELLED)" by blast
  show ?thesis
    using update_dispatch [OF assms(1) ne st assms(3,4) au, where c = c] by simp
qed

lemma approval_without_workflow:
  assumes "findOne lr_id i (leaveRequests db) = Some r"
    and "status r = PENDING \<or> status r = PARTIALLY_APPROVED"
    and "findOne u_id actor (users db) = Some approver"
    and "findOne u_id (userId r) (users db) = Some requestUser"
    and "isApproverAuthorized env actor (userId r)"
    and "findApplicableWorkflow db r = None"
  shows "updateLeaveRequestStatus env db i (Status APPROVED) c actor =
     finalAssignment env db r APPROVED c actor"
  unfolding approval_dispatch [OF assms(1-5)] assms(6) by simp

lemma approval_forbidden:
  assumes "findOne lr_id i (leaveRequests db) = Some r"
    and "status r = PENDING \<or> status r = PARTIALLY_APPROVED"
    and "findOne u_id actor (users db) = Some approver"
    and "findOne u_id (userId r) (users db) = Some requestUser"
    and "isApproverAuthorized env actor (userId r)"
    and "findApplicableWorkflow db r = Some w"
    and "matchedLevel db r approver = None"
  shows "updateLeaveRequestStatus env db i (Status APPROVED) c actor =
     (reply 403 ''You do not have the required role to approve this leave request'', db)"
proof -
  from assms(6,7) have "findCurrentApproverLevel r approver (sort_key level (approvalLevels w)) = None"
    by (simp add: matchedLevel_def)
  then show ?thesis
    unfolding approval_dispatch [OF assms(1-5)] assms(6) by simp
qed

lemma matched_and_highest:
  assumes "findApplicableWorkflow db r = Some w"
    and "matchedLevel db r approver = Some k"
  shows "findCurrentApproverLevel r approver (sort_key level (approvalLevels w)) = Some k"
    and "sort_key level (approvalLevels w) \<noteq> []"
    and "highestLevel db r = Some (level (last (sort_key level (approvalLevels w))))"
proof -
  from assms show 1: "findCurrentApproverLevel r approver (sort_key level (approvalLevels w)) = Some k"
    by (simp add: matchedLevel_def)
  then show 2: "sort_key level (approvalLevels w) \<noteq> []"
    using findCurrentApproverLevel_Nil [of r approver] by auto
  with assms(1) show "highestLevel db r = Some (level (last (sort_key level (approvalLevels w))))"
    by (simp add: highestLevel_def)
qed

lemma approval_below_highest:
  assumes "findOne lr_id i (leaveRequests db) = Some r"
    and "status r = PENDING \<or> status r = PARTIALLY_APPROVED"
    and "findOne u_id actor (users db) = Some approver"
    and "findOne u_id (userId r) (users db) = Some requestUser"
    and "isApproverAuthorized env actor (userId r)"
    and "findApplicableWorkflow db r = Some w"
    and "matchedLevel db r approver = Some k"
    and "highestLevel db r = Some h"
    and "k < h"
  shows "updateLeaveRequestStatus env db i (Status APPROVED) c actor =
     partialApproval db r requestUser (sort_key level (approvalLevels w)) k c actor"
proof -
  note m = matched_and_highest [OF assms(6,7)]
  from m(3) assms(8,9) have "k < level (last (sort_key level (approvalLevels w)))" by simp
  with m(1,2) show ?thesis
    unfolding approval_dispatch [OF assms(1-5)] assms(6) by simp
qed

lemma approval_at_highest:
  assumes "findOne lr_id i (leaveRequests db) = Some r"
    and "status r = PENDING \<or> status r = PARTIALLY_APPROVED"
    and "findOne u_id actor (users db) = Some approver"
    and "findOne u_id (userId r) (users db) = Some requestUser"
    and "isApproverAuthorized env actor (userId r)"
    and "matchedLevel db r approver = Some k"
    and "highestLevel db r = Some h"
    and "\<not> k < h"
  shows "updateLeaveRequestStatus env db i (Status APPROVED) c actor =
     finalAssignment env db (fullyApproved r k c actor) APPROVED c actor"
proof -
  from assms(6) obtain w where w: "findApplicableWorkflow db r = Some w"
    by (auto simp: matchedLevel_def split: option.splits)
  note m = matched_and_highest [OF w assms(6)]
  from m(3) assms(7,8) have "\<not> k < level (last (sort_key level (approvalLevels w)))" by simp
  with m(1,2) show ?thesis
    unfolding approval_dispatch [OF assms(1-5)] w by simp
qed

lemma firstMatchingLevel_None:
  "firstMatchingLevel approver ls = None \<longleftrightarrow> (\<forall>l\<in>set ls. \<not> approverMatchesLevel approver l)"
  by (induction ls) auto

lemma firstMatchingLevel_Some:
  assumes "firstMatchingLevel approver ls = Some k" "sorted (map level ls)"
  shows "\<exists>l\<in>set ls. level l = k \<and> approverMatchesLevel approver l \<and>
           (\<forall>l'\<in>set ls. approverMatchesLevel approver l' \<longrightarrow> k \<le> level l')"
  using assms
proof (induction ls)
  case Nil
  then show ?case by simp
next
  case (Cons a ls)
  show ?case
  proof (cases "approverMatchesLevel approver a")
    case True
    with Cons.prems have "k = level a" by simp
    with True Cons.prems(2) show ?thesis by auto
  next
    case False
    with Cons.prems have "firstMatchingLevel approver ls = Some k" "sorted (map level ls)"
      by simp_all
    from Cons.IH [OF this] False show ?thesis by auto
  qed
qed

lemma sorted_levels: "sorted (map level (sort_key level ls))"
  by (rule sorted_sort_key)

lemma set_sorted_levels: "set (sort_key level ls) = set ls"
  by simp






lemma find_distinct_key:
  "distinct (map f xs) \<Longrightarrow> x \<in> set xs \<Longrightarrow> find (\<lambda>y. f y = f x) xs = Some x"
  by (induction xs) (auto simp: image_iff)

lemma distinct_sorted_levels:
  "distinct (map level ls) \<Longrightarrow> distinct (map level (sort_key level ls))"
  by (simp add: distinct_map)

lemma computeRequiredLevels_distinct:
  assumes "distinct (map level ls)"
  shows "computeRequiredLevels ls userRole =
         map level (filter (\<lambda>l. UserRole_str userRole \<notin> set (roleIds l)) (sort_key level ls))"
proof -
  let ?s = "sort_key level ls"
  have d: "distinct (map level ?s)" using assms by (rule distinct_sorted_levels)
  have "computeRequiredLevels ls userRole =
      map level (filter (\<lambda>l. \<not> (case find (\<lambda>l'. level l' = level l) ?s of
                                    Some levelDef \<Rightarrow> UserRole_str userRole \<in> set (roleIds levelDef)
                                  | None \<Rightarrow> False)) ?s)"
    by (simp add: computeRequiredLevels_def Let_def filter_map comp_def)
  also have "\<dots> = map level (filter (\<lambda>l. UserRole_str userRole \<notin> set (roleIds l)) ?s)"
  proof -
    have "filter (\<lambda>l. \<not> (case find (\<lambda>l'. level l' = level l) ?s of
                          Some levelDef \<Rightarrow> UserRole_str userRole \<in> set (roleIds levelDef)
                        | None \<Rightarrow> False)) ?s =
          filter (\<lambda>l. UserRole_str userRole \<notin> set (roleIds l)) ?s"
    proof (rule filter_cong [OF refl])
      fix l assume "l \<in> set ?s"
      from find_distinct_key [OF d this]
      show "(\<not> (case find (\<lambda>l'. level l' = level l) ?s of
                  Some levelDef \<Rightarrow> UserRole_str userRole \<in> set (roleIds levelDef)
                | None \<Rightarrow> False)) = (UserRole_str userRole \<notin> set (roleIds l))"
        by simp
    qed
    then show ?thesis by simp
  qed
  finally show ?thesis .
qed

lemma sorted_computeRequiredLevels: "sorted (computeRequiredLevels ls userRole)"
proof -
  have "sorted (map level (sort_key level ls))" by (rule sorted_levels)
  then show ?thesis
    unfolding computeRequiredLevels_def Let_def by (rule sorted_wrt_filter)
qed

lemma requiredLevelsOf_save:
  "requiredLevelsOf (saveLeaveRequest r db) j =
     (if j = lr_id r then (case metadata r of None \<Rightarrow> None | Some m \<Rightarrow> requiredApprovalLevels m)
      else requiredLevelsOf db j)"
  by (simp add: requiredLevelsOf_def findOne_save findOne_save_other)

lemma requiredLevelsOf_cong:
  "leaveRequests db' = leaveRequests db \<Longrightarrow> requiredLevelsOf db' j = requiredLevelsOf db j"
  by (simp add: requiredLevelsOf_def)

lemma leaveRequests_finalAssignment:
  "leaveRequests (snd (finalAssignment env db r s c a)) =
     leaveRequests (saveLeaveRequest (assignStatus r s c a) db)"
  by (cases "s = APPROVED")
    (simp_all add: finalAssignment_approved finalAssignment_other split: option.splits)

lemma required_assignStatus:
  "(case metadata (assignStatus r s c a) of None \<Rightarrow> None | Some m \<Rightarrow> requiredApprovalLevels m) =
   (case metadata r of None \<Rightarrow> None | Some m \<Rightarrow> requiredApprovalLevels m)"
  by (simp add: assignStatus_def Let_def split: option.splits)

lemma required_fullyApproved:
  "(case metadata (fullyApproved r k c a) of None \<Rightarrow> None | Some m \<Rightarrow> requiredApprovalLevels m) =
   (case metadata r of None \<Rightarrow> None | Some m \<Rightarrow> requiredApprovalLevels m)"
  by (simp add: fullyApproved_def Let_def emptyMetadata_def split: option.splits)

lemma required_partiallyApproved:
  "(case metadata (partiallyApproved r u ls k c a) of
      None \<Rightarrow> None | Some m \<Rightarrow> requiredApprovalLevels m) = Some (map level ls)"
  by (simp add: partiallyApproved_def Let_def)

lemma requiredLevelsOf_finalAssignment:
  assumes "findOne lr_id i (leaveRequests db) = Some r"
    and "lr_id r' = lr_id r"
    and "(case metadata r' of None \<Rightarrow> None | Some m \<Rightarrow> requiredApprovalLevels m) =
         (case metadata r of None \<Rightarrow> None | Some m \<Rightarrow> requiredApprovalLevels m)"
  shows "requiredLevelsOf (snd (finalAssignment env db r' s c a)) j = requiredLevelsOf db j"
proof -
  have key: "lr_id r = i" using findOne_Some [OF assms(1)] by simp
  have "requiredLevelsOf (snd (finalAssignment env db r' s c a)) j =
      requiredLevelsOf (saveLeaveRequest (assignStatus r' s c a) db) j"
    by (rule requiredLevelsOf_cong) (rule leaveRequests_finalAssignment)
  also have "\<dots> = requiredLevelsOf db j"
  proof (cases "j = i")
    case True
    have "requiredLevelsOf db i =
        (case metadata r of None \<Rightarrow> None | Some m \<Rightarrow> requiredApprovalLevels m)"
      by (simp add: requiredLevelsOf_def assms(1))
    with True assms(2,3) key show ?thesis
      by (simp add: requiredLevelsOf_save required_assignStatus)
  next
    case False
    with assms(2) key show ?thesis by (simp add: requiredLevelsOf_save)
  qed
  finally show ?thesis .
qed

lemma update_reaches:
  assumes "snd (updateLeaveRequestStatus env db i payload c actor) \<noteq> db"
  shows "\<exists>s r approver requestUser. payload = Status s \<and>
           findOne lr_id i (leaveRequests db) = Some r \<and> status r \<noteq> s \<and>
           (status r = PENDING \<or> status r = PARTIALLY_APPROVED \<or> s = CANCELLED) \<and>
           findOne u_id actor (users db) = Some approver \<and>
           findOne u_id (userId r) (users db) = Some requestUser \<and>
           (isApproverAuthorized env actor (userId r) \<or> (userId r = actor \<and> s = CANCELLED))"
proof (cases payload)
  case NoStatus
  with assms show ?thesis by (simp add: updateLeaveRequestStatus_def)
next
  case InvalidStatus
  with assms show ?thesis by (simp add: updateLeaveRequestStatus_def)
next
  case (Status s)
  show ?thesis
  proof (cases "findOne lr_id i (leaveRequests db)")
    case None
    with assms Status show ?thesis by (simp add: updateLeaveRequestStatus_def)
  next
    case (Some r)
    note r = this
    show ?thesis
    proof (cases "status r = s \<or> (status r \<noteq> PENDING \<and> status r \<noteq> PARTIALLY_APPROVED \<and>
        s \<noteq> CANCELLED)")
      case True
      with assms Status r show ?thesis by (auto simp: updateLeaveRequestStatus_def)
    next
      case g: False
      show ?thesis
      proof (cases "findOne u_id actor (users db)")
        case None
        with assms Status r g show ?thesis by (auto simp: updateLeaveRequestStatus_def)
      next
        case (Some approver)
        note a = this
        show ?thesis
        proof (cases "findOne u_id (userId r) (users db)")
          case None
          with assms Status r g a show ?thesis by (auto simp: updateLeaveRequestStatus_def)
        next
          case (Some requestUser)
          note u = this
          show ?thesis
          proof (cases "\<not> isApproverAuthorized env actor (userId r) \<and>
              \<not> (userId r = actor \<and> s = CANCELLED)")
            case True
            with assms Status r g a u show ?thesis
              by (auto simp: updateLeaveRequestStatus_def Let_def)
          next
            case False
            with Status r g a u show ?thesis by auto
          qed
        qed
      qed
    qed
  qed
qed


lemma if_Inl_Inr:
  assumes "(if c then Inl x else y) = Inr v"
  obtains "\<not> c" "y = Inr v"
  using assms by (cases c) simp_all

lemma case_None_Inl_Inr:
  assumes "(case opt of None \<Rightarrow> Inl x | Some a \<Rightarrow> f a) = Inr v"
  obtains a where "opt = Some a" "f a = Inr v"
  using assms by (cases opt) simp_all

lemma case_Some_Inl_Inr:
  assumes "(case opt of None \<Rightarrow> y | Some a \<Rightarrow> Inl (g a)) = Inr v"
  obtains "opt = None" "y = Inr v"
  using assms by (cases opt) simp_all

lemma checkLeaveRequest_user:
  assumes "checkLeaveRequest env db caller payload = Inr (t, s, e, user, n)"
  shows "findOne u_id caller (users db) = Some user"
proof -
  obtain a b c where p: "c_leaveTypeId payload = a" "c_startDate payload = b"
    "c_endDate payload = c" by blast
  from assms p obtain a' b' c' where q: "a = Some a'" "b = Some b'" "c = Some c'"
    unfolding checkLeaveRequest_def
    by (cases a; cases b; cases c) (simp_all only: option.case prod.case sum.distinct)
  from assms show ?thesis
    unfolding checkLeaveRequest_def p q option.case prod.case Let_def
    by (elim if_Inl_Inr case_None_Inl_Inr case_Some_Inl_Inr) simp
qed

lemma create_result:
  "snd (createLeaveRequest env db newId caller payload) = db \<or>
   (\<exists>user w r'. findOne u_id caller (users db) = Some user \<and>
      getApprovalWorkflow db (numberOfDays r') = Some w \<and>
      snd (createLeaveRequest env db newId caller payload) = saveLeaveRequest r' db \<and>
      lr_id r' = newId \<and> status r' = PENDING \<and>
      metadata r' = Some (emptyMetadata\<lparr>requestUserRole := Some (role user),
                               currentApprovalLevel := Some 0,
                               requiredApprovalLevels :=
                                 Some (computeRequiredLevels (approvalLevels w) (role user)),
                               approvalHistory := Some [],
                               workflowId := Some (wf_id w)\<rparr>))"
proof (cases "checkLeaveRequest env db caller payload")
  case (Inl response)
  then show ?thesis by (simp add: createLeaveRequest_def)
next
  case (Inr v)
  obtain t s e user n where v: "v = (t, s, e, user, n)" by (cases v) auto
  note chk = Inr [unfolded v]
  note user = checkLeaveRequest_user [OF chk]
  show ?thesis
  proof (cases "getApprovalWorkflow db n")
    case None
    with chk show ?thesis by (simp add: createLeaveRequest_def)
  next
    case (Some w)
    let ?r = "\<lparr>lr_id = newId, userId = caller, leaveTypeId = t,
            startDate = s, endDate = e,
            requestType = (case c_requestType payload of Some t \<Rightarrow> t | None \<Rightarrow> FULL_DAY),
            numberOfDays = n, status = PENDING, approverId = None,
            metadata = Some (emptyMetadata\<lparr>requestUserRole := Some (role user),
                               currentApprovalLevel := Some 0,
                               requiredApprovalLevels :=
                                 Some (computeRequiredLevels (approvalLevels w) (role user)),
                               approvalHistory := Some [],
                               workflowId := Some (wf_id w)\<rparr>)\<rparr>"
    have "snd (createLeaveRequest env db newId caller payload) = saveLeaveRequest ?r db"
      using chk Some by (simp add: createLeaveRequest_def Let_def split: list.splits)
    with user Some show ?thesis
      by (intro disjI2 exI [of _ user] exI [of _ w] exI [of _ ?r]) simp
  qed
qed


lemma required_levels_after_update:
  "requiredLevelsOf (snd (updateLeaveRequestStatus env db i payload c actor)) j =
     requiredLevelsOf db j \<or>
   (\<exists>r approver w k h. payload = Status APPROVED \<and> j = i \<and>
      findOne lr_id i (leaveRequests db) = Some r \<and>
      findOne u_id actor (users db) = Some approver \<and>
      findApplicableWorkflow db r = Some w \<and>
      matchedLevel db r approver = Some k \<and> highestLevel db r = Some h \<and> k < h \<and>
      overlappingApproved (leaveRequests db) r = [] \<and>
      http_code (fst (updateLeaveRequestStatus env db i payload c actor)) = 200 \<and>
      requiredLevelsOf (snd (updateLeaveRequestStatus env db i payload c actor)) j =
        Some (map level (sort_key level (approvalLevels w))))"
proof (cases "snd (updateLeaveRequestStatus env db i payload c actor) = db")
  case True
  then show ?thesis by simp
next
  case False
  from update_reaches [OF this] obtain s r approver requestUser where
    p: "payload = Status s" and r: "findOne lr_id i (leaveRequests db) = Some r"
    and ne: "status r \<noteq> s"
    and st: "status r = PENDING \<or> status r = PARTIALLY_APPROVED \<or> s = CANCELLED"
    and a: "findOne u_id actor (users db) = Some approver"
    and u: "findOne u_id (userId r) (users db) = Some requestUser"
    and au: "isApproverAuthorized env actor (userId r) \<or> (userId r = actor \<and> s = CANCELLED)"
    by blast
  note d = update_dispatch [OF r ne st a u au, where c = c]
  have key: "lr_id r = i" using findOne_Some [OF r] by simp
  show ?thesis
  proof (cases "s = APPROVED")
    case ns: False
    then have "updateLeaveRequestStatus env db i payload c actor =
        finalAssignment env db r s c actor"
      unfolding p d by simp
    then show ?thesis
      using requiredLevelsOf_finalAssignment [OF r refl refl, of env s c actor j] by simp
  next
    case ap: True
    show ?thesis
    proof (cases "findApplicableWorkflow db r")
      case None
      with ap have "updateLeaveRequestStatus env db i payload c actor =
          finalAssignment env db r s c actor"
        unfolding p d by simp
      then show ?thesis
        using requiredLevelsOf_finalAssignment [OF r refl refl, of env s c actor j] by simp
    next
      case (Some w)
      note w = this
      let ?ls = "sort_key level (approvalLevels w)"
      show ?thesis
      proof (cases "findCurrentApproverLevel r approver ?ls")
        case None
        with ap w have "snd (updateLeaveRequestStatus env db i payload c actor) = db"
          unfolding p d by simp
        with False show ?thesis by simp
      next
        case (Some k)
        note k = this
        from k have nonempty: "?ls \<noteq> []"
          using findCurrentApproverLevel_Nil [of r approver] by auto
        from w k have mk: "matchedLevel db r approver = Some k"
          by (simp add: matchedLevel_def)
        from w nonempty have hk: "highestLevel db r = Some (level (last ?ls))"
          by (simp add: highestLevel_def)
        show ?thesis
        proof (cases "k < level (last ?ls)")
          case lower: True
          with ap w k nonempty
          have res: "updateLeaveRequestStatus env db i payload c actor =
              partialApproval db r requestUser ?ls k c actor"
            unfolding p d by simp
          show ?thesis
          proof (cases "overlappingApproved (leaveRequests db) r = []")
            case ov: False
            then have "snd (updateLeaveRequestStatus env db i payload c actor) = db"
              unfolding res by (simp add: partialApproval_result)
            with False show ?thesis by simp
          next
            case no: True
            then have res': "snd (updateLeaveRequestStatus env db i payload c actor) =
                saveLeaveRequest (partiallyApproved r requestUser ?ls k c actor) db"
              unfolding res by (simp add: partialApproval_result)
            from no have code: "http_code (fst (updateLeaveRequestStatus env db i payload c actor)) = 200"
              unfolding res by (simp add: partialApproval_result reply_def)
            show ?thesis
            proof (cases "j = i")
              case True
              with key have "requiredLevelsOf
                  (snd (updateLeaveRequestStatus env db i payload c actor)) j =
                  Some (map level ?ls)"
                unfolding res' by (simp add: requiredLevelsOf_save required_partiallyApproved)
              with True p ap r a w mk hk lower no code show ?thesis by blast
            next
              case False
              with key show ?thesis
                unfolding res' by (simp add: requiredLevelsOf_save)
            qed
          qed
        next
          case top: False
          with ap w k nonempty
          have "updateLeaveRequestStatus env db i payload c actor =
              finalAssignment env db (fullyApproved r k c actor) s c actor"
            unfolding p d by simp
          then show ?thesis
            using requiredLevelsOf_finalAssignment [OF r _ required_fullyApproved,
                of k c actor env s c actor j]
            by simp
        qed
      qed
    qed
  qed
qed

lemma required_levels_overwritten:
  assumes "findOne lr_id i (leaveRequests db) = Some r"
    and "status r = PENDING \<or> status r = PARTIALLY_APPROVED"
    and "findOne u_id actor (users db) = Some approver"
    and "findOne u_id (userId r) (users db) = Some requestUser"
    and "isApproverAuthorized env actor (userId r)"
    and "findApplicableWorkflow db r = Some w"
    and "matchedLevel db r approver = Some k"
    and "highestLevel db r = Some h"
    and "k < h"
    and "overlappingApproved (leaveRequests db) r = []"
  shows "http_code (fst (updateLeaveRequestStatus env db i (Status APPROVED) c actor)) = 200 \<and>
         requiredLevelsOf (snd (updateLeaveRequestStatus env db i (Status APPROVED) c actor)) i =
           Some (map level (sort_key level (approvalLevels w)))"
proof -
  have key: "lr_id r = i" using findOne_Some [OF assms(1)] by simp
  note u = approval_below_highest [OF assms(1-9), of c]
  show ?thesis
    unfolding u using key assms(10)
    by (simp add: partialApproval_result reply_def requiredLevelsOf_save
        required_partiallyApproved)
qed

section \<open>C1: an overlap found by a final approval\<close>

text \<open>
  Claim C1 says that an approval at the highest level that finds another approved request
  of the same user on a common day fails with the conflict and leaves the status of the
  request and \<open>used\<close> as they were. The final assignment saves the request with its new
  status before it looks for overlaps, where the branch of the partial approval looks
  first and saves after. Here alice has an approved request for the 12th to the 14th of
  January and a pending one for the 14th; tina approves the pending one at level 1, the
  highest level of its workflow: the answer is 409 with the request in the way, no balance
  is written, and the pending request is stored as approved.
\<close>

theorem final_approval_overlap_leaves_request_approved:
  "(let r0 = aliceRequest ''r0'' 12 14 APPROVED None;
        r1 = aliceRequest ''r1'' 14 14 PENDING (Some (createdMetadata ''w1'' [1]));
        db = exampleDb [r0, r1] [aliceBalance 2026 3];
        env = exampleEnv 20454 2026;
        result = updateLeaveRequestStatus env db ''r1'' (Status APPROVED) None ''tina''
    in status r1 = PENDING \<and>
       matchedLevel db r1 tina = Some 1 \<and> highestLevel db r1 = Some 1 \<and>
       overlappingApproved (leaveRequests db) r1 = [r0] \<and>
       http_code (fst result) = 409 \<and> overlappingRequests (fst result) = [''r0''] \<and>
       map_option status (findOne lr_id ''r1'' (leaveRequests (snd result))) = Some APPROVED \<and>
       leaveBalances (snd result) = leaveBalances db)"
proof -
  define r0 where "r0 = aliceRequest ''r0'' 12 14 APPROVED None"
  define r1 where "r1 = aliceRequest ''r1'' 14 14 PENDING (Some (createdMetadata ''w1'' [1]))"
  define db where "db = exampleDb [r0, r1] [aliceBalance 2026 3]"
  define env where "env = exampleEnv 20454 2026"
  have f: "findOne lr_id ''r1'' (leaveRequests db) = Some r1"
    by (simp add: db_def r0_def r1_def exampleDb_def findOne_def aliceRequest_def)
  have st: "status r1 = PENDING" by (simp add: r1_def aliceRequest_def)
  have u1: "findOne u_id ''tina'' (users db) = Some tina"
    by (simp add: db_def exampleDb_def findOne_def alice_def bob_def tina_def)
  have u2: "findOne u_id (userId r1) (users db) = Some alice"
    by (simp add: db_def exampleDb_def findOne_def alice_def r1_def aliceRequest_def)
  have au: "isApproverAuthorized env ''tina'' (userId r1)"
    by (simp add: env_def exampleEnv_def r1_def aliceRequest_def)
  have w: "findApplicableWorkflow db r1 = Some shortLeave"
    by (simp add: findApplicableWorkflow_def activeWorkflows_def db_def exampleDb_def r1_def
        aliceRequest_def shortLeave_def longLeave_def)
  have sorted: "sort_key level (approvalLevels shortLeave) = [exampleLevel 1 [''role-team-lead'']]"
    by (simp add: shortLeave_def)
  have k': "findCurrentApproverLevel r1 tina [exampleLevel 1 [''role-team-lead'']] = Some 1"
    by (simp add: findCurrentApproverLevel_def r1_def aliceRequest_def
        approverMatchesLevel_def exampleLevel_def tina_def)
  have k: "matchedLevel db r1 tina = Some 1"
    unfolding matchedLevel_def w option.case sorted by (rule k')
  have h: "highestLevel db r1 = Some 1"
    unfolding highestLevel_def w option.case sorted by (simp add: exampleLevel_def)
  have ov: "overlappingApproved (leaveRequests db) r1 = [r0]"
    by (simp add: overlappingApproved_def db_def exampleDb_def r0_def r1_def aliceRequest_def)
  have res: "updateLeaveRequestStatus env db ''r1'' (Status APPROVED) None ''tina'' =
      finalAssignment env db (fullyApproved r1 1 None ''tina'') APPROVED None ''tina''"
    by (rule approval_at_highest [OF f _ u1 u2 au k h]) (simp_all add: st)
  have ov': "overlappingApproved (leaveRequests db) (fullyApproved r1 1 None ''tina'') = [r0]"
    using overlappingApproved_cong [of "fullyApproved r1 1 None ''tina''" r1 "leaveRequests db"] ov
    by simp
  have res': "updateLeaveRequestStatus env db ''r1'' (Status APPROVED) None ''tina'' =
      (conflict [r0],
       saveLeaveRequest (assignStatus (fullyApproved r1 1 None ''tina'') APPROVED None ''tina'') db)"
    unfolding res by (simp add: finalAssignment_approved ov')
  have key: "lr_id (assignStatus (fullyApproved r1 1 None ''tina'') APPROVED None ''tina'') = ''r1''"
    by (simp add: r1_def aliceRequest_def)
  have stored: "findOne lr_id ''r1''
      (save lr_id (assignStatus (fullyApproved r1 1 None ''tina'') APPROVED None ''tina'')
         (leaveRequests db)) =
      Some (assignStatus (fullyApproved r1 1 None ''tina'') APPROVED None ''tina'')"
    using findOne_save [of lr_id
        "assignStatus (fullyApproved r1 1 None ''tina'') APPROVED None ''tina''" "leaveRequests db"]
    unfolding key .
  have code: "http_code (conflict [r0]) = 409" "overlappingRequests (conflict [r0]) = [''r0'']"
    by (simp_all add: conflict_def r0_def aliceRequest_def)
  from st k h ov show ?thesis
    unfolding r0_def [symmetric] r1_def [symmetric] db_def [symmetric] env_def [symmetric]
      Let_def res'
    by (simp add: code stored)
qed


section \<open>C2: the required approval levels of a request\<close>

text \<open>
  Claim C2 says that \<open>metadata.requiredApprovalLevels\<close> of a request is at every moment
  the list computed at its creation, the level numbers of the workflow in ascending order
  without the levels that list the role of the requester, and that no approval changes
  it. An approval below the highest level of the workflow writes the level numbers of all
  levels of the workflow into it. Here tina, a team lead, asks for the days from Monday the
  12th to Friday the 30th of January 2026, fifteen business days; the first level of the
  workflow for eleven to thirty days lists her role, and her request is created with the
  levels 2 and 3; bob approves at level 2 of 3, and the request is stored with the levels
  1, 2 and 3.
\<close>

lemma tina_created:
  "createLeaveRequest approverEnv (extendedDb []) ''r7'' ''tina'' (examplePayload 12 30) =
     (reply 201 ''Leave request created successfully'',
      extendedDb [tinaRequest [2, 3]])"
proof -
  let ?db = "extendedDb []"
  have lt: "findOne lt_id ''annual'' (leaveTypes ?db) = Some annual"
    by (simp add: extendedDb_def findOne_def annual_def)
  have us: "findOne u_id ''tina'' (users ?db) = Some tina"
    by (simp add: extendedDb_def findOne_def alice_def bob_def tina_def)
  have rows: "leaveRequests ?db = []" by (simp add: extendedDb_def)
  have bal: "findLeaveBalance ?db ''tina'' ''annual'' (getCurrentYear approverEnv) =
      Some (tinaBalance 0)"
    by (simp add: findLeaveBalance_def extendedDb_def approverEnv_def exampleEnv_def
        tinaBalance_def)
  have envf: "today approverEnv = Date 20454 2026"
    "checkForHolidaysInRange approverEnv = (\<lambda>a b. False)"
    "findApproversByRoleIds approverEnv = (\<lambda>ids dep. [''bob''])"
    "calculateBusinessDays approverEnv (Date 20465 2026) (Date 20483 2026) = 15"
    by (simp_all add: approverEnv_def exampleEnv_def isWeekend_def)
  have facts: "lt_isActive annual" "applicableGender annual = None"
    "balance (tinaBalance 0) + carryForward (tinaBalance 0) - used (tinaBalance 0) = 20"
    by (simp_all add: annual_def tinaBalance_def)
  have chk: "checkLeaveRequest approverEnv ?db ''tina'' (examplePayload 12 30) =
      Inr (''annual'', Date 20465 2026, Date 20483 2026, tina, 15)"
    unfolding checkLeaveRequest_def
    by (simp add: examplePayload_def truthy_def envf lt us facts rows bal Let_def)
  have wfl: "getApprovalWorkflow ?db 15 = Some extendedLeave"
    by (simp add: getApprovalWorkflow_def extendedDb_def shortLeave_def longLeave_def
        extendedLeave_def)
  have req: "computeRequiredLevels (approvalLevels extendedLeave) TEAM_LEAD = [2, 3]"
    by (simp add: computeRequiredLevels_def extendedLeave_def exampleLevel_def)
  have f2: "role tina = TEAM_LEAD" "wf_id extendedLeave = ''w3''" "department tina = Some ''Engineering''"
    by (simp_all add: tina_def extendedLeave_def)
  have saved: "saveLeaveRequest (tinaRequest [2, 3]) ?db = extendedDb [tinaRequest [2, 3]]"
    by (simp add: saveLeaveRequest_def save_def extendedDb_def)
  have notify: "approversToNotify approverEnv (extendedDb [tinaRequest [2, 3]])
      (tinaRequest [2, 3]) tina 2 = [''bob'']"
    by (simp add: approversToNotify_def envf tinaRequest_def createdMetadata_def emptyMetadata_def
        extendedDb_def findOne_def shortLeave_def longLeave_def extendedLeave_def exampleLevel_def)
  have built: "\<lparr>lr_id = ''r7'', userId = ''tina'', leaveTypeId = ''annual'',
      startDate = Date 20465 2026, endDate = Date 20483 2026,
      requestType = (case c_requestType (examplePayload 12 30) of Some t \<Rightarrow> t | None \<Rightarrow> FULL_DAY),
      numberOfDays = 15, status = PENDING, approverId = None,
      metadata = Some (emptyMetadata\<lparr>requestUserRole := Some TEAM_LEAD,
         currentApprovalLevel := Some 0, requiredApprovalLevels := Some [2, 3],
         approvalHistory := Some [], workflowId := Some ''w3''\<rparr>)\<rparr> = tinaRequest [2, 3]"
    by (simp add: tinaRequest_def createdMetadata_def examplePayload_def emptyMetadata_def)
  show ?thesis
    unfolding createLeaveRequest_def chk sum.case prod.case wfl option.case Let_def f2 req built
      saved list.case notify
    by simp
qed

lemma tina_request:
  "findOne lr_id ''r7'' (leaveRequests (extendedDb [tinaRequest [2, 3]])) = Some (tinaRequest [2, 3])"
  "status (tinaRequest [2, 3]) = PENDING \<or> status (tinaRequest [2, 3]) = PARTIALLY_APPROVED"
  "findOne u_id ''bob'' (users (extendedDb [tinaRequest [2, 3]])) = Some bob"
  "findOne u_id (userId (tinaRequest [2, 3])) (users (extendedDb [tinaRequest [2, 3]])) = Some tina"
  "isApproverAuthorized approverEnv ''bob'' (userId (tinaRequest [2, 3]))"
  "findApplicableWorkflow (extendedDb [tinaRequest [2, 3]]) (tinaRequest [2, 3]) = Some extendedLeave"
  "matchedLevel (extendedDb [tinaRequest [2, 3]]) (tinaRequest [2, 3]) bob = Some 2"
  "highestLevel (extendedDb [tinaRequest [2, 3]]) (tinaRequest [2, 3]) = Some 3"
  "overlappingApproved (leaveRequests (extendedDb [tinaRequest [2, 3]])) (tinaRequest [2, 3]) = []"
proof -
  let ?r = "tinaRequest [2, 3]"
  let ?db = "extendedDb [?r]"
  show f: "findOne lr_id ''r7'' (leaveRequests ?db) = Some ?r"
    by (simp add: extendedDb_def findOne_def tinaRequest_def)
  have rf: "status ?r = PENDING" "userId ?r = ''tina''" "numberOfDays ?r = 15"
    by (simp_all add: tinaRequest_def)
  show "status ?r = PENDING \<or> status ?r = PARTIALLY_APPROVED" by (simp add: rf)
  show "findOne u_id ''bob'' (users ?db) = Some bob"
    by (simp add: extendedDb_def findOne_def alice_def bob_def)
  show "findOne u_id (userId ?r) (users ?db) = Some tina"
    by (simp add: extendedDb_def findOne_def alice_def bob_def tina_def rf)
  show "isApproverAuthorized approverEnv ''bob'' (userId ?r)"
    by (simp add: approverEnv_def exampleEnv_def rf)
  show w: "findApplicableWorkflow ?db ?r = Some extendedLeave"
    by (simp add: findApplicableWorkflow_def activeWorkflows_def rf extendedDb_def
        shortLeave_def longLeave_def extendedLeave_def)
  have sorted: "sort_key level (approvalLevels extendedLeave) =
      [exampleLevel 1 [''team_lead''], exampleLevel 2 [''role-manager''],
       exampleLevel 3 [''role-hr'']]"
    by (simp add: extendedLeave_def exampleLevel_def)
  show "matchedLevel ?db ?r bob = Some 2"
    unfolding matchedLevel_def w option.case sorted
    by (simp add: findCurrentApproverLevel_def rf approverMatchesLevel_def exampleLevel_def
        bob_def)
  show "highestLevel ?db ?r = Some 3"
    unfolding highestLevel_def w option.case sorted by (simp add: exampleLevel_def)
  show "overlappingApproved (leaveRequests ?db) ?r = []"
    by (simp add: overlappingApproved_def extendedDb_def tinaRequest_def)
qed

lemma all_levels_of_extendedLeave:
  "map level (sort_key level (approvalLevels extendedLeave)) = [1, 2, 3]"
  by (simp add: extendedLeave_def exampleLevel_def)

theorem required_levels_counterexample:
  "http_code (fst (createLeaveRequest approverEnv (extendedDb []) ''r7'' ''tina''
     (examplePayload 12 30))) = 201 \<and>
   requiredLevelsOf (snd (createLeaveRequest approverEnv (extendedDb []) ''r7'' ''tina''
     (examplePayload 12 30))) ''r7'' = Some [2, 3] \<and>
   http_code (fst (updateLeaveRequestStatus approverEnv
     (snd (createLeaveRequest approverEnv (extendedDb []) ''r7'' ''tina'' (examplePayload 12 30)))
     ''r7'' (Status APPROVED) None ''bob'')) = 200 \<and>
   requiredLevelsOf (snd (updateLeaveRequestStatus approverEnv
     (snd (createLeaveRequest approverEnv (extendedDb []) ''r7'' ''tina'' (examplePayload 12 30)))
     ''r7'' (Status APPROVED) None ''bob'')) ''r7'' = Some [1, 2, 3]"
proof -
  have a: "requiredLevelsOf (extendedDb [tinaRequest [2, 3]]) ''r7'' = Some [2, 3]"
    by (simp add: requiredLevelsOf_def extendedDb_def findOne_def tinaRequest_def
        createdMetadata_def)
  have lower: "(2::int) < 3" by simp
  note b = required_levels_overwritten [OF tina_request(1-8) lower tina_request(9), of None,
      unfolded all_levels_of_extendedLeave]
  from a b show ?thesis
    unfolding tina_created snd_conv fst_conv
    by (simp add: reply_def)
qed

text \<open>
  Claim C2, amended. \<open>createLeaveRequest\<close> either leaves the database as it was or
  stores the new request with \<open>requiredApprovalLevels\<close> computed from the workflow for
  its number of days and the role of the requester; the computed list is in ascending
  order, and for a workflow whose level numbers are distinct it is the list of the level
  numbers, in ascending order, of the levels whose role ids do not contain the role of the
  requester. A call of \<open>updateLeaveRequestStatus\<close> leaves the required levels of every
  stored request as they were, unless it is an approval below the highest level of the
  applicable workflow that meets no overlap and is answered with 200. Every such approval
  (of a pending or partially approved request, by an authorised actor matched with a level
  below the highest level of the workflow, with no approved request of the user in the
  way) is answered with 200 and replaces the required levels of the request by the
  numbers of all levels of that workflow, in ascending order.
\<close>

theorem required_levels_at_creation_and_after:
  "(snd (createLeaveRequest env db newId caller payload) = db \<or>
    (\<exists>user w r'. findOne u_id caller (users db) = Some user \<and>
       findOne lr_id newId (leaveRequests (snd (createLeaveRequest env db newId caller payload)))
         = Some r' \<and>
       getApprovalWorkflow db (numberOfDays r') = Some w \<and>
       requiredLevelsOf (snd (createLeaveRequest env db newId caller payload)) newId =
         Some (computeRequiredLevels (approvalLevels w) (role user)))) \<and>
   sorted (computeRequiredLevels ls userRole) \<and>
   (distinct (map level ls) \<longrightarrow>
      computeRequiredLevels ls userRole =
        map level (filter (\<lambda>l. UserRole_str userRole \<notin> set (roleIds l)) (sort_key level ls))) \<and>
   (requiredLevelsOf (snd (updateLeaveRequestStatus env db i st c actor)) j =
      requiredLevelsOf db j \<or>
    (\<exists>r approver w k h. st = Status APPROVED \<and> j = i \<and>
       findOne lr_id i (leaveRequests db) = Some r \<and>
       findOne u_id actor (users db) = Some approver \<and>
       findApplicableWorkflow db r = Some w \<and>
       matchedLevel db r approver = Some k \<and> highestLevel db r = Some h \<and> k < h \<and>
       overlappingApproved (leaveRequests db) r = [] \<and>
       http_code (fst (updateLeaveRequestStatus env db i st c actor)) = 200 \<and>
       requiredLevelsOf (snd (updateLeaveRequestStatus env db i st c actor)) j =
         Some (map level (sort_key level (approvalLevels w))))) \<and>
   (findOne lr_id i (leaveRequests db) = Some r0 \<longrightarrow>
    status r0 = PENDING \<or> status r0 = PARTIALLY_APPROVED \<longrightarrow>
    findOne u_id actor (users db) = Some approver0 \<longrightarrow>
    findOne u_id (userId r0) (users db) = Some requestUser0 \<longrightarrow>
    isApproverAuthorized env actor (userId r0) \<longrightarrow>
    findApplicableWorkflow db r0 = Some w0 \<longrightarrow>
    matchedLevel db r0 approver0 = Some k0 \<longrightarrow> highestLevel db r0 = Some h0 \<longrightarrow> k0 < h0 \<longrightarrow>
    overlappingApproved (leaveRequests db) r0 = [] \<longrightarrow>
    http_code (fst (updateLeaveRequestStatus env db i (Status APPROVED) c actor)) = 200 \<and>
    requiredLevelsOf (snd (updateLeaveRequestStatus env db i (Status APPROVED) c actor)) i =
      Some (map level (sort_key level (approvalLevels w0))))"
proof (intro conjI)
  show "snd (createLeaveRequest env db newId caller payload) = db \<or>
    (\<exists>user w r'. findOne u_id caller (users db) = Some user \<and>
       findOne lr_id newId (leaveRequests (snd (createLeaveRequest env db newId caller payload)))
         = Some r' \<and>
       getApprovalWorkflow db (numberOfDays r') = Some w \<and>
       requiredLevelsOf (snd (createLeaveRequest env db newId caller payload)) newId =
         Some (computeRequiredLevels (approvalLevels w) (role user)))"
    using create_result [of env db newId caller payload]
  proof
    assume "snd (createLeaveRequest env db newId caller payload) = db"
    then show ?thesis by simp
  next
    assume "\<exists>user w r'. findOne u_id caller (users db) = Some user \<and>
      getApprovalWorkflow db (numberOfDays r') = Some w \<and>
      snd (createLeaveRequest env db newId caller payload) = saveLeaveRequest r' db \<and>
      lr_id r' = newId \<and> status r' = PENDING \<and>
      metadata r' = Some (emptyMetadata\<lparr>requestUserRole := Some (role user),
                               currentApprovalLevel := Some 0,
                               requiredApprovalLevels :=
                                 Some (computeRequiredLevels (approvalLevels w) (role user)),
                               approvalHistory := Some [],
                               workflowId := Some (wf_id w)\<rparr>)"
    then obtain user w r' where user: "findOne u_id caller (users db) = Some user"
      and w: "getApprovalWorkflow db (numberOfDays r') = Some w"
      and res: "snd (createLeaveRequest env db newId caller payload) = saveLeaveRequest r' db"
      and key: "lr_id r' = newId"
      and meta: "metadata r' = Some (emptyMetadata\<lparr>requestUserRole := Some (role user),
                               currentApprovalLevel := Some 0,
                               requiredApprovalLevels :=
                                 Some (computeRequiredLevels (approvalLevels w) (role user)),
                               approvalHistory := Some [],
                               workflowId := Some (wf_id w)\<rparr>)"
      by blast
    have stored: "findOne lr_id newId
        (leaveRequests (snd (createLeaveRequest env db newId caller payload))) = Some r'"
      unfolding res using findOne_save [of lr_id r' "leaveRequests db"] key by simp
    have "requiredLevelsOf (snd (createLeaveRequest env db newId caller payload)) newId =
        Some (computeRequiredLevels (approvalLevels w) (role user))"
      unfolding res using key meta by (simp add: requiredLevelsOf_save)
    with user w stored show ?thesis by blast
  qed
next
  show "sorted (computeRequiredLevels ls userRole)" by (rule sorted_computeRequiredLevels)
next
  show "distinct (map level ls) \<longrightarrow>
      computeRequiredLevels ls userRole =
      map level (filter (\<lambda>l. UserRole_str userRole \<notin> set (roleIds l)) (sort_key level ls))"
    using computeRequiredLevels_distinct [of ls userRole] by blast
next
  show "requiredLevelsOf (snd (updateLeaveRequestStatus env db i st c actor)) j =
      requiredLevelsOf db j \<or>
    (\<exists>r approver w k h. st = Status APPROVED \<and> j = i \<and>
       findOne lr_id i (leaveRequests db) = Some r \<and>
       findOne u_id actor (users db) = Some approver \<and>
       findApplicableWorkflow db r = Some w \<and>
       matchedLevel db r approver = Some k \<and> highestLevel db r = Some h \<and> k < h \<and>
       overlappingApproved (leaveRequests db) r = [] \<and>
       http_code (fst (updateLeaveRequestStatus env db i st c actor)) = 200 \<and>
       requiredLevelsOf (snd (updateLeaveRequestStatus env db i st c actor)) j =
         Some (map level (sort_key level (approvalLevels w))))"
    by (rule required_levels_after_update)
next
  show "findOne lr_id i (leaveRequests db) = Some r0 \<longrightarrow>
    status r0 = PENDING \<or> status r0 = PARTIALLY_APPROVED \<longrightarrow>
    findOne u_id actor (users db) = Some approver0 \<longrightarrow>
    findOne u_id (userId r0) (users db) = Some requestUser0 \<longrightarrow>
    isApproverAuthorized env actor (userId r0) \<longrightarrow>
    findApplicableWorkflow db r0 = Some w0 \<longrightarrow>
    matchedLevel db r0 approver0 = Some k0 \<longrightarrow> highestLevel db r0 = Some h0 \<longrightarrow> k0 < h0 \<longrightarrow>
    overlappingApproved (leaveRequests db) r0 = [] \<longrightarrow>
    http_code (fst (updateLeaveRequestStatus env db i (Status APPROVED) c actor)) = 200 \<and>
    requiredLevelsOf (snd (updateLeaveRequestStatus env db i (Status APPROVED) c actor)) i =
      Some (map level (sort_key level (approvalLevels w0)))"
    using required_levels_overwritten [of i db r0 actor approver0 requestUser0 env w0 k0 h0 c]
    by blast
qed


theorem required_levels_at_creation_and_after_witness:
  "distinct (map level (approvalLevels extendedLeave)) \<and>
   computeRequiredLevels (approvalLevels extendedLeave) TEAM_LEAD = [2, 3] \<and>
   requiredLevelsOf (snd (createLeaveRequest approverEnv (extendedDb []) ''r7'' ''tina''
     (examplePayload 12 30))) ''r7'' = Some [2, 3] \<and>
   requiredLevelsOf (snd (updateLeaveRequestStatus approverEnv (extendedDb [tinaRequest [2, 3]])
     ''r7'' (Status REJECTED) None ''bob'')) ''r7'' = Some [2, 3] \<and>
   matchedLevel (extendedDb [tinaRequest [2, 3]]) (tinaRequest [2, 3]) bob = Some 2 \<and>
   highestLevel (extendedDb [tinaRequest [2, 3]]) (tinaRequest [2, 3]) = Some 3 \<and>
   overlappingApproved (leaveRequests (extendedDb [tinaRequest [2, 3]])) (tinaRequest [2, 3]) = [] \<and>
   http_code (fst (updateLeaveRequestStatus approverEnv (extendedDb [tinaRequest [2, 3]])
     ''r7'' (Status APPROVED) None ''bob'')) = 200 \<and>
   requiredLevelsOf (snd (updateLeaveRequestStatus approverEnv (extendedDb [tinaRequest [2, 3]])
     ''r7'' (Status APPROVED) None ''bob'')) ''r7'' = Some [1, 2, 3]"
proof -
  note t = required_levels_at_creation_and_after [where env = approverEnv
      and db = "extendedDb [tinaRequest [2, 3]]" and ls = "approvalLevels extendedLeave"
      and userRole = TEAM_LEAD and i = "''r7''" and st = "Status REJECTED" and c = None
      and actor = "''bob''" and j = "''r7''" and ?r0.0 = "tinaRequest [2, 3]"
      and ?approver0.0 = bob and ?requestUser0.0 = tina and ?w0.0 = extendedLeave
      and ?k0.0 = 2 and ?h0.0 = 3]
  have d: "distinct (map level (approvalLevels extendedLeave))"
    by (simp add: extendedLeave_def exampleLevel_def)
  from t d have "computeRequiredLevels (approvalLevels extendedLeave) TEAM_LEAD =
      map level (filter (\<lambda>l. UserRole_str TEAM_LEAD \<notin> set (roleIds l))
        (sort_key level (approvalLevels extendedLeave)))"
    by blast
  then have a: "computeRequiredLevels (approvalLevels extendedLeave) TEAM_LEAD = [2, 3]"
    by (simp add: extendedLeave_def exampleLevel_def)
  have b: "requiredLevelsOf (extendedDb [tinaRequest [2, 3]]) ''r7'' = Some [2, 3]"
    by (simp add: requiredLevelsOf_def extendedDb_def findOne_def tinaRequest_def
        createdMetadata_def)
  from t have "requiredLevelsOf (snd (updateLeaveRequestStatus approverEnv
      (extendedDb [tinaRequest [2, 3]]) ''r7'' (Status REJECTED) None ''bob'')) ''r7'' =
      requiredLevelsOf (extendedDb [tinaRequest [2, 3]]) ''r7''"
    by auto
  with b have c: "requiredLevelsOf (snd (updateLeaveRequestStatus approverEnv
      (extendedDb [tinaRequest [2, 3]]) ''r7'' (Status REJECTED) None ''bob'')) ''r7'' = Some [2, 3]"
    by simp
  have lower: "(2::int) < 3" by simp
  from t tina_request lower
  have "http_code (fst (updateLeaveRequestStatus approverEnv (extendedDb [tinaRequest [2, 3]])
      ''r7'' (Status APPROVED) None ''bob'')) = 200 \<and>
    requiredLevelsOf (snd (updateLeaveRequestStatus approverEnv (extendedDb [tinaRequest [2, 3]])
      ''r7'' (Status APPROVED) None ''bob'')) ''r7'' =
      Some (map level (sort_key level (approvalLevels extendedLeave)))"
    by blast
  then have e: "http_code (fst (updateLeaveRequestStatus approverEnv
      (extendedDb [tinaRequest [2, 3]]) ''r7'' (Status APPROVED) None ''bob'')) = 200"
    "requiredLevelsOf (snd (updateLeaveRequestStatus approverEnv (extendedDb [tinaRequest [2, 3]])
      ''r7'' (Status APPROVED) None ''bob'')) ''r7'' = Some [1, 2, 3]"
    by (simp_all add: all_levels_of_extendedLeave)
  from d a b c e tina_request(7,8,9) show ?thesis
    unfolding tina_created snd_conv by simp
qed


section \<open>C3: the outcome of an approval\<close>





text \<open>
  The requests the statement above leaves out are those whose highest required level is
  below the highest level of the workflow: the controller compares the level of the
  approver with the last level of the workflow, also when that level was left out of the
  required levels at the creation of the request. Here the request of bob, a manager,
  requires the level 1 alone; tina approves at level 1, and the request is stored as
  partially approved, with the levels 1 and 2 required.
\<close>

lemma approval_of_request_without_top_level:
  "computeRequiredLevels (approvalLevels managedLeave) MANAGER = [1] \<and>
   highestRequired bobRequest = Some 1 \<and>
   matchedLevel (managedDb [bobRequest]) bobRequest tina = Some 1 \<and>
   highestLevel (managedDb [bobRequest]) bobRequest = Some 2 \<and>
   overlappingApproved (leaveRequests (managedDb [bobRequest])) bobRequest = [] \<and>
   http_code (fst (updateLeaveRequestStatus (exampleEnv 20454 2026) (managedDb [bobRequest])
     ''r5'' (Status APPROVED) None ''tina'')) = 200 \<and>
   map_option status (findOne lr_id ''r5'' (leaveRequests (snd (updateLeaveRequestStatus
     (exampleEnv 20454 2026) (managedDb [bobRequest]) ''r5'' (Status APPROVED) None ''tina''))))
     = Some PARTIALLY_APPROVED \<and>
   requiredLevelsOf (snd (updateLeaveRequestStatus (exampleEnv 20454 2026)
     (managedDb [bobRequest]) ''r5'' (Status APPROVED) None ''tina'')) ''r5'' = Some [1, 2]"
proof -
  let ?db = "managedDb [bobRequest]"
  let ?env = "exampleEnv 20454 2026"
  have req: "computeRequiredLevels (approvalLevels managedLeave) MANAGER = [1]"
    by (simp add: computeRequiredLevels_def managedLeave_def exampleLevel_def)
  have hr: "highestRequired bobRequest = Some 1"
    by (simp add: highestRequired_def bobRequest_def createdMetadata_def)
  have f: "findOne lr_id ''r5'' (leaveRequests ?db) = Some bobRequest"
    by (simp add: managedDb_def findOne_def bobRequest_def)
  have rf: "status bobRequest = PENDING" "userId bobRequest = ''bob''" "numberOfDays bobRequest = 3"
    "lr_id bobRequest = ''r5''"
    by (simp_all add: bobRequest_def)
  have st: "status bobRequest = PENDING \<or> status bobRequest = PARTIALLY_APPROVED"
    by (simp add: rf)
  have u1: "findOne u_id ''tina'' (users ?db) = Some tina"
    by (simp add: managedDb_def findOne_def alice_def bob_def tina_def)
  have u2: "findOne u_id (userId bobRequest) (users ?db) = Some bob"
    by (simp add: managedDb_def findOne_def alice_def bob_def rf)
  have au: "isApproverAuthorized ?env ''tina'' (userId bobRequest)"
    by (simp add: exampleEnv_def rf)
  have w: "findApplicableWorkflow ?db bobRequest = Some managedLeave"
    by (simp add: findApplicableWorkflow_def activeWorkflows_def rf managedDb_def
        shortLeave_def managedLeave_def)
  have sorted: "sort_key level (approvalLevels managedLeave) =
      [exampleLevel 1 [''role-team-lead''], exampleLevel 2 [''manager'', ''role-hr'']]"
    by (simp add: managedLeave_def exampleLevel_def)
  have k: "matchedLevel ?db bobRequest tina = Some 1"
    unfolding matchedLevel_def w option.case sorted
    by (simp add: findCurrentApproverLevel_def rf approverMatchesLevel_def exampleLevel_def
        tina_def)
  have h: "highestLevel ?db bobRequest = Some 2"
    unfolding highestLevel_def w option.case sorted by (simp add: exampleLevel_def)
  have no: "overlappingApproved (leaveRequests ?db) bobRequest = []"
    by (simp add: overlappingApproved_def managedDb_def bobRequest_def)
  have lower: "(1::int) < 2" by simp
  note u = approval_below_highest [OF f st u1 u2 au w k h lower, of None]
  let ?r2 = "partiallyApproved bobRequest bob (sort_key level (approvalLevels managedLeave)) 1
      None ''tina''"
  have res: "updateLeaveRequestStatus ?env ?db ''r5'' (Status APPROVED) None ''tina'' =
      (reply 200 ''Leave request approved, pending higher level approval'',
       saveLeaveRequest ?r2 ?db)"
    unfolding u by (simp add: partialApproval_result no)
  have stored: "findOne lr_id ''r5'' (save lr_id ?r2 (leaveRequests ?db)) = Some ?r2"
    using findOne_save [of lr_id ?r2 "leaveRequests ?db"] by (simp add: rf)
  have levels: "map level (sort_key level (approvalLevels managedLeave)) = [1, 2]"
    unfolding sorted by (simp add: exampleLevel_def)
  have new: "requiredLevelsOf (saveLeaveRequest ?r2 ?db) ''r5'' = Some [1, 2]"
    by (simp add: requiredLevelsOf_save rf required_partiallyApproved levels)
  from req hr k h no new show ?thesis
    unfolding res fst_conv snd_conv leaveRequests_saveLeaveRequest stored
    by (simp add: reply_def)
qed


section \<open>C4: a new request with no approver for its first level\<close>

text \<open>
  Claim C4 says that \<open>createLeaveRequest\<close> fails with the error of the missing approver
  when the approver service finds no approver for the first required level, and that no
  request is stored. The controller saves the request and looks for the approvers to
  notify afterwards. Here alice asks for the 12th of January; the workflow for one day
  has the level 1 of the team leads, and the approver service finds nobody: the answer is
  400 with the message of the missing approvers, and the table that was empty holds the
  new pending request.
\<close>

theorem no_approver_reply_after_save:
  "(let db = exampleDb [] [aliceBalance 2026 0];
        env = exampleEnv 20454 2026;
        result = createLeaveRequest env db ''r9'' ''alice'' (examplePayload 12 12)
    in findApproversByRoleIds env [''role-team-lead''] (Some ''Engineering'') = [] \<and>
       http_code (fst result) = 400 \<and>
       message (fst result) =
         ''No approvers found for your leave request. Please contact your administrator to set up the approval workflow.'' \<and>
       leaveRequests db = [] \<and>
       leaveRequests (snd result) =
         [aliceRequest ''r9'' 12 12 PENDING (Some (createdMetadata ''w1'' [1]))])"
proof -
  define db where "db = exampleDb [] [aliceBalance 2026 0]"
  define env where "env = exampleEnv 20454 2026"
  have lt: "findOne lt_id ''annual'' (leaveTypes db) = Some annual"
    by (simp add: db_def exampleDb_def findOne_def annual_def)
  have us: "findOne u_id ''alice'' (users db) = Some alice"
    by (simp add: db_def exampleDb_def findOne_def alice_def)
  have rows: "leaveRequests db = []" by (simp add: db_def exampleDb_def)
  have bal: "findLeaveBalance db ''alice'' ''annual'' (getCurrentYear env) = Some (aliceBalance 2026 0)"
    by (simp add: findLeaveBalance_def db_def exampleDb_def env_def exampleEnv_def aliceBalance_def)
  have days: "calculateBusinessDays env (Date 20465 2026) (Date 20465 2026) = 1"
    by (simp add: env_def exampleEnv_def isWeekend_def)
  have wfl: "getApprovalWorkflow db 1 = Some shortLeave"
    by (simp add: getApprovalWorkflow_def db_def exampleDb_def shortLeave_def)
  have req: "computeRequiredLevels (approvalLevels shortLeave) EMPLOYEE = [1]"
    by (simp add: computeRequiredLevels_def shortLeave_def exampleLevel_def)
  have envf: "today env = Date 20454 2026" "checkForHolidaysInRange env = (\<lambda>a b. False)"
    "findApproversByRoleIds env = (\<lambda>ids dep. [])"
    by (simp_all add: env_def exampleEnv_def)
  have facts: "lt_isActive annual" "applicableGender annual = None" "role alice = EMPLOYEE"
    "wf_id shortLeave = ''w1''"
    "balance (aliceBalance 2026 0) + carryForward (aliceBalance 2026 0) -
       used (aliceBalance 2026 0) = 20"
    by (simp_all add: annual_def alice_def shortLeave_def aliceBalance_def)
  have notify: "approversToNotify env (saveLeaveRequest r db) r alice 1 = []" for r
    by (simp add: approversToNotify_def envf split: option.splits)
  have chk: "checkLeaveRequest env db ''alice'' (examplePayload 12 12) =
      Inr (''annual'', Date 20465 2026, Date 20465 2026, alice, 1)"
    unfolding checkLeaveRequest_def
    by (simp add: examplePayload_def truthy_def envf lt us facts rows bal days Let_def)
  have f2: "role alice = EMPLOYEE" "wf_id shortLeave = ''w1''"
    by (simp_all add: alice_def shortLeave_def)
  have built: "\<lparr>lr_id = ''r9'', userId = ''alice'', leaveTypeId = ''annual'',
      startDate = Date 20465 2026, endDate = Date 20465 2026,
      requestType = (case c_requestType (examplePayload 12 12) of Some t \<Rightarrow> t | None \<Rightarrow> FULL_DAY),
      numberOfDays = 1, status = PENDING, approverId = None,
      metadata = Some (emptyMetadata\<lparr>requestUserRole := Some EMPLOYEE,
         currentApprovalLevel := Some 0, requiredApprovalLevels := Some [1],
         approvalHistory := Some [], workflowId := Some ''w1''\<rparr>)\<rparr> =
      aliceRequest ''r9'' 12 12 PENDING (Some (createdMetadata ''w1'' [1]))"
    by (simp add: aliceRequest_def createdMetadata_def examplePayload_def)
  have res: "createLeaveRequest env db ''r9'' ''alice'' (examplePayload 12 12) =
      (reply 400
         ''No approvers found for your leave request. Please contact your administrator to set up the approval workflow.'',
       saveLeaveRequest (aliceRequest ''r9'' 12 12 PENDING (Some (createdMetadata ''w1'' [1]))) db)"
    unfolding createLeaveRequest_def chk sum.case prod.case wfl option.case Let_def f2 req built
      list.case notify
    by simp
  show ?thesis
    unfolding db_def [symmetric] env_def [symmetric] Let_def res
    by (simp add: reply_def rows save_def envf)
qed


section \<open>C5: the level of the approver\<close>

text \<open>
  Claim C5 says that every approval of a partially approved request checks the role of
  the actor against the level after \<open>currentApprovalLevel\<close> alone, that every approval of
  a pending request gives the actor the first level, in ascending order, that has a role
  of the actor, and that with no level matched the approval fails with 403 and changes
  nothing. The levels are looked at only when an active workflow is found for the
  request. Here alice has a pending request for twelve days and no active workflow covers
  twelve days: tina is matched with no level, and her approval is answered with 200 and
  stores the request as approved.
\<close>

theorem approver_level_counterexample:
  "findApplicableWorkflow
     (exampleDb [aliceRequest ''r1'' 12 23 PENDING None] [aliceBalance 2026 0])
     (aliceRequest ''r1'' 12 23 PENDING None) = None \<and>
   matchedLevel
     (exampleDb [aliceRequest ''r1'' 12 23 PENDING None] [aliceBalance 2026 0])
     (aliceRequest ''r1'' 12 23 PENDING None) tina = None \<and>
   http_code (fst (updateLeaveRequestStatus (exampleEnv 20454 2026)
     (exampleDb [aliceRequest ''r1'' 12 23 PENDING None] [aliceBalance 2026 0])
     ''r1'' (Status APPROVED) None ''tina'')) = 200 \<and>
   map_option status (findOne lr_id ''r1'' (leaveRequests (snd (updateLeaveRequestStatus
     (exampleEnv 20454 2026)
     (exampleDb [aliceRequest ''r1'' 12 23 PENDING None] [aliceBalance 2026 0])
     ''r1'' (Status APPROVED) None ''tina'')))) = Some APPROVED"
proof -
  define r where "r = aliceRequest ''r1'' 12 23 PENDING None"
  define db where "db = exampleDb [r] [aliceBalance 2026 0]"
  define env where "env = exampleEnv 20454 2026"
  have f: "findOne lr_id ''r1'' (leaveRequests db) = Some r"
    by (simp add: db_def r_def exampleDb_def findOne_def aliceRequest_def)
  have st: "status r = PENDING \<or> status r = PARTIALLY_APPROVED"
    by (simp add: r_def aliceRequest_def)
  have u1: "findOne u_id ''tina'' (users db) = Some tina"
    by (simp add: db_def exampleDb_def findOne_def alice_def bob_def tina_def)
  have u2: "findOne u_id (userId r) (users db) = Some alice"
    by (simp add: db_def exampleDb_def findOne_def alice_def r_def aliceRequest_def)
  have au: "isApproverAuthorized env ''tina'' (userId r)"
    by (simp add: env_def exampleEnv_def r_def aliceRequest_def)
  have w: "findApplicableWorkflow db r = None"
    by (simp add: findApplicableWorkflow_def activeWorkflows_def db_def exampleDb_def r_def
        aliceRequest_def shortLeave_def longLeave_def)
  have k: "matchedLevel db r tina = None" by (simp add: matchedLevel_def w)
  have no: "overlappingApproved (leaveRequests db) r = []"
    by (simp add: overlappingApproved_def db_def exampleDb_def)
  have res: "updateLeaveRequestStatus env db ''r1'' (Status APPROVED) None ''tina'' =
      finalAssignment env db r APPROVED None ''tina''"
    by (rule approval_without_workflow [OF f st u1 u2 au w])
  have code: "http_code (fst (finalAssignment env db r APPROVED None ''tina'')) = 200"
    by (simp add: finalAssignment_approved no reply_def split: option.splits)
  have key: "lr_id (assignStatus r APPROVED None ''tina'') = ''r1''"
    by (simp add: r_def aliceRequest_def)
  have rows: "leaveRequests (snd (finalAssignment env db r APPROVED None ''tina'')) =
      save lr_id (assignStatus r APPROVED None ''tina'') (leaveRequests db)"
    by (simp add: leaveRequests_finalAssignment)
  have stored: "findOne lr_id ''r1''
      (save lr_id (assignStatus r APPROVED None ''tina'') (leaveRequests db)) =
      Some (assignStatus r APPROVED None ''tina'')"
    using findOne_save [of lr_id "assignStatus r APPROVED None ''tina''" "leaveRequests db"]
    unfolding key .
  from w k code show ?thesis
    unfolding r_def [symmetric] db_def [symmetric] env_def [symmetric] res rows stored
    by simp
qed

text \<open>
  Claim C5, amended. Let an approval reach the choice of the workflow: the request is
  pending or partially approved, the actor and the requester exist, the actor is
  authorised. When no active workflow applies to the request, no level is matched and
  the approval goes to the final assignment all the same: the answer is 200, or 409 when
  an approved request of the user is in the way. When a workflow applies: for a
  partially approved request (with metadata) the approver is matched with the level after
  \<open>currentApprovalLevel\<close> when the definition of that level has a role of the approver,
  and with no level otherwise, whatever the other levels say; for a pending request the
  approver is matched with the lowest level of the workflow that has a role of the
  approver, and with no level when there is none; with no level matched the answer is 403
  and the database is what it was.
\<close>

theorem approver_level_determination:
  assumes "findOne lr_id i (leaveRequests db) = Some r"
    and "status r = PENDING \<or> status r = PARTIALLY_APPROVED"
    and "findOne u_id actor (users db) = Some approver"
    and "findOne u_id (userId r) (users db) = Some requestUser"
    and "isApproverAuthorized env actor (userId r)"
  shows "(findApplicableWorkflow db r = None \<longrightarrow>
          matchedLevel db r approver = None \<and>
          http_code (fst (updateLeaveRequestStatus env db i (Status APPROVED) c0 actor)) =
            (if overlappingApproved (leaveRequests db) r = [] then 200 else 409)) \<and>
         (\<forall>w. findApplicableWorkflow db r = Some w \<longrightarrow>
          (status r = PARTIALLY_APPROVED \<longrightarrow>
           (\<forall>m. metadata r = Some m \<longrightarrow>
              matchedLevel db r approver =
                (case currentApprovalLevel m of
                   None \<Rightarrow> None
                 | Some c \<Rightarrow>
                     (case find (\<lambda>l. level l = c + 1) (sort_key level (approvalLevels w)) of
                        None \<Rightarrow> None
                      | Some d \<Rightarrow> if approverMatchesLevel approver d then Some (c + 1) else None)))) \<and>
          (status r = PENDING \<longrightarrow>
           (case matchedLevel db r approver of
              None \<Rightarrow> \<forall>l\<in>set (approvalLevels w). \<not> approverMatchesLevel approver l
            | Some k \<Rightarrow>
                \<exists>l\<in>set (approvalLevels w). level l = k \<and> approverMatchesLevel approver l \<and>
                  (\<forall>l'\<in>set (approvalLevels w). approverMatchesLevel approver l' \<longrightarrow> k \<le> level l'))) \<and>
          (matchedLevel db r approver = None \<longrightarrow>
           http_code (fst (updateLeaveRequestStatus env db i (Status APPROVED) c0 actor)) = 403 \<and>
           snd (updateLeaveRequestStatus env db i (Status APPROVED) c0 actor) = db))"
proof (intro conjI impI allI)
  assume "findApplicableWorkflow db r = None"
  then show "matchedLevel db r approver = None" by (simp add: matchedLevel_def)
next
  assume none: "findApplicableWorkflow db r = None"
  show "http_code (fst (updateLeaveRequestStatus env db i (Status APPROVED) c0 actor)) =
      (if overlappingApproved (leaveRequests db) r = [] then 200 else 409)"
    unfolding approval_without_workflow [OF assms none]
    by (simp add: finalAssignment_approved reply_def conflict_def split: option.splits)
next
  fix w m
  assume "findApplicableWorkflow db r = Some w" "status r = PARTIALLY_APPROVED"
    "metadata r = Some m"
  then show "matchedLevel db r approver =
      (case currentApprovalLevel m of
         None \<Rightarrow> None
       | Some c \<Rightarrow>
           (case find (\<lambda>l. level l = c + 1) (sort_key level (approvalLevels w)) of
              None \<Rightarrow> None
            | Some d \<Rightarrow> if approverMatchesLevel approver d then Some (c + 1) else None))"
    by (simp add: matchedLevel_def findCurrentApproverLevel_def Let_def split: option.splits)
next
  fix w
  assume w: "findApplicableWorkflow db r = Some w" and st: "status r = PENDING"
  then have m: "matchedLevel db r approver =
      firstMatchingLevel approver (sort_key level (approvalLevels w))"
    by (simp add: matchedLevel_def findCurrentApproverLevel_def)
  show "case matchedLevel db r approver of
      None \<Rightarrow> \<forall>l\<in>set (approvalLevels w). \<not> approverMatchesLevel approver l
    | Some k \<Rightarrow>
        \<exists>l\<in>set (approvalLevels w). level l = k \<and> approverMatchesLevel approver l \<and>
          (\<forall>l'\<in>set (approvalLevels w). approverMatchesLevel approver l' \<longrightarrow> k \<le> level l')"
  proof (cases "matchedLevel db r approver")
    case None
    with m have "\<forall>l\<in>set (sort_key level (approvalLevels w)). \<not> approverMatchesLevel approver l"
      by (simp only: firstMatchingLevel_None [symmetric])
    with None show ?thesis by simp
  next
    case (Some k)
    with m have "firstMatchingLevel approver (sort_key level (approvalLevels w)) = Some k"
      by simp
    from firstMatchingLevel_Some [OF this sorted_levels] Some show ?thesis by simp
  qed
next
  fix w
  assume w: "findApplicableWorkflow db r = Some w" and "matchedLevel db r approver = None"
  from approval_forbidden [OF assms this]
  show "http_code (fst (updateLeaveRequestStatus env db i (Status APPROVED) c0 actor)) = 403"
    by (simp add: reply_def)
next
  fix w
  assume w: "findApplicableWorkflow db r = Some w" and "matchedLevel db r approver = None"
  from approval_forbidden [OF assms this]
  show "snd (updateLeaveRequestStatus env db i (Status APPROVED) c0 actor) = db"
    by simp
qed

theorem approver_level_determination_witness:
  "(let r = aliceRequest ''r1'' 12 14 PARTIALLY_APPROVED
              (Some ((createdMetadata ''w2'' [1, 2])\<lparr>currentApprovalLevel := Some 1\<rparr>));
        db = exampleDb [r] [aliceBalance 2026 0];
        r' = aliceRequest ''r1'' 12 14 PENDING (Some (createdMetadata ''w2'' [1, 2]));
        db' = exampleDb [r'] [aliceBalance 2026 0];
        env = exampleEnv 20454 2026
    in findApplicableWorkflow db r = Some longLeave \<and>
       approverMatchesLevel tina (exampleLevel 1 [''role-team-lead'']) \<and>
       matchedLevel db r tina = None \<and>
       http_code (fst (updateLeaveRequestStatus env db ''r1'' (Status APPROVED) None ''tina'')) = 403 \<and>
       snd (updateLeaveRequestStatus env db ''r1'' (Status APPROVED) None ''tina'') = db \<and>
       matchedLevel db r bob = Some 2 \<and>
       matchedLevel db' r' tina = Some 1 \<and> matchedLevel db' r' bob = Some 2)"
proof -
  define r where "r = aliceRequest ''r1'' 12 14 PARTIALLY_APPROVED
              (Some ((createdMetadata ''w2'' [1, 2])\<lparr>currentApprovalLevel := Some 1\<rparr>))"
  define db where "db = exampleDb [r] [aliceBalance 2026 0]"
  define r' where "r' = aliceRequest ''r1'' 12 14 PENDING (Some (createdMetadata ''w2'' [1, 2]))"
  define db' where "db' = exampleDb [r'] [aliceBalance 2026 0]"
  define env where "env = exampleEnv 20454 2026"
  have f: "findOne lr_id ''r1'' (leaveRequests db) = Some r"
    by (simp add: db_def r_def exampleDb_def findOne_def aliceRequest_def)
  have f': "findOne lr_id ''r1'' (leaveRequests db') = Some r'"
    by (simp add: db'_def r'_def exampleDb_def findOne_def aliceRequest_def)
  have st: "status r = PARTIALLY_APPROVED" and st': "status r' = PENDING"
    by (simp_all add: r_def r'_def aliceRequest_def)
  have md: "metadata r = Some ((createdMetadata ''w2'' [1, 2])\<lparr>currentApprovalLevel := Some 1\<rparr>)"
    by (simp add: r_def aliceRequest_def)
  have us: "findOne u_id ''tina'' (users db) = Some tina" "findOne u_id ''bob'' (users db) = Some bob"
    "findOne u_id (userId r) (users db) = Some alice"
    "findOne u_id ''tina'' (users db') = Some tina" "findOne u_id ''bob'' (users db') = Some bob"
    "findOne u_id (userId r') (users db') = Some alice"
    by (simp_all add: db_def db'_def exampleDb_def findOne_def alice_def bob_def tina_def r_def
        r'_def aliceRequest_def)
  have au: "isApproverAuthorized env ''tina'' (userId r)" "isApproverAuthorized env ''bob'' (userId r)"
    "isApproverAuthorized env ''tina'' (userId r')" "isApproverAuthorized env ''bob'' (userId r')"
    by (simp_all add: env_def exampleEnv_def r_def r'_def aliceRequest_def)
  have sd: "sort_default [1, 2] = [1, 2]"
    by (simp add: sort_default_def toString_def)
  have w: "findApplicableWorkflow db r = Some longLeave"
    by (simp add: findApplicableWorkflow_def activeWorkflows_def db_def exampleDb_def r_def
        aliceRequest_def createdMetadata_def emptyMetadata_def shortLeave_def longLeave_def
        exampleLevel_def sd sort_default_def toString_def)
  have w': "findApplicableWorkflow db' r' = Some longLeave"
    by (simp add: findApplicableWorkflow_def activeWorkflows_def db'_def exampleDb_def r'_def
        aliceRequest_def shortLeave_def longLeave_def)
  have sorted: "sort_key level (approvalLevels longLeave) =
      [exampleLevel 1 [''role-team-lead''], exampleLevel 2 [''role-manager'']]"
    by (simp add: longLeave_def exampleLevel_def)
  have mt: "approverMatchesLevel tina (exampleLevel 1 [''role-team-lead''])"
    "\<not> approverMatchesLevel tina (exampleLevel 2 [''role-manager''])"
    "\<not> approverMatchesLevel bob (exampleLevel 1 [''role-team-lead''])"
    "approverMatchesLevel bob (exampleLevel 2 [''role-manager''])"
    by (simp_all add: approverMatchesLevel_def exampleLevel_def tina_def bob_def)
  have lv: "level (exampleLevel 1 [''role-team-lead'']) = 1"
    "level (exampleLevel 2 [''role-manager'']) = 2"
    by (simp_all add: exampleLevel_def)
  have cur: "currentApprovalLevel ((createdMetadata ''w2'' [1, 2])\<lparr>currentApprovalLevel := Some 1\<rparr>)
      = Some 1"
    by simp
  have sp: "status r = PENDING \<or> status r = PARTIALLY_APPROVED" using st by simp
  note t = approver_level_determination [OF f sp us(1) us(3) au(1), where ?c0.0 = None]
  note tb = approver_level_determination [OF f sp us(2) us(3) au(2), where ?c0.0 = None]
  from t w st md have a: "matchedLevel db r tina = None"
    by (simp add: cur sorted lv mt)
  from tb w st md have b: "matchedLevel db r bob = Some 2"
    by (simp add: cur sorted lv mt)
  from t w st a
  have c: "http_code (fst (updateLeaveRequestStatus env db ''r1'' (Status APPROVED) None ''tina'')) = 403"
    and d: "snd (updateLeaveRequestStatus env db ''r1'' (Status APPROVED) None ''tina'') = db"
    by simp_all
  have e: "matchedLevel db' r' tina = Some 1" "matchedLevel db' r' bob = Some 2"
    unfolding matchedLevel_def w' option.case sorted
    by (simp_all add: findCurrentApproverLevel_def st' mt lv)
  from w mt(1) a b c d e show ?thesis
    unfolding r_def [symmetric] db_def [symmetric] r'_def [symmetric] db'_def [symmetric]
      env_def [symmetric] Let_def
    by simp
qed


section \<open>C6: the cancellation of an approved request and the floor of \<open>used\<close>\<close>

text \<open>
  Claim C6 says that \<open>used\<close> grows only by a final approval and falls only by the
  cancellation of an approved request or by a deletion, and that every fall stops at 0.
  The two deletions set \<open>used\<close> to 0 when the subtraction went below; the cancellation
  subtracts and saves. Here a request of alice for three days of January 2026 is approved
  in December 2025, which adds three days to her row of 2025, and she cancels it on the
  second of January 2026, before it starts: the cancellation takes three days from her row
  of 2026, where nothing was used, and stores \<open>used = -3\<close>.
\<close>

theorem cancellation_makes_used_negative:
  "(let r = aliceRequest ''r1'' 12 14 PENDING (Some (createdMetadata ''w2'' [1, 2]));
        db0 = exampleDb [r] [aliceBalance 2025 0, aliceBalance 2026 0];
        db1 = snd (updateLeaveRequestStatus (exampleEnv 20437 2025) db0 ''r1'' (Status APPROVED)
                     None ''bob'');
        result = cancelLeaveRequest (exampleEnv 20455 2026) db1 ''r1'' ''alice''
    in leaveBalances db1 = [aliceBalance 2025 3, aliceBalance 2026 0] \<and>
       map_option status (findOne lr_id ''r1'' (leaveRequests db1)) = Some APPROVED \<and>
       http_code (fst result) = 200 \<and>
       leaveBalances (snd result) = [aliceBalance 2025 3, aliceBalance 2026 (- 3)] \<and>
       used (aliceBalance 2026 (- 3)) < 0)"
proof -
  define r where "r = aliceRequest ''r1'' 12 14 PENDING (Some (createdMetadata ''w2'' [1, 2]))"
  define db0 where "db0 = exampleDb [r] [aliceBalance 2025 0, aliceBalance 2026 0]"
  define e1 where "e1 = exampleEnv 20437 2025"
  define e2 where "e2 = exampleEnv 20455 2026"
  define r2 where "r2 = assignStatus (fullyApproved r 2 None ''bob'') APPROVED None ''bob''"
  define db1 where "db1 = snd (updateLeaveRequestStatus e1 db0 ''r1'' (Status APPROVED) None ''bob'')"
  have f: "findOne lr_id ''r1'' (leaveRequests db0) = Some r"
    by (simp add: db0_def r_def exampleDb_def findOne_def aliceRequest_def)
  have rf: "lr_id r = ''r1''" "userId r = ''alice''" "leaveTypeId r = ''annual''"
    "numberOfDays r = 3" "status r = PENDING" "startDate r = Date 20465 2026"
    by (simp_all add: r_def aliceRequest_def)
  have u1: "findOne u_id ''bob'' (users db0) = Some bob"
    by (simp add: db0_def exampleDb_def findOne_def alice_def bob_def)
  have u2: "findOne u_id (userId r) (users db0) = Some alice"
    by (simp add: db0_def exampleDb_def findOne_def alice_def rf)
  have au: "isApproverAuthorized e1 ''bob'' (userId r)"
    by (simp add: e1_def exampleEnv_def rf)
  have w: "findApplicableWorkflow db0 r = Some longLeave"
    by (simp add: findApplicableWorkflow_def activeWorkflows_def db0_def exampleDb_def r_def
        aliceRequest_def shortLeave_def longLeave_def)
  have sorted: "sort_key level (approvalLevels longLeave) =
      [exampleLevel 1 [''role-team-lead''], exampleLevel 2 [''role-manager'']]"
    by (simp add: longLeave_def exampleLevel_def)
  have k: "matchedLevel db0 r bob = Some 2"
    unfolding matchedLevel_def w option.case sorted
    by (simp add: findCurrentApproverLevel_def r_def aliceRequest_def
        approverMatchesLevel_def exampleLevel_def bob_def)
  have h: "highestLevel db0 r = Some 2"
    unfolding highestLevel_def w option.case sorted by (simp add: exampleLevel_def)
  have no: "overlappingApproved (leaveRequests db0) (fullyApproved r 2 None ''bob'') = []"
    by (simp add: overlappingApproved_def db0_def exampleDb_def rf)
  have bal1: "findLeaveBalance db0 ''alice'' ''annual'' (getCurrentYear e1) =
      Some (aliceBalance 2025 0)"
    by (simp add: findLeaveBalance_def db0_def exampleDb_def aliceBalance_def e1_def
        exampleEnv_def)
  have lbs0: "leaveBalances db0 = [aliceBalance 2025 0, aliceBalance 2026 0]"
    by (simp add: db0_def exampleDb_def)
  have step1: "updateLeaveRequestStatus e1 db0 ''r1'' (Status APPROVED) None ''bob'' =
      (reply 200 ''Leave request updated successfully'',
       saveLeaveBalance ((aliceBalance 2025 0)\<lparr>used := used (aliceBalance 2025 0) + 3\<rparr>)
         (saveLeaveRequest r2 db0))"
    unfolding approval_at_highest [OF f _ u1 u2 au k h, simplified rf, simplified]
      finalAssignment_approved no r2_def
    by (simp add: rf bal1)
  have db1: "db1 = saveLeaveBalance ((aliceBalance 2025 0)\<lparr>used := used (aliceBalance 2025 0) + 3\<rparr>)
         (saveLeaveRequest r2 db0)"
    unfolding db1_def step1 by simp
  have lbs1: "leaveBalances db1 = [aliceBalance 2025 3, aliceBalance 2026 0]"
    unfolding db1 by (simp add: lbs0 save_def aliceBalance_def)
  have r2f: "lr_id r2 = ''r1''" "userId r2 = ''alice''" "leaveTypeId r2 = ''annual''"
    "numberOfDays r2 = 3" "status r2 = APPROVED" "startDate r2 = Date 20465 2026"
    by (simp_all add: r2_def rf)
  have f1: "findOne lr_id ''r1'' (leaveRequests db1) = Some r2"
    unfolding db1 using findOne_save [of lr_id r2 "leaveRequests db0"] by (simp add: r2f)
  have future: "getTime (today e2) \<le> getTime (startDate r2)"
    by (simp add: e2_def exampleEnv_def r2f)
  have bal2: "findLeaveBalance db1 ''alice'' ''annual'' (getCurrentYear e2) =
      Some (aliceBalance 2026 0)"
    by (simp add: findLeaveBalance_def lbs1 aliceBalance_def e2_def exampleEnv_def)
  have step2: "cancelLeaveRequest e2 db1 ''r1'' ''alice'' =
      (reply 200 ''Leave request cancelled successfully'',
       saveLeaveRequest (r2\<lparr>status := CANCELLED\<rparr>)
         (saveLeaveBalance ((aliceBalance 2026 0)\<lparr>used := used (aliceBalance 2026 0) - 3\<rparr>) db1))"
    using cancelLeaveRequest_approved [OF f1 r2f(5) future, of "aliceBalance 2026 0"] bal2
    by (simp add: r2f)
  have lbs2: "leaveBalances (snd (cancelLeaveRequest e2 db1 ''r1'' ''alice'')) =
      [aliceBalance 2025 3, aliceBalance 2026 (- 3)]"
    unfolding step2 by (simp add: lbs1 save_def aliceBalance_def)
  have neg: "used (aliceBalance 2026 (- 3)) < 0" by (simp add: aliceBalance_def)
  have code: "http_code (fst (cancelLeaveRequest e2 db1 ''r1'' ''alice'')) = 200"
    unfolding step2 by (simp add: reply_def)
  from lbs1 f1 code lbs2 neg show ?thesis
    unfolding r_def [symmetric] db0_def [symmetric] e1_def [symmetric] e2_def [symmetric]
      Let_def db1_def [symmetric]
    by (simp add: r2f)
qed


section \<open>C7: the ranges of the workflows never intersect\<close>

text \<open>
  Claim C7. In every state of the catalog reached through \<open>createApprovalWorkflow\<close> and
  \<open>updateApprovalWorkflow\<close>, no two distinct workflows, and so no two active ones, have
  ranges from \<open>minDays\<close> to \<open>maxDays\<close> that intersect. A creation whose range intersects
  the range of a stored workflow fails (with the error of the overlap, or with the error
  of the name when the name is taken too). An update that changes the range fails when
  the new range intersects the range of another workflow, and the workflow itself is left
  out of the check: when no other workflow is in the way, the update is stored.
\<close>

theorem workflow_ranges_never_intersect:
  assumes "reachable table"
  shows "(\<forall>w1\<in>set table. \<forall>w2\<in>set table. w1 \<noteq> w2 \<longrightarrow>
            {minDays w1..maxDays w1} \<inter> {minDays w2..maxDays w2} = {}) \<and>
         (\<forall>newId d.
            (\<exists>w\<in>set table. {minDays w..maxDays w} \<inter> {d_minDays d..d_maxDays d} \<noteq> {}) \<longrightarrow>
            createApprovalWorkflow newId d table \<in> {Inl NameExists, Inl Overlaps}) \<and>
         (\<forall>w\<in>set table. \<forall>u lo hi.
            lo = (case p_minDays u of Some m \<Rightarrow> m | None \<Rightarrow> minDays w) \<longrightarrow>
            hi = (case p_maxDays u of Some m \<Rightarrow> m | None \<Rightarrow> maxDays w) \<longrightarrow>
            (lo \<noteq> minDays w \<or> hi \<noteq> maxDays w) \<longrightarrow>
            ((\<exists>w'\<in>set table. wf_id w' \<noteq> wf_id w \<and>
                 {minDays w'..maxDays w'} \<inter> {lo..hi} \<noteq> {}) \<longrightarrow>
               updateApprovalWorkflow (wf_id w) u table \<in> {Inl NameInUse, Inl WouldOverlap}) \<and>
            (p_name u = None \<longrightarrow>
             (\<forall>w'\<in>set table. wf_id w' \<noteq> wf_id w \<longrightarrow> \<not> (minDays w' \<le> hi \<and> lo \<le> maxDays w')) \<longrightarrow>
               updateApprovalWorkflow (wf_id w) u table = Inr (save wf_id (merge w u) table)))"
proof (intro conjI ballI allI impI)
  fix w1 w2 :: ApprovalWorkflow assume w: "w1 \<in> set table" "w2 \<in> set table" "w1 \<noteq> w2"
  from assms have inv: "catalog_inv table" by (rule reachable_inv)
  then have "inj_on wf_id (set table)" by (simp add: catalog_inv_def distinct_map)
  with w have "wf_id w1 \<noteq> wf_id w2" by (auto simp: inj_on_def)
  with inv w have "\<not> covers w1 w2" by (simp add: catalog_inv_def)
  then show "{minDays w1..maxDays w1} \<inter> {minDays w2..maxDays w2} = {}"
    using covers_of_meet by blast
next
  fix newId :: uuid and d :: WorkflowData
  assume "\<exists>w\<in>set table. {minDays w..maxDays w} \<inter> {d_minDays d..d_maxDays d} \<noteq> {}"
  then obtain w where w: "w \<in> set table" and
    m: "{minDays w..maxDays w} \<inter> {d_minDays d..d_maxDays d} \<noteq> {}"
    by blast
  from meet_bounds [OF m] have "minDays w \<le> d_maxDays d \<and> maxDays w \<ge> d_minDays d" by simp
  with w have "filter (\<lambda>w. minDays w \<le> d_maxDays d \<and> maxDays w \<ge> d_minDays d) table \<noteq> []"
    by (auto simp: filter_empty_conv)
  then show "createApprovalWorkflow newId d table \<in> {Inl NameExists, Inl Overlaps}"
    by (simp add: createApprovalWorkflow_def split: option.splits)
next
  fix w :: ApprovalWorkflow and u :: WorkflowUpdate and lo hi :: rat
  assume w: "w \<in> set table"
    and lo: "lo = (case p_minDays u of Some m \<Rightarrow> m | None \<Rightarrow> minDays w)"
    and hi: "hi = (case p_maxDays u of Some m \<Rightarrow> m | None \<Rightarrow> maxDays w)"
    and ch: "lo \<noteq> minDays w \<or> hi \<noteq> maxDays w"
    and ex: "\<exists>w'\<in>set table. wf_id w' \<noteq> wf_id w \<and> {minDays w'..maxDays w'} \<inter> {lo..hi} \<noteq> {}"
  from assms have inv: "catalog_inv table" by (rule reachable_inv)
  have f: "findOne wf_id (wf_id w) table = Some w" using inv w by (rule findOne_distinct)
  from ch lo hi have changed:
    "(p_minDays u \<noteq> None \<and> p_minDays u \<noteq> Some (minDays w)) \<or>
     (p_maxDays u \<noteq> None \<and> p_maxDays u \<noteq> Some (maxDays w))"
    by (auto split: option.splits)
  from ex obtain w' where w': "w' \<in> set table" "wf_id w' \<noteq> wf_id w" and
    m: "{minDays w'..maxDays w'} \<inter> {lo..hi} \<noteq> {}"
    by blast
  from meet_bounds [OF m] have "minDays w' \<le> hi \<and> maxDays w' \<ge> lo" by simp
  with w' have "filter (\<lambda>x. wf_id x \<noteq> wf_id w \<and> minDays x \<le> hi \<and> maxDays x \<ge> lo) table \<noteq> []"
    by (auto simp: filter_empty_conv)
  with f changed show "updateApprovalWorkflow (wf_id w) u table \<in> {Inl NameInUse, Inl WouldOverlap}"
    unfolding lo hi by (simp add: updateApprovalWorkflow_def Let_def)
next
  fix w :: ApprovalWorkflow and u :: WorkflowUpdate and lo hi :: rat
  assume w: "w \<in> set table"
    and lo: "lo = (case p_minDays u of Some m \<Rightarrow> m | None \<Rightarrow> minDays w)"
    and hi: "hi = (case p_maxDays u of Some m \<Rightarrow> m | None \<Rightarrow> maxDays w)"
    and nm: "p_name u = None"
    and free: "\<forall>w'\<in>set table. wf_id w' \<noteq> wf_id w \<longrightarrow> \<not> (minDays w' \<le> hi \<and> lo \<le> maxDays w')"
  from assms have inv: "catalog_inv table" by (rule reachable_inv)
  have f: "findOne wf_id (wf_id w) table = Some w" using inv w by (rule findOne_distinct)
  from free have "filter (\<lambda>x. wf_id x \<noteq> wf_id w \<and> minDays x \<le> hi \<and> maxDays x \<ge> lo) table = []"
    by (auto simp: filter_empty_conv)
  with f nm show "updateApprovalWorkflow (wf_id w) u table = Inr (save wf_id (merge w u) table)"
    unfolding lo hi by (simp add: updateApprovalWorkflow_def Let_def)
qed

lemma reachable_example: "reachable [shortLeave, longLeave]"
proof -
  have 1: "createApprovalWorkflow ''w1''
             \<lparr>d_name = ''Short leave'', d_minDays = 1 / 2, d_maxDays = 2,
              d_approvalLevels = [exampleLevel 1 [''role-team-lead'']], d_isActive = True\<rparr> []
           = Inr [shortLeave]"
    by (simp add: createApprovalWorkflow_def save_def shortLeave_def)
  have 2: "createApprovalWorkflow ''w2''
             \<lparr>d_name = ''Long leave'', d_minDays = 3, d_maxDays = 10,
              d_approvalLevels = [exampleLevel 1 [''role-team-lead''],
                 exampleLevel 2 [''role-manager'']], d_isActive = True\<rparr> [shortLeave]
           = Inr [shortLeave, longLeave]"
    by (simp add: createApprovalWorkflow_def save_def shortLeave_def longLeave_def)
  have "reachable [shortLeave]"
    by (rule reachable.create [OF reachable.empty _ 1]) simp
  then show ?thesis
    by (rule reachable.create [OF _ _ 2]) (simp add: shortLeave_def)
qed

theorem workflow_ranges_never_intersect_witness:
  "reachable [shortLeave, longLeave] \<and>
   {minDays shortLeave..maxDays shortLeave} \<inter> {minDays longLeave..maxDays longLeave} = {} \<and>
   createApprovalWorkflow ''w3''
     \<lparr>d_name = ''Medium leave'', d_minDays = 2, d_maxDays = 4, d_approvalLevels = [],
      d_isActive = True\<rparr> [shortLeave, longLeave] = Inl Overlaps \<and>
   updateApprovalWorkflow ''w1'' (noChange\<lparr>p_maxDays := Some 3\<rparr>) [shortLeave, longLeave]
     = Inl WouldOverlap \<and>
   updateApprovalWorkflow ''w1'' (noChange\<lparr>p_minDays := Some 1\<rparr>) [shortLeave, longLeave]
     = Inr [shortLeave\<lparr>minDays := 1\<rparr>, longLeave]"
proof -
  note r = reachable_example
  note t = workflow_ranges_never_intersect [OF r]
  have ne: "shortLeave \<noteq> longLeave" by (simp add: shortLeave_def longLeave_def)
  from t ne have a: "{minDays shortLeave..maxDays shortLeave} \<inter>
      {minDays longLeave..maxDays longLeave} = {}"
    by simp
  have b: "createApprovalWorkflow ''w3''
     \<lparr>d_name = ''Medium leave'', d_minDays = 2, d_maxDays = 4, d_approvalLevels = [],
      d_isActive = True\<rparr> [shortLeave, longLeave] = Inl Overlaps"
    by (simp add: createApprovalWorkflow_def shortLeave_def longLeave_def)
  have c: "updateApprovalWorkflow ''w1'' (noChange\<lparr>p_maxDays := Some 3\<rparr>) [shortLeave, longLeave]
     = Inl WouldOverlap"
    by (simp add: updateApprovalWorkflow_def findOne_def noChange_def shortLeave_def longLeave_def)
  have d: "updateApprovalWorkflow ''w1'' (noChange\<lparr>p_minDays := Some 1\<rparr>) [shortLeave, longLeave]
     = Inr [shortLeave\<lparr>minDays := 1\<rparr>, longLeave]"
    by (simp add: updateApprovalWorkflow_def findOne_def noChange_def shortLeave_def longLeave_def
        save_def merge_def)
  from r a b c d show ?thesis by simp
qed


section \<open>C8: approval and rejection of a deletion\<close>




section \<open>C9: cancellation through the status update\<close>

text \<open>
  Claim C9. \<open>updateLeaveRequestStatus\<close> with the status \<open>cancelled\<close> is accepted for a
  request in every status but \<open>cancelled\<close>, approved and rejected requests included:
  when the actor and the requester exist and the actor is authorised over the requester
  or is the requester, the answer is 200, the request is stored as cancelled, and the
  table of balances is what it was. \<open>cancelLeaveRequest\<close> on an approved request that
  has not started takes the days of the request from \<open>used\<close> of the balance row of the
  current year.
\<close>

theorem cancel_by_status_update:
  assumes "findOne lr_id i (leaveRequests db) = Some r"
    and "status r \<noteq> CANCELLED"
    and "findOne u_id actor (users db) = Some approver"
    and "findOne u_id (userId r) (users db) = Some requestUser"
    and "isApproverAuthorized env actor (userId r) \<or> userId r = actor"
  shows "http_code (fst (updateLeaveRequestStatus env db i (Status CANCELLED) c actor)) = 200 \<and>
         map_option status (findOne lr_id i (leaveRequests
            (snd (updateLeaveRequestStatus env db i (Status CANCELLED) c actor)))) = Some CANCELLED \<and>
         leaveBalances (snd (updateLeaveRequestStatus env db i (Status CANCELLED) c actor)) =
           leaveBalances db \<and>
         (status r = APPROVED \<longrightarrow> getTime (today env) \<le> getTime (startDate r) \<longrightarrow>
          (\<forall>b. findLeaveBalance db (userId r) (leaveTypeId r) (getCurrentYear env) = Some b \<longrightarrow>
             leaveBalances (snd (cancelLeaveRequest env db i (userId r))) =
               map (\<lambda>x. if lb_id x = lb_id b then b\<lparr>used := used b - numberOfDays r\<rparr> else x)
                 (leaveBalances db)))"
proof -
  have key: "lr_id r = i" using findOne_Some [OF assms(1)] by simp
  have u: "updateLeaveRequestStatus env db i (Status CANCELLED) c actor =
      finalAssignment env db r CANCELLED c actor"
    using update_dispatch [OF assms(1,2) _ assms(3,4), where env = env and c = c] assms(5) by auto
  have fa: "finalAssignment env db r CANCELLED c actor =
      (reply 200 ''Leave request updated successfully'',
       saveLeaveRequest (assignStatus r CANCELLED c actor) db)"
    by (rule finalAssignment_other) simp
  have stored: "findOne lr_id i (save lr_id (assignStatus r CANCELLED c actor) (leaveRequests db)) =
      Some (assignStatus r CANCELLED c actor)"
    using findOne_save [of lr_id "assignStatus r CANCELLED c actor" "leaveRequests db"] key
    by simp
  have cancel: "leaveBalances (snd (cancelLeaveRequest env db i (userId r))) =
      map (\<lambda>x. if lb_id x = lb_id b then b\<lparr>used := used b - numberOfDays r\<rparr> else x)
        (leaveBalances db)"
    if "status r = APPROVED" "getTime (today env) \<le> getTime (startDate r)"
      "findLeaveBalance db (userId r) (leaveTypeId r) (getCurrentYear env) = Some b" for b
    using cancelLeaveRequest_approved [OF assms(1) that] saveLeaveBalance_found [OF that(3)]
    by simp
  show ?thesis
    unfolding u fa using cancel by (simp add: reply_def stored)
qed

theorem cancel_by_status_update_witness:
  "(let r = aliceRequest ''r1'' 12 14 APPROVED None;
        db = exampleDb [r] [aliceBalance 2026 5];
        env = exampleEnv 20454 2026
    in findOne lr_id ''r1'' (leaveRequests db) = Some r \<and> status r \<noteq> CANCELLED \<and>
       http_code (fst (updateLeaveRequestStatus env db ''r1'' (Status CANCELLED) None ''bob'')) = 200 \<and>
       map_option status (findOne lr_id ''r1'' (leaveRequests
         (snd (updateLeaveRequestStatus env db ''r1'' (Status CANCELLED) None ''bob'')))) =
         Some CANCELLED \<and>
       leaveBalances (snd (updateLeaveRequestStatus env db ''r1'' (Status CANCELLED) None ''bob'')) =
         [aliceBalance 2026 5] \<and>
       leaveBalances (snd (cancelLeaveRequest env db ''r1'' ''alice'')) = [aliceBalance 2026 2])"
proof -
  define r where "r = aliceRequest ''r1'' 12 14 APPROVED None"
  define db where "db = exampleDb [r] [aliceBalance 2026 5]"
  define env where "env = exampleEnv 20454 2026"
  have f: "findOne lr_id ''r1'' (leaveRequests db) = Some r"
    by (simp add: db_def r_def exampleDb_def findOne_def aliceRequest_def)
  have s: "status r \<noteq> CANCELLED" and s': "status r = APPROVED"
    by (simp_all add: r_def aliceRequest_def)
  have u1: "findOne u_id ''bob'' (users db) = Some bob"
    by (simp add: db_def exampleDb_def findOne_def alice_def bob_def)
  have u2: "findOne u_id (userId r) (users db) = Some alice"
    by (simp add: db_def exampleDb_def findOne_def alice_def r_def aliceRequest_def)
  have g: "isApproverAuthorized env ''bob'' (userId r) \<or> userId r = ''bob''"
    by (simp add: env_def exampleEnv_def r_def aliceRequest_def)
  note t = cancel_by_status_update [OF f s u1 u2 g, of None]
  have lbs: "leaveBalances db = [aliceBalance 2026 5]" by (simp add: db_def exampleDb_def)
  have bal: "findLeaveBalance db (userId r) (leaveTypeId r) (getCurrentYear env) =
      Some (aliceBalance 2026 5)"
    by (simp add: findLeaveBalance_def lbs r_def aliceRequest_def aliceBalance_def env_def
        exampleEnv_def)
  have future: "getTime (today env) \<le> getTime (startDate r)"
    by (simp add: env_def exampleEnv_def r_def aliceRequest_def)
  have who: "userId r = ''alice''" and days: "numberOfDays r = 3"
    by (simp_all add: r_def aliceRequest_def)
  from t s' future bal have "leaveBalances (snd (cancelLeaveRequest env db ''r1'' (userId r))) =
      map (\<lambda>x. if lb_id x = lb_id (aliceBalance 2026 5)
                then (aliceBalance 2026 5)\<lparr>used := used (aliceBalance 2026 5) - numberOfDays r\<rparr>
                else x) (leaveBalances db)"
    by blast
  then have cancelled: "leaveBalances (snd (cancelLeaveRequest env db ''r1'' ''alice'')) =
      [aliceBalance 2026 2]"
    by (simp add: who days lbs aliceBalance_def)
  from t f s lbs cancelled show ?thesis
    unfolding r_def [symmetric] db_def [symmetric] env_def [symmetric] Let_def by simp
qed


section \<open>C10: the balance row of an approval and the balance row of a deletion\<close>

text \<open>
  Claim C10. A final approval (an approval with no applicable workflow, or one whose
  matched level is not below the highest level of the workflow) that meets no overlap adds
  the days of the request to \<open>used\<close> of the balance row of the user, the leave type and
  the current year, the year \<open>getCurrentYear\<close> reports when the approval is made; the
  cancellation of an approved request takes them from the row of the current year too.
  \<open>deleteLeaveRequest\<close>, when it deletes an approved or partially approved request at
  once, and \<open>approveDeleteLeaveRequest\<close>, called with a body (without one it answers
  500 and writes nothing), take the days, down to 0, from the row of the year of the start
  date of the request. So when the year of the start date is not the current year, the row
  an approval writes and the row a deletion writes are two rows.
\<close>

theorem balance_rows_of_approval_and_deletion:
  assumes "findOne lr_id i (leaveRequests db) = Some r"
    and "findOne u_id actor (users db) = Some approver"
    and "findOne u_id (userId r) (users db) = Some requestUser"
  shows "(status r = PENDING \<or> status r = PARTIALLY_APPROVED \<longrightarrow>
          isApproverAuthorized env actor (userId r) \<longrightarrow>
          (findApplicableWorkflow db r = None \<or>
           (\<exists>k h. matchedLevel db r approver = Some k \<and> highestLevel db r = Some h \<and> \<not> k < h)) \<longrightarrow>
          overlappingApproved (leaveRequests db) r = [] \<longrightarrow>
          leaveBalances (snd (updateLeaveRequestStatus env db i (Status APPROVED) c actor)) =
            withUsed (leaveBalances db)
              (findLeaveBalance db (userId r) (leaveTypeId r) (getCurrentYear env))
              (\<lambda>u. u + numberOfDays r)) \<and>
         (status r = APPROVED \<longrightarrow> getTime (today env) \<le> getTime (startDate r) \<longrightarrow>
          leaveBalances (snd (cancelLeaveRequest env db i (userId r))) =
            withUsed (leaveBalances db)
              (findLeaveBalance db (userId r) (leaveTypeId r) (getCurrentYear env))
              (\<lambda>u. u - numberOfDays r)) \<and>
         (status r = APPROVED \<or> status r = PARTIALLY_APPROVED \<longrightarrow>
          userId r = caller \<or> userRole = SUPER_ADMIN \<or> userRole = HR \<longrightarrow>
          \<not> deletionDeferred db r caller userRole \<longrightarrow>
          leaveBalances (snd (deleteLeaveRequest db i caller userRole)) =
            withUsed (leaveBalances db)
              (findLeaveBalance db (userId r) (leaveTypeId r) (getFullYear (startDate r)))
              (\<lambda>u. max 0 (u - numberOfDays r))) \<and>
         (status r = PENDING_DELETION \<longrightarrow>
          (\<exists>m. metadata r = Some m \<and>
               (originalStatus m = Some APPROVED \<or> originalStatus m = Some PARTIALLY_APPROVED)) \<longrightarrow>
          managerId requestUser = Some actor \<or> role approver = SUPER_ADMIN \<or> role approver = HR \<longrightarrow>
          payload = Some body \<longrightarrow>
          leaveBalances (snd (approveDeleteLeaveRequest db i payload actor)) =
            withUsed (leaveBalances db)
              (findLeaveBalance db (userId r) (leaveTypeId r) (getFullYear (startDate r)))
              (\<lambda>u. max 0 (u - numberOfDays r))) \<and>
         (getFullYear (startDate r) \<noteq> getCurrentYear env \<longrightarrow>
          (\<forall>b b'. findLeaveBalance db (userId r) (leaveTypeId r) (getCurrentYear env) = Some b \<longrightarrow>
                  findLeaveBalance db (userId r) (leaveTypeId r) (getFullYear (startDate r)) = Some b' \<longrightarrow>
                  year b = getCurrentYear env \<and> year b' = getFullYear (startDate r) \<and> b \<noteq> b'))"
proof (intro conjI impI allI)
  assume st: "status r = PENDING \<or> status r = PARTIALLY_APPROVED"
    and au: "isApproverAuthorized env actor (userId r)"
    and fin: "findApplicableWorkflow db r = None \<or>
       (\<exists>k h. matchedLevel db r approver = Some k \<and> highestLevel db r = Some h \<and> \<not> k < h)"
    and no: "overlappingApproved (leaveRequests db) r = []"
  from st have ne: "status r \<noteq> APPROVED" by auto
  from st have st': "status r = PENDING \<or> status r = PARTIALLY_APPROVED \<or> APPROVED = CANCELLED"
    by blast
  from au have au': "isApproverAuthorized env actor (userId r) \<or>
      (userId r = actor \<and> APPROVED = CANCELLED)" by blast
  note d = update_dispatch [OF assms(1) ne st' assms(2,3) au', where c = c]
  from fin show "leaveBalances (snd (updateLeaveRequestStatus env db i (Status APPROVED) c actor)) =
      withUsed (leaveBalances db)
        (findLeaveBalance db (userId r) (leaveTypeId r) (getCurrentYear env))
        (\<lambda>u. u + numberOfDays r)"
  proof
    assume "findApplicableWorkflow db r = None"
    with d no show ?thesis by (simp add: leaveBalances_finalAssignment_approved)
  next
    assume "\<exists>k h. matchedLevel db r approver = Some k \<and> highestLevel db r = Some h \<and> \<not> k < h"
    then obtain k h where k: "matchedLevel db r approver = Some k"
      and h: "highestLevel db r = Some h" and kh: "\<not> k < h" by blast
    from k obtain w where w: "findApplicableWorkflow db r = Some w"
      and k': "findCurrentApproverLevel r approver (sort_key level (approvalLevels w)) = Some k"
      by (auto simp: matchedLevel_def split: option.splits)
    from h w have ne': "sort_key level (approvalLevels w) \<noteq> []"
      and h': "level (last (sort_key level (approvalLevels w))) = h"
      by (auto simp: highestLevel_def split: if_splits)
    have no': "overlappingApproved (leaveRequests db) (fullyApproved r k c actor) = []"
      using overlappingApproved_cong [of "fullyApproved r k c actor" r "leaveRequests db"] no
      by simp
    have "updateLeaveRequestStatus env db i (Status APPROVED) c actor =
        finalAssignment env db (fullyApproved r k c actor) APPROVED c actor"
      unfolding d using w k' ne' h' kh by simp
    then show ?thesis
      using leaveBalances_finalAssignment_approved [OF no', of env c actor] by simp
  qed
next
  assume "status r = APPROVED" "getTime (today env) \<le> getTime (startDate r)"
  then show "leaveBalances (snd (cancelLeaveRequest env db i (userId r))) =
      withUsed (leaveBalances db)
        (findLeaveBalance db (userId r) (leaveTypeId r) (getCurrentYear env))
        (\<lambda>u. u - numberOfDays r)"
    by (rule leaveBalances_cancel [OF assms(1)])
next
  assume st: "status r = APPROVED \<or> status r = PARTIALLY_APPROVED"
    and who: "userId r = caller \<or> userRole = SUPER_ADMIN \<or> userRole = HR"
    and nd: "\<not> deletionDeferred db r caller userRole"
  from deleteLeaveRequest_direct [OF assms(1) who nd] st
  show "leaveBalances (snd (deleteLeaveRequest db i caller userRole)) =
      withUsed (leaveBalances db)
        (findLeaveBalance db (userId r) (leaveTypeId r) (getFullYear (startDate r)))
        (\<lambda>u. max 0 (u - numberOfDays r))"
    by (simp add: leaveBalances_revert_withUsed)
next
  assume st: "status r = PENDING_DELETION"
    and orig: "\<exists>m. metadata r = Some m \<and>
               (originalStatus m = Some APPROVED \<or> originalStatus m = Some PARTIALLY_APPROVED)"
    and who: "managerId requestUser = Some actor \<or> role approver = SUPER_ADMIN \<or> role approver = HR"
    and body: "payload = Some body"
  from orig have "(case metadata r of Some m \<Rightarrow> originalStatus m | None \<Rightarrow> None) = Some APPROVED \<or>
      (case metadata r of Some m \<Rightarrow> originalStatus m | None \<Rightarrow> None) = Some PARTIALLY_APPROVED"
    by auto
  with approveDeleteLeaveRequest_result [OF assms(1) st assms(2,3) who, of body] body
  show "leaveBalances (snd (approveDeleteLeaveRequest db i payload actor)) =
      withUsed (leaveBalances db)
        (findLeaveBalance db (userId r) (leaveTypeId r) (getFullYear (startDate r)))
        (\<lambda>u. max 0 (u - numberOfDays r))"
    by (simp add: leaveBalances_revert_withUsed)
next
  fix b b'
  assume "findLeaveBalance db (userId r) (leaveTypeId r) (getCurrentYear env) = Some b"
  then show "year b = getCurrentYear env" by (rule findLeaveBalance_year)
next
  fix b b'
  assume "findLeaveBalance db (userId r) (leaveTypeId r) (getFullYear (startDate r)) = Some b'"
  then show "year b' = getFullYear (startDate r)" by (rule findLeaveBalance_year)
next
  fix b b'
  assume ne: "getFullYear (startDate r) \<noteq> getCurrentYear env"
    and b: "findLeaveBalance db (userId r) (leaveTypeId r) (getCurrentYear env) = Some b"
    and b': "findLeaveBalance db (userId r) (leaveTypeId r) (getFullYear (startDate r)) = Some b'"
  from findLeaveBalance_year [OF b] findLeaveBalance_year [OF b'] ne
  show "b \<noteq> b'" by auto
qed


theorem balance_rows_of_approval_and_deletion_witness:
  "(let env = exampleEnv 20437 2025;
        r = aliceRequest ''r1'' 12 14 PENDING None;
        db = exampleDb [r] [aliceBalance 2025 0, aliceBalance 2026 5];
        r' = aliceRequest ''r1'' 12 14 APPROVED None;
        db' = exampleDb [r'] [aliceBalance 2025 3, aliceBalance 2026 5];
        r'' = aliceRequest ''r1'' 12 14 PENDING_DELETION (Some (deletionMetadata APPROVED));
        db'' = exampleDb [r''] [aliceBalance 2025 3, aliceBalance 2026 5]
    in matchedLevel db r bob = Some 2 \<and> highestLevel db r = Some 2 \<and>
       getFullYear (startDate r) \<noteq> getCurrentYear env \<and>
       leaveBalances (snd (updateLeaveRequestStatus env db ''r1'' (Status APPROVED) None ''bob'')) =
         [aliceBalance 2025 3, aliceBalance 2026 5] \<and>
       leaveBalances (snd (cancelLeaveRequest env db' ''r1'' ''alice'')) =
         [aliceBalance 2025 0, aliceBalance 2026 5] \<and>
       leaveBalances (snd (deleteLeaveRequest db' ''r1'' ''hana'' HR)) =
         [aliceBalance 2025 3, aliceBalance 2026 2] \<and>
       leaveBalances
         (snd (approveDeleteLeaveRequest db'' ''r1'' (Some \<lparr>d_comments = None\<rparr>) ''bob'')) =
         [aliceBalance 2025 3, aliceBalance 2026 2])"
proof -
  define env where "env = exampleEnv 20437 2025"
  define r where "r = aliceRequest ''r1'' 12 14 PENDING None"
  define db where "db = exampleDb [r] [aliceBalance 2025 0, aliceBalance 2026 5]"
  define r' where "r' = aliceRequest ''r1'' 12 14 APPROVED None"
  define db' where "db' = exampleDb [r'] [aliceBalance 2025 3, aliceBalance 2026 5]"
  define r'' where
    "r'' = aliceRequest ''r1'' 12 14 PENDING_DELETION (Some (deletionMetadata APPROVED))"
  define db'' where "db'' = exampleDb [r''] [aliceBalance 2025 3, aliceBalance 2026 5]"
  have f'': "findOne lr_id ''r1'' (leaveRequests db'') = Some r''"
    by (simp add: db''_def r''_def exampleDb_def findOne_def aliceRequest_def)
  have u'': "findOne u_id ''bob'' (users db'') = Some bob"
    "findOne u_id (userId r'') (users db'') = Some alice"
    by (simp_all add: db''_def exampleDb_def findOne_def alice_def bob_def r''_def
        aliceRequest_def)
  have st'': "status r'' = PENDING_DELETION" by (simp add: r''_def aliceRequest_def)
  have orig'': "\<exists>m. metadata r'' = Some m \<and>
      (originalStatus m = Some APPROVED \<or> originalStatus m = Some PARTIALLY_APPROVED)"
    by (simp add: r''_def aliceRequest_def deletionMetadata_def)
  have who'': "managerId alice = Some ''bob'' \<or> role bob = SUPER_ADMIN \<or> role bob = HR"
    by (simp add: alice_def)
  have bal'': "findLeaveBalance db'' (userId r'') (leaveTypeId r'') (getFullYear (startDate r'')) =
      Some (aliceBalance 2026 5)"
    by (simp add: findLeaveBalance_def db''_def exampleDb_def r''_def aliceRequest_def
        aliceBalance_def)
  have lbs'': "leaveBalances db'' = [aliceBalance 2025 3, aliceBalance 2026 5]"
    by (simp add: db''_def exampleDb_def)
  have days'': "numberOfDays r'' = 3" by (simp add: r''_def aliceRequest_def)
  have f: "findOne lr_id ''r1'' (leaveRequests db) = Some r"
    by (simp add: db_def r_def exampleDb_def findOne_def aliceRequest_def)
  have f': "findOne lr_id ''r1'' (leaveRequests db') = Some r'"
    by (simp add: db'_def r'_def exampleDb_def findOne_def aliceRequest_def)
  have u1: "findOne u_id ''bob'' (users db) = Some bob"
    "findOne u_id ''bob'' (users db') = Some bob"
    by (simp_all add: db_def db'_def exampleDb_def findOne_def alice_def bob_def)
  have u2: "findOne u_id (userId r) (users db) = Some alice"
    "findOne u_id (userId r') (users db') = Some alice"
    by (simp_all add: db_def db'_def exampleDb_def findOne_def alice_def r_def r'_def
        aliceRequest_def)
  have w: "findApplicableWorkflow db r = Some longLeave"
    by (simp add: findApplicableWorkflow_def activeWorkflows_def db_def exampleDb_def r_def
        aliceRequest_def shortLeave_def longLeave_def)
  have sorted: "sort_key level (approvalLevels longLeave) =
      [exampleLevel 1 [''role-team-lead''], exampleLevel 2 [''role-manager'']]"
    by (simp add: longLeave_def exampleLevel_def)
  have k: "matchedLevel db r bob = Some 2"
    unfolding matchedLevel_def w option.case sorted
    by (simp add: findCurrentApproverLevel_def r_def aliceRequest_def
        approverMatchesLevel_def exampleLevel_def bob_def)
  have h: "highestLevel db r = Some 2"
    unfolding highestLevel_def w option.case sorted
    by (simp add: exampleLevel_def)
  have y: "getFullYear (startDate r) \<noteq> getCurrentYear env"
    by (simp add: r_def aliceRequest_def env_def exampleEnv_def)
  have st: "status r = PENDING \<or> status r = PARTIALLY_APPROVED" and st': "status r' = APPROVED"
    by (simp_all add: r_def r'_def aliceRequest_def)
  have au: "isApproverAuthorized env ''bob'' (userId r)"
    by (simp add: env_def exampleEnv_def r_def aliceRequest_def)
  have fin: "findApplicableWorkflow db r = None \<or>
      (\<exists>k h. matchedLevel db r bob = Some k \<and> highestLevel db r = Some h \<and> \<not> k < h)"
    using k h by simp
  have no: "overlappingApproved (leaveRequests db) r = []"
    by (simp add: overlappingApproved_def db_def exampleDb_def)
  have future: "getTime (today env) \<le> getTime (startDate r')"
    by (simp add: env_def exampleEnv_def r'_def aliceRequest_def)
  have who: "userId r' = ''hana'' \<or> HR = SUPER_ADMIN \<or> HR = HR" by simp
  have nd: "\<not> deletionDeferred db' r' ''hana'' HR" by (simp add: deletionDeferred_def)
  note t = balance_rows_of_approval_and_deletion [OF f u1(1) u2(1),
      where env = env and c = None and caller = "''hana''" and userRole = HR]
  note t' = balance_rows_of_approval_and_deletion [OF f' u1(2) u2(2),
      where env = env and c = None and caller = "''hana''" and userRole = HR]
  have bal: "findLeaveBalance db (userId r) (leaveTypeId r) (getCurrentYear env) =
        Some (aliceBalance 2025 0)"
    "findLeaveBalance db' (userId r') (leaveTypeId r') (getCurrentYear env) =
        Some (aliceBalance 2025 3)"
    "findLeaveBalance db' (userId r') (leaveTypeId r') (getFullYear (startDate r')) =
        Some (aliceBalance 2026 5)"
    by (simp_all add: findLeaveBalance_def db_def db'_def exampleDb_def r_def r'_def
        aliceRequest_def aliceBalance_def env_def exampleEnv_def)
  have lbs: "leaveBalances db = [aliceBalance 2025 0, aliceBalance 2026 5]"
    "leaveBalances db' = [aliceBalance 2025 3, aliceBalance 2026 5]"
    by (simp_all add: db_def db'_def exampleDb_def)
  have days: "numberOfDays r = 3" "numberOfDays r' = 3" "userId r' = ''alice''"
    by (simp_all add: r_def r'_def aliceRequest_def)
  from t st au fin no
  have 1: "leaveBalances (snd (updateLeaveRequestStatus env db ''r1'' (Status APPROVED) None ''bob'')) =
      withUsed (leaveBalances db)
        (findLeaveBalance db (userId r) (leaveTypeId r) (getCurrentYear env))
        (\<lambda>u. u + numberOfDays r)"
    by blast
  from t' st' future
  have 2: "leaveBalances (snd (cancelLeaveRequest env db' ''r1'' (userId r'))) =
      withUsed (leaveBalances db')
        (findLeaveBalance db' (userId r') (leaveTypeId r') (getCurrentYear env))
        (\<lambda>u. u - numberOfDays r')"
    by blast
  from t' st' who nd
  have 3: "leaveBalances (snd (deleteLeaveRequest db' ''r1'' ''hana'' HR)) =
      withUsed (leaveBalances db')
        (findLeaveBalance db' (userId r') (leaveTypeId r') (getFullYear (startDate r')))
        (\<lambda>u. max 0 (u - numberOfDays r'))"
    by blast
  note t'' = balance_rows_of_approval_and_deletion [OF f'' u'',
      where env = env and c = None and caller = "''hana''" and userRole = HR
        and payload = "Some \<lparr>d_comments = None\<rparr>" and body = "\<lparr>d_comments = None\<rparr>"]
  from t'' st'' orig'' who''
  have 4: "leaveBalances
        (snd (approveDeleteLeaveRequest db'' ''r1'' (Some \<lparr>d_comments = None\<rparr>) ''bob'')) =
      withUsed (leaveBalances db'')
        (findLeaveBalance db'' (userId r'') (leaveTypeId r'') (getFullYear (startDate r'')))
        (\<lambda>u. max 0 (u - numberOfDays r''))"
    by blast
  have d: "leaveBalances
        (snd (approveDeleteLeaveRequest db'' ''r1'' (Some \<lparr>d_comments = None\<rparr>) ''bob'')) =
      [aliceBalance 2025 3, aliceBalance 2026 2]"
    using 4 [unfolded bal'' lbs''] by (simp add: days'' withUsed_def aliceBalance_def)
  have a: "leaveBalances (snd (updateLeaveRequestStatus env db ''r1'' (Status APPROVED) None ''bob'')) =
      [aliceBalance 2025 3, aliceBalance 2026 5]"
    using 1 [unfolded bal lbs] by (simp add: days withUsed_def aliceBalance_def)
  have b: "leaveBalances (snd (cancelLeaveRequest env db' ''r1'' ''alice'')) =
      [aliceBalance 2025 0, aliceBalance 2026 5]"
    using 2 [unfolded bal lbs] by (simp add: days withUsed_def aliceBalance_def)
  have c: "leaveBalances (snd (deleteLeaveRequest db' ''r1'' ''hana'' HR)) =
      [aliceBalance 2025 3, aliceBalance 2026 2]"
    using 3 [unfolded bal lbs] by (simp add: days withUsed_def aliceBalance_def)
  from k h y a b c d show ?thesis
    unfolding r_def [symmetric] db_def [symmetric] env_def [symmetric] r'_def [symmetric]
      db'_def [symmetric] r''_def [symmetric] db''_def [symmetric] Let_def
    by simp
qed


end
